(* ===== verification/Prelude.thy ===== *)
theory Prelude
  imports Complex_Main "HOL-Library.Char_ord" "HOL-Library.List_Lexorder"
begin

section \<open>Prelude: results, strings, digits and rational rounding\<close>

text \<open>
  What the components share.  A JavaScript exception is a value of type \<open>err\<close>: the code of the
  message and the values interpolated into it.  A call that may throw returns \<open>err + 'a\<close>, \<open>Inl\<close>
  for the exception; \<open>ebind\<close> sequences two such calls as the source's statement order does.
  A JavaScript string is a \<open>string\<close> (8-bit characters; every format the modelled code parses or
  prints is ASCII), and \<open><\<close> on strings is the code-unit order of the source, from
  \<open>List_Lexorder\<close> and \<open>Char_ord\<close>.
\<close>

named_theorems exec_simps "equations that evaluate the model's operations"
named_theorems val_simps "what an operation on representations does to the value represented"

subsection \<open>Exceptions as values\<close>

datatype err = JsError string "string list"

type_synonym 'a result = "err + 'a"

definition ebind :: "'a result \<Rightarrow> ('a \<Rightarrow> 'b result) \<Rightarrow> 'b result" where
  "ebind m f = (case m of Inl e \<Rightarrow> Inl e | Inr x \<Rightarrow> f x)"

lemma ebind_simps [simp, exec_simps]:
  "ebind (Inl e) f = Inl e"
  "ebind (Inr x) f = f x"
  by (simp_all add: ebind_def)

lemma ebind_InrE [elim!]:
  assumes "ebind m f = Inr y"
  obtains x where "m = Inr x" "f x = Inr y"
  using assms by (cases m) auto

lemma ebind_Inr_iff: "ebind m f = Inr y \<longleftrightarrow> (\<exists>x. m = Inr x \<and> f x = Inr y)"
  by (cases m) auto

lemma ebind_assoc: "ebind (ebind m f) g = ebind m (\<lambda>x. ebind (f x) g)"
  by (cases m) auto

text \<open>
  The simplifier evaluates the first call before it looks at what follows, as it does for
  \<open>if\<close> and \<open>case\<close>.
\<close>

lemma ebind_weak_cong [cong]: "m = m' \<Longrightarrow> ebind m f = ebind m' f"
  by simp

lemma ebind_cong [fundef_cong]:
  "m = m' \<Longrightarrow> (\<And>x. m' = Inr x \<Longrightarrow> f x = g x) \<Longrightarrow> ebind m f = ebind m' g"
  by (cases m') auto

text \<open>A loop over a list whose body may throw: left to right, stopping at the first exception.\<close>

fun efold :: "('a \<Rightarrow> 's \<Rightarrow> 's result) \<Rightarrow> 'a list \<Rightarrow> 's \<Rightarrow> 's result" where
  "efold f [] s = Inr s"
| "efold f (x # xs) s = ebind (f x s) (efold f xs)"

fun emap :: "('a \<Rightarrow> 'b result) \<Rightarrow> 'a list \<Rightarrow> 'b list result" where
  "emap f [] = Inr []"
| "emap f (x # xs) = ebind (f x) (\<lambda>y. ebind (emap f xs) (\<lambda>ys. Inr (y # ys)))"

lemma emap_Inr_length: "emap f xs = Inr ys \<Longrightarrow> length ys = length xs"
  by (induction xs arbitrary: ys) auto

lemma emap_Inr_set:
  assumes "emap f xs = Inr ys" "y \<in> set ys"
  shows "\<exists>x \<in> set xs. f x = Inr y"
  using assms by (induction xs arbitrary: ys) auto

subsection \<open>Digits\<close>

definition is_digit :: "char \<Rightarrow> bool" where
  "is_digit c \<longleftrightarrow> 48 \<le> (of_char c :: nat) \<and> (of_char c :: nat) \<le> 57"

definition digit_val :: "char \<Rightarrow> nat" where
  "digit_val c = of_char c - 48"

definition digit_char :: "nat \<Rightarrow> char" where
  "digit_char n = char_of (48 + n)"

lemma digit_char_props [simp]:
  assumes "n < 10"
  shows "is_digit (digit_char n)" "digit_val (digit_char n) = n"
  using assms by (simp_all add: is_digit_def digit_val_def digit_char_def)

lemma digit_char_0 [simp]: "digit_char 0 = CHR ''0''"
  by (simp add: digit_char_def char_of_def bit_iff_odd)

lemma digit_char_inj: "m < 10 \<Longrightarrow> n < 10 \<Longrightarrow> digit_char m = digit_char n \<longleftrightarrow> m = n"
  by (metis digit_char_props(2))

lemma digit_char_eq_0 [simp]: "n < 10 \<Longrightarrow> digit_char n = CHR ''0'' \<longleftrightarrow> n = 0"
  using digit_char_inj [of n 0] by simp

text \<open>\<open>BigInt.toString\<close> and \<open>String\<close> of a natural number: decimal digits, no leading zero.\<close>

fun show_nat :: "nat \<Rightarrow> string" where
  "show_nat n = (if n < 10 then [digit_char n] else show_nat (n div 10) @ [digit_char (n mod 10)])"

declare show_nat.simps [simp del]

lemma show_nat_small: "n < 10 \<Longrightarrow> show_nat n = [digit_char n]"
  by (subst show_nat.simps) simp

lemma show_nat_step: "10 \<le> n \<Longrightarrow> show_nat n = show_nat (n div 10) @ [digit_char (n mod 10)]"
  by (subst show_nat.simps) simp

lemma show_nat_nonempty [simp]: "show_nat n \<noteq> []"
  by (subst show_nat.simps) simp

lemma show_nat_digits: "list_all is_digit (show_nat n)"
proof (induction n rule: show_nat.induct)
  case (1 n)
  then show ?case
    by (cases "n < 10") (auto simp: show_nat_small show_nat_step)
qed

lemma show_nat_times10: "0 < n \<Longrightarrow> show_nat (10 * n) = show_nat n @ ''0''"
  by (subst show_nat_step) auto

text \<open>Evaluation of \<open>show_nat\<close> on numerals.\<close>

lemma show_nat_numeral [exec_simps]:
  "show_nat (numeral k) = (if (numeral k :: nat) < 10 then [digit_char (numeral k)]
     else show_nat (numeral k div 10) @ [digit_char (numeral k mod 10)])"
  by (subst show_nat.simps) simp

lemma show_nat_01 [exec_simps]: "show_nat 0 = ''0''" "show_nat (Suc 0) = ''1''" "show_nat 1 = ''1''"
  by (simp_all add: show_nat_small digit_char_def char_of_def bit_iff_odd)

lemma digit_char_eval [exec_simps]:
  "digit_char 1 = CHR ''1''" "digit_char (Suc 0) = CHR ''1''" "digit_char 2 = CHR ''2''"
  "digit_char 3 = CHR ''3''" "digit_char 4 = CHR ''4''" "digit_char 5 = CHR ''5''"
  "digit_char 6 = CHR ''6''" "digit_char 7 = CHR ''7''" "digit_char 8 = CHR ''8''"
  "digit_char 9 = CHR ''9''"
  by (simp_all add: digit_char_def char_of_def bit_iff_odd)

text \<open>\<open>BigInt(s)\<close> and \<open>Number(s)\<close> of a string of digits.\<close>

definition nat_of_digits :: "string \<Rightarrow> nat" where
  "nat_of_digits = foldl (\<lambda>a c. a * 10 + digit_val c) 0"

lemma foldl_digits:
  "foldl (\<lambda>a c. a * 10 + digit_val c) n xs = n * 10 ^ length xs + nat_of_digits xs"
proof (induction xs rule: rev_induct)
  case Nil
  show ?case by (simp add: nat_of_digits_def)
next
  case (snoc x xs)
  then show ?case by (simp add: nat_of_digits_def algebra_simps)
qed

lemma nat_of_digits_Nil [simp]: "nat_of_digits [] = 0"
  by (simp add: nat_of_digits_def)

lemma nat_of_digits_append:
  "nat_of_digits (xs @ ys) = nat_of_digits xs * 10 ^ length ys + nat_of_digits ys"
  using foldl_digits [of "nat_of_digits xs" ys] by (simp add: nat_of_digits_def)

lemma nat_of_digits_single [simp]: "nat_of_digits [c] = digit_val c"
  by (simp add: nat_of_digits_def)

lemma nat_of_digits_Cons: "nat_of_digits (c # cs) = digit_val c * 10 ^ length cs + nat_of_digits cs"
  using nat_of_digits_append [of "[c]" cs] by simp

lemma digit_val_0 [simp]: "digit_val (CHR ''0'') = 0"
  by (simp add: digit_val_def)

lemma nat_of_digits_zeros [simp]: "nat_of_digits (replicate n (CHR ''0'')) = 0"
  by (induction n) (simp_all add: nat_of_digits_Cons)

lemma nat_of_digits_show [simp]: "nat_of_digits (show_nat n) = n"
proof (induction n rule: show_nat.induct)
  case (1 n)
  then show ?case
    by (cases "n < 10") (auto simp: show_nat_small show_nat_step nat_of_digits_append)
qed

lemma show_nat_inj: "show_nat m = show_nat n \<longleftrightarrow> m = n"
  by (metis nat_of_digits_show)

text \<open>\<open>padStart\<close>, and a signed integer as \<open>String\<close> prints it.\<close>

definition pad_start :: "nat \<Rightarrow> char \<Rightarrow> string \<Rightarrow> string" where
  "pad_start n c s = replicate (n - length s) c @ s"

definition show_int :: "int \<Rightarrow> string" where
  "show_int i = (if i < 0 then CHR ''-'' # show_nat (nat (- i)) else show_nat (nat i))"

subsection \<open>Integer division\<close>

lemma div_bounds:
  fixes x k :: int
  assumes "0 < k"
  shows "k * (x div k) \<le> x" "x < k * (x div k) + k"
proof -
  have "x = k * (x div k) + x mod k" by simp
  then show "k * (x div k) \<le> x" "x < k * (x div k) + k"
    using pos_mod_sign [OF assms, of x] pos_mod_bound [OF assms, of x] by linarith+
qed

lemma div_step:
  fixes x k :: int
  assumes "1 < k"
  shows "(x + 1) div k = x div k + (if (x + 1) mod k = 0 then 1 else 0)"
proof (cases "(x + 1) mod k = 0")
  case True
  then obtain q where q: "x + 1 = k * q" by (auto simp: mod_eq_0_iff_dvd dvd_def)
  then have "x = k * (q - 1) + (k - 1)" by (simp add: algebra_simps)
  then have "x div k = q - 1"
    using assms by (intro int_div_pos_eq [of x k "q - 1" "k - 1"]) simp_all
  with q assms show ?thesis by simp
next
  case False
  have r: "0 \<le> (x + 1) mod k" "(x + 1) mod k < k" using assms by simp_all
  have "x = k * ((x + 1) div k) + ((x + 1) mod k - 1)"
    using mult_div_mod_eq [of k "x + 1"] by linarith
  then have "x div k = (x + 1) div k"
    using r False by (intro int_div_pos_eq [of x k "(x + 1) div k" "(x + 1) mod k - 1"]) simp_all
  with False show ?thesis by simp
qed

subsection \<open>Rounding on rationals\<close>

text \<open>Round half away from zero to \<open>p\<close> fractional digits.\<close>

definition rnd :: "nat \<Rightarrow> rat \<Rightarrow> rat" where
  "rnd p q = sgn q * of_int \<lfloor>\<bar>q\<bar> * 10 ^ p + 1 / 2\<rfloor> / 10 ^ p"

lemma floor_half [simp]: "\<lfloor>1 / 2 :: rat\<rfloor> = 0"
  by (rule floor_unique) simp_all

lemma rnd_0 [simp]: "rnd p 0 = 0"
  by (simp add: rnd_def)

lemma rnd_minus: "rnd p (- q) = - rnd p q"
  by (simp add: rnd_def sgn_minus)

lemma floor_half_div:
  fixes a d :: int
  assumes "0 < d"
  shows "\<lfloor>(of_int a / of_int d + 1 / 2 :: rat)\<rfloor> = a div d + (if d \<le> 2 * (a mod d) then 1 else 0)"
proof -
  have a: "(of_int a :: rat) = of_int (a div d) * of_int d + of_int (a mod d)"
    by (metis div_mult_mod_eq of_int_add of_int_mult)
  have r: "0 \<le> a mod d" "a mod d < d"
    using assms by simp_all
  have e: "(of_int a / of_int d + 1 / 2 :: rat) = of_int (a div d) + (of_int (a mod d) / of_int d + 1 / 2)"
    using assms by (subst a) (simp add: field_simps)
  have "\<lfloor>(of_int (a mod d) / of_int d + 1 / 2 :: rat)\<rfloor> = (if d \<le> 2 * (a mod d) then 1 else 0)"
  proof (cases "d \<le> 2 * (a mod d)")
    case True
    then have "(of_int d :: rat) \<le> of_int (2 * (a mod d))" by linarith
    moreover have "(of_int (a mod d) :: rat) < of_int d" using r by linarith
    moreover have "(0 :: rat) < of_int d" using assms by simp
    ultimately have "2 * of_int (a mod d) < (of_int d * 3 :: rat)" "(of_int d :: rat) \<le> 2 * of_int (a mod d)"
      by linarith+
    then show ?thesis using True assms
      by (auto intro!: floor_unique simp: field_simps)
  next
    case False
    then have "(of_int (2 * (a mod d)) :: rat) < of_int d" by linarith
    moreover have "(0 :: rat) \<le> of_int (a mod d)" using r by simp
    ultimately show ?thesis using False assms
      by (auto intro!: floor_unique simp: field_simps)
  qed
  then show ?thesis by (subst e) simp
qed

lemma rnd_bound: "\<bar>rnd p q - q\<bar> \<le> 1 / (2 * 10 ^ p)"
proof -
  let ?m = "\<bar>q\<bar> * 10 ^ p"
  have pos: "(0::rat) < 10 ^ p" by simp
  have fl: "of_int \<lfloor>?m + 1 / 2\<rfloor> \<le> ?m + 1 / 2" "?m + 1 / 2 < of_int \<lfloor>?m + 1 / 2\<rfloor> + 1"
    by linarith+
  then have d: "\<bar>of_int \<lfloor>?m + 1 / 2\<rfloor> - ?m\<bar> \<le> 1 / 2" by linarith
  have "\<bar>rnd p q - q\<bar> = \<bar>(of_int \<lfloor>?m + 1 / 2\<rfloor> - ?m) / 10 ^ p\<bar>"
  proof (cases "0 \<le> q")
    case True
    show ?thesis
    proof (cases "q = 0")
      case True
      then show ?thesis by (simp add: rnd_def)
    next
      case False
      with True show ?thesis by (simp add: rnd_def diff_divide_distrib)
    qed
  next
    case False
    then have "rnd p q - q = - ((of_int \<lfloor>?m + 1 / 2\<rfloor> - ?m) / 10 ^ p)"
      by (simp add: rnd_def field_simps)
    then show ?thesis by (simp only: abs_minus_cancel)
  qed
  also have "\<dots> = \<bar>of_int \<lfloor>?m + 1 / 2\<rfloor> - ?m\<bar> / 10 ^ p" by (simp add: abs_divide)
  also have "\<dots> \<le> (1 / 2) / 10 ^ p"
    using d pos by (intro divide_right_mono) simp_all
  finally show ?thesis by (simp add: field_simps)
qed

lemma rnd_of_decimal:
  assumes "q * 10 ^ p = of_int i"
  shows "rnd p q = q"
proof -
  have pos: "(0::rat) < 10 ^ p" by simp
  have "\<bar>q\<bar> * 10 ^ p = of_int \<bar>i\<bar>"
    using assms by (metis abs_mult abs_of_pos of_int_abs pos)
  then have "\<lfloor>\<bar>q\<bar> * 10 ^ p + 1 / 2\<rfloor> = \<bar>i\<bar>"
    by (intro floor_unique) linarith+
  with \<open>\<bar>q\<bar> * 10 ^ p = of_int \<bar>i\<bar>\<close> have "of_int \<lfloor>\<bar>q\<bar> * 10 ^ p + 1 / 2\<rfloor> / 10 ^ p = \<bar>q\<bar>"
    by (simp add: field_simps)
  then have "rnd p q = sgn q * \<bar>q\<bar>" by (simp only: rnd_def times_divide_eq_right [symmetric])
  then show ?thesis by (simp add: sgn_mult_abs)
qed

lemma rnd_decimal: "\<exists>i. rnd p q * 10 ^ p = of_int i"
proof -
  have "rnd p q * 10 ^ p = sgn q * of_int \<lfloor>\<bar>q\<bar> * 10 ^ p + 1 / 2\<rfloor>"
    by (simp add: rnd_def)
  also have "\<dots> = of_int (sgn \<lfloor>q * 0 + (if q < 0 then -1 else if q = 0 then 0 else 1)\<rfloor> * \<lfloor>\<bar>q\<bar> * 10 ^ p + 1 / 2\<rfloor>)"
    by (cases q "0 :: rat" rule: linorder_cases) simp_all
  finally show ?thesis by blast
qed

lemma rnd_idem [simp]: "rnd p (rnd p q) = rnd p q"
  using rnd_decimal [of p q] rnd_of_decimal by blast

lemma rnd_nonneg: "0 \<le> q \<Longrightarrow> 0 \<le> rnd p q"
  by (simp add: rnd_def sgn_if zero_le_floor)

lemma rnd_mono: "q \<le> r \<Longrightarrow> rnd p q \<le> rnd p r"
proof -
  assume le: "q \<le> r"
  have pos: "rnd p a \<le> rnd p b" if "0 \<le> a" "a \<le> b" for a b
  proof (cases "a = 0")
    case True
    with that show ?thesis using rnd_nonneg by simp
  next
    case False
    with that have "\<lfloor>a * 10 ^ p + 1 / 2\<rfloor> \<le> \<lfloor>b * 10 ^ p + 1 / 2\<rfloor>"
      by (intro floor_mono) simp
    then have "(of_int \<lfloor>a * 10 ^ p + 1 / 2\<rfloor> :: rat) \<le> of_int \<lfloor>b * 10 ^ p + 1 / 2\<rfloor>" by linarith
    with False that show ?thesis by (simp add: rnd_def divide_right_mono)
  qed
  consider "0 \<le> q" | "r \<le> 0" | "q \<le> 0" "0 \<le> r" by linarith
  then show ?thesis
  proof cases
    case 1
    with le show ?thesis by (intro pos)
  next
    case 2
    with le pos [of "- r" "- q"] show ?thesis by (simp add: rnd_minus)
  next
    case 3
    then have "rnd p q \<le> 0" using rnd_nonneg [of "- q" p] by (simp add: rnd_minus)
    moreover have "0 \<le> rnd p r" using 3 by (intro rnd_nonneg)
    ultimately show ?thesis by linarith
  qed
qed

end
