(* ===== verification/Decimal.thy ===== *)
theory Decimal
  imports Prelude "HOL-Library.Multiset"
begin

section \<open>String decimals (tax-estimator/decimal.ts)\<close>

text \<open>
  The tax engine's money type \<open>Dec\<close> is a decimal string; every operation parses its arguments to a
  \<open>Scaled\<close> (a BigInt and a power of ten), computes exactly and prints the canonical string of the
  result.  The definitions below follow the file function by function; \<open>dec_parse\<close> and
  \<open>dec_to_string\<close> are its \<open>parse\<close> and \<open>toString\<close>.  The lemmas show that a canonical string and the
  rational it denotes determine each other, and that every operation computes the exact (or, for
  division and rounding, the correctly rounded) rational.  The interface \<open>decimal_arith\<close> states
  those laws; the rest of the engine is modelled over the rationals on the strength of its
  interpretation.
\<close>

subsection \<open>Scaled integers\<close>

record scaled =
  sc_int :: int
  sc_scale :: nat

definition TEN :: int where
  "TEN = 10"

definition DIV_SCALE :: nat where
  "DIV_SCALE = 12"

definition PERCENT_SCALE :: nat where
  "PERCENT_SCALE = 2"

definition RATE_PLACES :: nat where
  "RATE_PLACES = 6"

fun pow10 :: "nat \<Rightarrow> int" where
  "pow10 0 = 1"
| "pow10 (Suc n) = pow10 n * TEN"

lemma pow10_eq: "pow10 n = 10 ^ n"
  by (induction n) (simp_all add: TEN_def)

definition is_space :: "char \<Rightarrow> bool" where
  "is_space c \<longleftrightarrow> (of_char c :: nat) \<in> {9, 10, 11, 12, 13, 32, 160}"

text \<open>\<open>String.prototype.trim\<close> on the 8-bit characters of the model.\<close>

definition trim :: "string \<Rightarrow> string" where
  "trim s = rev (dropWhile is_space (rev (dropWhile is_space s)))"

subsection \<open>Parsing\<close>

text \<open>
  The groups of \<open>DEC_RE\<close>: sign, whole digits, the fraction digits (empty when absent), and the
  exponent.  Each \<open>\d*\<close> is greedy and is followed by a character that is not a digit, so the
  leftmost match takes every digit there is.
\<close>

definition take_sign :: "string \<Rightarrow> bool \<times> string" where
  "take_sign s = (case s of [] \<Rightarrow> (False, [])
     | c # r \<Rightarrow> if c = CHR ''+'' then (False, r) else if c = CHR ''-'' then (True, r) else (False, s))"

definition exponent_of :: "string \<Rightarrow> int option" where
  "exponent_of s = (case s of [] \<Rightarrow> Some 0
     | c # r \<Rightarrow> if c = CHR ''e'' \<or> c = CHR ''E'' then
         (case take_sign r of (neg, ds) \<Rightarrow>
           if ds \<noteq> [] \<and> list_all is_digit ds
           then Some (if neg then - int (nat_of_digits ds) else int (nat_of_digits ds)) else None)
       else None)"

definition dec_groups :: "string \<Rightarrow> (bool \<times> string \<times> string \<times> int) option" where
  "dec_groups s =
    (case take_sign s of (neg, r) \<Rightarrow>
      let whole = takeWhile is_digit r; r1 = dropWhile is_digit r;
          fr = (case r1 of c # r2 \<Rightarrow> if c = CHR ''.'' then takeWhile is_digit r2 else [] | [] \<Rightarrow> []);
          r3 = (case r1 of c # r2 \<Rightarrow> if c = CHR ''.'' then dropWhile is_digit r2 else r1 | [] \<Rightarrow> [])
      in map_option (\<lambda>e. (neg, whole, fr, e)) (exponent_of r3))"

definition dec_parse :: "string \<Rightarrow> scaled result" where
  "dec_parse v =
    (let s = trim v in
     case dec_groups s of
       None \<Rightarrow> Inl (JsError ''decimal: cannot parse'' [s])
     | Some (neg, whole, fr, e) \<Rightarrow>
         if whole = [] \<and> fr = [] then Inl (JsError ''decimal: cannot parse'' [s])
         else
           let i = int (nat_of_digits ((if whole = [] then ''0'' else whole) @ fr));
               i = (if neg then - i else i);
               sc = int (length fr) - e
           in if sc < 0 then Inr \<lparr>sc_int = i * pow10 (nat (- sc)), sc_scale = 0\<rparr>
              else Inr \<lparr>sc_int = i, sc_scale = nat sc\<rparr>)"

subsection \<open>Printing\<close>

definition strip_zeros :: "string \<Rightarrow> string" where
  "strip_zeros s = rev (dropWhile (\<lambda>c. c = CHR ''0'') (rev s))"

definition zero_text :: "string \<Rightarrow> bool" where
  "zero_text s \<longleftrightarrow> s = ''0'' \<or> (take 2 s = ''0.'' \<and> list_all (\<lambda>c. c = CHR ''0'') (drop 2 s))"

definition ZERO :: string where
  "ZERO = ''0''"

definition ONE :: string where
  "ONE = ''1''"

definition dec_to_string :: "scaled \<Rightarrow> string" where
  "dec_to_string x =
    (let neg = sc_int x < 0;
         digits = show_nat (nat (if neg then - sc_int x else sc_int x));
         digits = (if 0 < sc_scale x then
             (let p = pad_start (sc_scale x + 1) (CHR ''0'') digits;
                  cut = length p - sc_scale x;
                  fr = strip_zeros (drop cut p);
                  whole = take cut p
              in if 0 < length fr then whole @ ''.'' @ fr else whole)
           else digits)
     in if zero_text digits then ZERO else if neg then CHR ''-'' # digits else digits)"

subsection \<open>Operations\<close>

definition align :: "scaled \<Rightarrow> scaled \<Rightarrow> int \<times> int \<times> nat" where
  "align a b =
    (if sc_scale a = sc_scale b then (sc_int a, sc_int b, sc_scale a)
     else if sc_scale b < sc_scale a
       then (sc_int a, sc_int b * pow10 (sc_scale a - sc_scale b), sc_scale a)
     else (sc_int a * pow10 (sc_scale b - sc_scale a), sc_int b, sc_scale b))"

definition roundScaled :: "scaled \<Rightarrow> nat \<Rightarrow> scaled" where
  "roundScaled x places =
    (if sc_scale x \<le> places then x
     else let d = pow10 (sc_scale x - places);
              neg = sc_int x < 0;
              a = (if neg then - sc_int x else sc_int x);
              q = a div d; r = a mod d;
              q = (if d \<le> r * 2 then q + 1 else q)
          in \<lparr>sc_int = (if neg then - q else q), sc_scale = places\<rparr>)"

definition dec :: "string \<Rightarrow> string result" where
  "dec v = ebind (dec_parse v) (\<lambda>x. Inr (dec_to_string x))"

definition dAdd :: "string \<Rightarrow> string \<Rightarrow> string result" where
  "dAdd a b = ebind (dec_parse a) (\<lambda>pa. ebind (dec_parse b) (\<lambda>pb.
    case align pa pb of (x, y, s) \<Rightarrow> Inr (dec_to_string \<lparr>sc_int = x + y, sc_scale = s\<rparr>)))"

definition dSub :: "string \<Rightarrow> string \<Rightarrow> string result" where
  "dSub a b = ebind (dec_parse a) (\<lambda>pa. ebind (dec_parse b) (\<lambda>pb.
    case align pa pb of (x, y, s) \<Rightarrow> Inr (dec_to_string \<lparr>sc_int = x - y, sc_scale = s\<rparr>)))"

definition dMul :: "string \<Rightarrow> string \<Rightarrow> string result" where
  "dMul a b = ebind (dec_parse a) (\<lambda>x. ebind (dec_parse b) (\<lambda>y.
    Inr (dec_to_string \<lparr>sc_int = sc_int x * sc_int y, sc_scale = sc_scale x + sc_scale y\<rparr>)))"

definition dDiv :: "string \<Rightarrow> string \<Rightarrow> string result" where
  "dDiv a b = ebind (dec_parse a) (\<lambda>x. ebind (dec_parse b) (\<lambda>y.
    if sc_int y = 0 then Inl (JsError ''decimal: division by zero'' [])
    else let extra = DIV_SCALE + 1;
             num = sc_int x * pow10 (sc_scale y + extra);
             den = sc_int y * pow10 (sc_scale x);
             neg = ((num < 0) \<noteq> (den < 0));
             q = (if num < 0 then - num else num) div (if den < 0 then - den else den)
         in Inr (dec_to_string (roundScaled \<lparr>sc_int = (if neg then - q else q), sc_scale = extra\<rparr> DIV_SCALE))))"

definition dSum :: "string list \<Rightarrow> string result" where
  "dSum values = efold (\<lambda>v acc. dAdd acc v) values ZERO"

definition dCmp :: "string \<Rightarrow> string \<Rightarrow> int result" where
  "dCmp a b = ebind (dec_parse a) (\<lambda>pa. ebind (dec_parse b) (\<lambda>pb.
    case align pa pb of (x, y, _) \<Rightarrow> Inr (if x < y then -1 else if y < x then 1 else 0)))"

definition dMin :: "string \<Rightarrow> string list \<Rightarrow> string result" where
  "dMin first rest = ebind (dec first) (efold (\<lambda>r m.
    ebind (dCmp r m) (\<lambda>c. if c < 0 then dec r else Inr m)) rest)"

definition dMax :: "string \<Rightarrow> string list \<Rightarrow> string result" where
  "dMax first rest = ebind (dec first) (efold (\<lambda>r m.
    ebind (dCmp r m) (\<lambda>c. if 0 < c then dec r else Inr m)) rest)"

definition dNeg :: "string \<Rightarrow> string result" where
  "dNeg a = ebind (dec_parse a) (\<lambda>x. Inr (dec_to_string \<lparr>sc_int = - sc_int x, sc_scale = sc_scale x\<rparr>))"

definition dAbs :: "string \<Rightarrow> string result" where
  "dAbs a = ebind (dec_parse a) (\<lambda>x. Inr (dec_to_string
     \<lparr>sc_int = (if sc_int x < 0 then - sc_int x else sc_int x), sc_scale = sc_scale x\<rparr>))"

definition dIsNeg :: "string \<Rightarrow> bool result" where
  "dIsNeg a = ebind (dec_parse a) (\<lambda>x. Inr (sc_int x < 0))"

definition dIsZero :: "string \<Rightarrow> bool result" where
  "dIsZero a = ebind (dec_parse a) (\<lambda>x. Inr (sc_int x = 0))"

definition dIsPos :: "string \<Rightarrow> bool result" where
  "dIsPos a = ebind (dec_parse a) (\<lambda>x. Inr (0 < sc_int x))"

definition dFloorZero :: "string \<Rightarrow> string result" where
  "dFloorZero a = ebind (dIsNeg a) (\<lambda>n. if n then Inr ZERO else dec a)"

definition dClamp :: "string \<Rightarrow> string \<Rightarrow> string \<Rightarrow> string result" where
  "dClamp a lo hi = ebind (dMax a [lo]) (\<lambda>m. dMin m [hi])"

definition dRound :: "string \<Rightarrow> nat \<Rightarrow> string result" where
  "dRound a places = ebind (dec_parse a) (\<lambda>x. Inr (dec_to_string (roundScaled x places)))"

definition dRoundDollars :: "string \<Rightarrow> string result" where
  "dRoundDollars a = dRound a 0"

definition dRoundRate :: "string \<Rightarrow> string result" where
  "dRoundRate a = dRound a RATE_PLACES"

definition percentToFraction :: "string option \<Rightarrow> string result" where
  "percentToFraction pct = (case pct of None \<Rightarrow> Inr ZERO
     | Some p \<Rightarrow> if p = [] then Inr ZERO
        else ebind (dec_parse p) (\<lambda>x. Inr (dec_to_string \<lparr>sc_int = sc_int x, sc_scale = sc_scale x + PERCENT_SCALE\<rparr>)))"


subsection \<open>The rational a representation denotes\<close>

definition sval :: "scaled \<Rightarrow> rat" where
  "sval x = of_int (sc_int x) / 10 ^ sc_scale x"

text \<open>\<open>denotes s q\<close>: the string parses, and its value is \<open>q\<close>.\<close>

definition denotes :: "string \<Rightarrow> rat \<Rightarrow> bool" where
  "denotes s q \<longleftrightarrow> (\<exists>x. dec_parse s = Inr x \<and> sval x = q)"

lemma denotesI: "dec_parse s = Inr x \<Longrightarrow> sval x = q \<Longrightarrow> denotes s q"
  by (auto simp: denotes_def)

lemma denotesE:
  assumes "denotes s q"
  obtains x where "dec_parse s = Inr x" "sval x = q"
  using assms by (auto simp: denotes_def)

lemma denotes_unique: "denotes s p \<Longrightarrow> denotes s q \<Longrightarrow> p = q"
  by (auto simp: denotes_def)

lemma sval_make [simp]: "sval \<lparr>sc_int = i, sc_scale = n\<rparr> = of_int i / 10 ^ n"
  by (simp add: sval_def)

lemma sval_scale_up: "sval \<lparr>sc_int = i * 10 ^ k, sc_scale = n + k\<rparr> = sval \<lparr>sc_int = i, sc_scale = n\<rparr>"
  by (simp add: power_add)

lemma sval_eq_iff:
  "sval x = sval y \<longleftrightarrow> sc_int x * 10 ^ sc_scale y = sc_int y * 10 ^ sc_scale x"
proof -
  have "sval x = sval y \<longleftrightarrow>
    (of_int (sc_int x) * 10 ^ sc_scale y :: rat) = of_int (sc_int y) * 10 ^ sc_scale x"
    by (simp add: sval_def field_simps)
  also have "\<dots> \<longleftrightarrow> (of_int (sc_int x * 10 ^ sc_scale y) :: rat) = of_int (sc_int y * 10 ^ sc_scale x)"
    by simp
  finally show ?thesis by (simp only: of_int_eq_iff)
qed

subsection \<open>Printing depends on the value only\<close>

lemma strip_zeros_snoc0: "strip_zeros (xs @ ''0'') = strip_zeros xs"
  by (simp add: strip_zeros_def)

lemma strip_zeros_split: "\<exists>k. xs = strip_zeros xs @ replicate k (CHR ''0'')"
proof -
  let ?d = "takeWhile (\<lambda>c. c = CHR ''0'') (rev xs)"
  have d: "?d = replicate (length ?d) (CHR ''0'')"
    by (intro replicate_eqI) (auto dest: set_takeWhileD)
  have "xs = rev (?d @ dropWhile (\<lambda>c. c = CHR ''0'') (rev xs))" by simp
  also have "\<dots> = strip_zeros xs @ rev ?d" by (simp only: strip_zeros_def rev_append)
  finally show ?thesis using d by (metis rev_replicate)
qed

lemma strip_zeros_replicate [simp]: "strip_zeros (replicate n (CHR ''0'')) = []"
  by (simp add: strip_zeros_def)

definition magnitude :: "nat \<Rightarrow> nat \<Rightarrow> string" where
  "magnitude n s =
    (if 0 < s then
       (let p = pad_start (s + 1) (CHR ''0'') (show_nat n);
            cut = length p - s;
            fr = strip_zeros (drop cut p);
            whole = take cut p
        in if 0 < length fr then whole @ ''.'' @ fr else whole)
     else show_nat n)"

lemma dec_to_string_magnitude:
  "dec_to_string x =
    (let d = magnitude (nat \<bar>sc_int x\<bar>) (sc_scale x)
     in if zero_text d then ZERO else if sc_int x < 0 then CHR ''-'' # d else d)"
proof -
  have "(if sc_int x < 0 then - sc_int x else sc_int x) = \<bar>sc_int x\<bar>" by simp
  then show ?thesis by (simp only: dec_to_string_def magnitude_def Let_def)
qed

lemma magnitude_0 [simp]: "magnitude 0 s = ''0''"
proof -
  have "pad_start (s + 1) (CHR ''0'') (show_nat 0) = replicate (Suc s) (CHR ''0'')"
    by (simp add: pad_start_def show_nat_01 replicate_append_same)
  then show ?thesis
    by (cases s) (simp_all add: magnitude_def Let_def show_nat_01 strip_zeros_replicate [of "Suc _", simplified])
qed

lemma length_pad_start: "n \<le> length (pad_start n c xs)"
  by (simp add: pad_start_def)

lemma magnitude_shift: "magnitude (10 * n) (Suc s) = magnitude n s"
proof (cases "n = 0")
  case True
  then show ?thesis by simp
next
  case False
  let ?p = "pad_start (s + 1) (CHR ''0'') (show_nat n)"
  have p: "pad_start (Suc s + 1) (CHR ''0'') (show_nat (10 * n)) = ?p @ ''0''"
    using False by (simp add: pad_start_def show_nat_times10)
  have len: "s < length ?p"
    using length_pad_start [of "s + 1" "CHR ''0''" "show_nat n"] by simp
  show ?thesis
  proof (cases "s = 0")
    case True
    then have "?p = show_nat n"
      by (cases "show_nat n") (simp_all add: pad_start_def)
    with True p show ?thesis
      by (simp add: magnitude_def strip_zeros_def)
  next
    case False
    with p len show ?thesis
      by (simp add: magnitude_def Let_def strip_zeros_snoc0)
  qed
qed

lemma magnitude_scale_up: "magnitude (n * 10 ^ k) (s + k) = magnitude n s"
proof (induction k)
  case 0
  show ?case by simp
next
  case (Suc k)
  then show ?case using magnitude_shift [of "n * 10 ^ k" "s + k"] by (simp add: ac_simps)
qed

lemma dec_to_string_scale_up:
  "dec_to_string \<lparr>sc_int = i * 10 ^ k, sc_scale = s + k\<rparr> = dec_to_string \<lparr>sc_int = i, sc_scale = s\<rparr>"
proof -
  have "nat \<bar>i * 10 ^ k\<bar> = nat \<bar>i\<bar> * 10 ^ k"
    by (simp add: abs_mult nat_mult_distrib nat_power_eq)
  moreover have "i * 10 ^ k < 0 \<longleftrightarrow> i < 0"
    by (simp add: mult_less_0_iff)
  ultimately show ?thesis
    by (simp add: dec_to_string_magnitude magnitude_scale_up Let_def)
qed

text \<open>Two representations of one rational print the same string: the output is canonical.\<close>

lemma dec_to_string_canonical:
  assumes "sval x = sval y"
  shows "dec_to_string x = dec_to_string y"
proof -
  obtain i m j n where x: "x = \<lparr>sc_int = i, sc_scale = m\<rparr>" and y: "y = \<lparr>sc_int = j, sc_scale = n\<rparr>"
    by (cases x, cases y) auto
  have "i * 10 ^ n = j * 10 ^ m"
    using assms unfolding sval_eq_iff x y by simp
  then show ?thesis
    using dec_to_string_scale_up [of i n m] dec_to_string_scale_up [of j m n]
    by (simp add: x y add.commute)
qed


subsection \<open>Parsing what was printed\<close>

lemma magnitude_shape:
  obtains W F where "magnitude n s = W @ (if F = [] then [] else ''.'' @ F)"
    "W \<noteq> []" "list_all is_digit W" "list_all is_digit F" "length F \<le> s"
    "nat_of_digits (W @ F) * 10 ^ (s - length F) = n"
proof (cases "s = 0")
  case True
  then show ?thesis
    using that [of "show_nat n" "[]"] by (simp add: magnitude_def show_nat_digits)
next
  case False
  let ?p = "pad_start (s + 1) (CHR ''0'') (show_nat n)"
  let ?cut = "length ?p - s"
  let ?F = "strip_zeros (drop ?cut ?p)"
  have p_digits: "list_all is_digit ?p"
    using show_nat_digits [of n] by (auto simp: pad_start_def list_all_iff is_digit_def)
  have p_val: "nat_of_digits ?p = n"
    by (simp add: pad_start_def nat_of_digits_append)
  have len: "s < length ?p"
    using length_pad_start [of "s + 1" "CHR ''0''" "show_nat n"] by simp
  obtain k where k: "drop ?cut ?p = ?F @ replicate k (CHR ''0'')"
    using strip_zeros_split by blast
  have lenF: "length ?F + k = s"
    using arg_cong [OF k, of length] len by simp
  have "?p = (take ?cut ?p @ ?F) @ replicate k (CHR ''0'')"
    using k by (metis append.assoc append_take_drop_id)
  then have "nat_of_digits ?p = nat_of_digits (take ?cut ?p @ ?F) * 10 ^ k"
    by (metis add_0_right length_replicate nat_of_digits_append nat_of_digits_zeros)
  moreover have "k = s - length ?F" using lenF by simp
  ultimately have "nat_of_digits (take ?cut ?p @ ?F) * 10 ^ (s - length ?F) = n"
    using p_val by simp
  moreover have "list_all is_digit (take ?cut ?p)"
    using p_digits by (metis append_take_drop_id list_all_append)
  moreover have "list_all is_digit ?F"
    using p_digits k by (metis append_take_drop_id list_all_append)
  moreover have "magnitude n s = take ?cut ?p @ (if ?F = [] then [] else ''.'' @ ?F)"
    using False by (simp add: magnitude_def Let_def)
  moreover have "take ?cut ?p \<noteq> []" using len by auto
  moreover have "length ?F \<le> s" using lenF by simp
  ultimately show ?thesis by (intro that)
qed

lemma not_digit [simp]:
  "\<not> is_digit (CHR ''.'')" "\<not> is_digit (CHR ''+'')" "\<not> is_digit (CHR ''-'')" "is_digit (CHR ''0'')"
  by (simp_all add: is_digit_def)

lemma digit_not_space: "is_digit c \<Longrightarrow> \<not> is_space c"
  by (auto simp: is_digit_def is_space_def)

lemma trim_id: "s \<noteq> [] \<Longrightarrow> \<not> is_space (hd s) \<Longrightarrow> \<not> is_space (last s) \<Longrightarrow> trim s = s"
proof -
  assume s: "s \<noteq> []" "\<not> is_space (hd s)" "\<not> is_space (last s)"
  have "dropWhile is_space s = s" using s by (cases s) simp_all
  moreover have "dropWhile is_space (rev s) = rev s"
    using s by (cases "rev s") (simp_all add: last_rev hd_rev flip: hd_rev)
  ultimately show "trim s = s" by (simp add: trim_def)
qed

lemma dec_groups_plain:
  assumes "W \<noteq> []" "list_all is_digit W" "list_all is_digit F"
  shows "dec_groups ((if neg then ''-'' else []) @ W @ (if F = [] then [] else ''.'' @ F)) = Some (neg, W, F, 0)"
proof -
  obtain w ws where W: "W = w # ws" using assms(1) by (cases W) auto
  have w: "w \<noteq> CHR ''+''" "w \<noteq> CHR ''-''" using assms(2) W by auto
  have t: "takeWhile is_digit (W @ CHR ''.'' # F) = W" "dropWhile is_digit (W @ CHR ''.'' # F) = CHR ''.'' # F"
    "takeWhile is_digit W = W" "dropWhile is_digit W = []"
    "takeWhile is_digit F = F" "dropWhile is_digit F = []"
    using assms(2,3) by (simp_all add: takeWhile_append dropWhile_append list_all_iff takeWhile_eq_all_conv dropWhile_eq_Nil_conv)
  have sign: "take_sign ((if neg then ''-'' else []) @ W @ X) = (neg, W @ X)" for X
    using w by (simp add: take_sign_def W)
  show ?thesis
    by (simp add: dec_groups_def sign t Let_def exponent_of_def)
qed

lemma dec_parse_plain:
  assumes "W \<noteq> []" "list_all is_digit W" "list_all is_digit F"
  shows "dec_parse ((if neg then ''-'' else []) @ W @ (if F = [] then [] else ''.'' @ F)) =
    Inr \<lparr>sc_int = (if neg then - int (nat_of_digits (W @ F)) else int (nat_of_digits (W @ F))),
         sc_scale = length F\<rparr>"
proof -
  let ?T = "(if neg then ''-'' else []) @ W @ (if F = [] then [] else ''.'' @ F)"
  have "is_digit (last ?T)"
    using assms by (auto simp: list_all_iff)
  moreover have "\<not> is_space (hd ?T)"
    using assms digit_not_space by (cases W) (auto simp: is_space_def [of "CHR ''-''"])
  ultimately have "trim ?T = ?T"
    using assms(1) by (intro trim_id) (auto simp: digit_not_space)
  then show ?thesis
    by (simp add: dec_parse_def dec_groups_plain [OF assms] assms(1) Let_def split del: if_split)
qed

lemma zero_text_magnitude: "zero_text (magnitude n s) \<longleftrightarrow> n = 0"
proof
  assume "n = 0"
  then show "zero_text (magnitude n s)" by (simp add: zero_text_def)
next
  assume z: "zero_text (magnitude n s)"
  obtain W F where m: "magnitude n s = W @ (if F = [] then [] else ''.'' @ F)"
    and W: "W \<noteq> []" "list_all is_digit W" "list_all is_digit F"
    and v: "nat_of_digits (W @ F) * 10 ^ (s - length F) = n"
    using magnitude_shape by metis
  obtain w ws where W': "W = w # ws" using W(1) by (cases W) auto
  have "W = ''0'' \<and> list_all (\<lambda>c. c = CHR ''0'') F"
    using z W(2) by (cases ws) (auto simp: zero_text_def m W' split: if_splits)
  then have "W @ F = replicate (Suc (length F)) (CHR ''0'')"
    by (auto simp: list_all_iff intro: replicate_eqI)
  then have "nat_of_digits (W @ F) = 0" by (simp only: nat_of_digits_zeros)
  with v show "n = 0" by simp
qed

text \<open>Printing and parsing again gives a representation of the same rational.\<close>

lemma denotes_dec_to_string [simp, val_simps]: "denotes (dec_to_string x) (sval x)"
proof -
  let ?n = "nat \<bar>sc_int x\<bar>"
  show ?thesis
  proof (cases "sc_int x = 0")
    case True
    have "dec_parse ''0'' = Inr \<lparr>sc_int = 0, sc_scale = 0\<rparr>"
      using dec_parse_plain [of "''0''" "[]" False] by simp
    with True show ?thesis
      by (simp add: dec_to_string_magnitude zero_text_def ZERO_def sval_def denotes_def)
  next
    case False
    obtain W F where m: "magnitude ?n (sc_scale x) = W @ (if F = [] then [] else ''.'' @ F)"
      and W: "W \<noteq> []" "list_all is_digit W" "list_all is_digit F" and F: "length F \<le> sc_scale x"
      and v: "nat_of_digits (W @ F) * 10 ^ (sc_scale x - length F) = ?n"
      using magnitude_shape by metis
    have str: "dec_to_string x = (if sc_int x < 0 then ''-'' else []) @ W @ (if F = [] then [] else ''.'' @ F)"
      using False unfolding dec_to_string_magnitude Let_def zero_text_magnitude m [symmetric] by auto
    let ?i = "int (nat_of_digits (W @ F))"
    have e: "?i * 10 ^ (sc_scale x - length F) = \<bar>sc_int x\<bar>"
      using arg_cong [OF v, of int] by simp
    have "sval \<lparr>sc_int = (if sc_int x < 0 then - ?i else ?i), sc_scale = length F\<rparr> = sval x"
      unfolding sval_eq_iff
    proof -
      have "(10::int) ^ sc_scale x = 10 ^ (sc_scale x - length F) * 10 ^ length F"
        using F by (simp flip: power_add)
      then show "sc_int \<lparr>sc_int = (if sc_int x < 0 then - ?i else ?i), sc_scale = length F\<rparr> * 10 ^ sc_scale x =
          sc_int x * 10 ^ sc_scale \<lparr>sc_int = (if sc_int x < 0 then - ?i else ?i), sc_scale = length F\<rparr>"
        using e by (auto simp: mult.assoc [symmetric] abs_if split: if_splits)
    qed
    with dec_parse_plain [OF W, of "sc_int x < 0"] show ?thesis
      unfolding str by (rule denotesI)
  qed
qed


subsection \<open>What every operation computes\<close>

text \<open>The call returns, and its result denotes \<open>q\<close> and is the canonical string of \<open>q\<close>.\<close>

definition gives :: "string result \<Rightarrow> rat \<Rightarrow> bool" where
  "gives m q \<longleftrightarrow> (\<exists>x. m = Inr (dec_to_string x) \<and> sval x = q)"

lemma givesI: "m = Inr (dec_to_string x) \<Longrightarrow> sval x = q \<Longrightarrow> gives m q"
  by (auto simp: gives_def)

lemma gives_canonical: "gives m q \<Longrightarrow> gives m' q \<Longrightarrow> m = m'"
  by (auto simp: gives_def dest: dec_to_string_canonical)

lemma gives_denotes: "gives m q \<Longrightarrow> \<exists>c. m = Inr c \<and> denotes c q"
  by (auto simp: gives_def)

lemma gives_Inr_ZERO: "gives (Inr ZERO) 0"
  by (rule givesI [of _ "\<lparr>sc_int = 0, sc_scale = 0\<rparr>"])
    (simp_all add: dec_to_string_magnitude zero_text_def Let_def)

lemma denotes_ZERO [val_simps]: "denotes ZERO 0"
  using gives_denotes [OF gives_Inr_ZERO] by simp

lemma align_values:
  assumes "align x y = (i, j, s)"
  shows "of_int i / 10 ^ s = sval x" "of_int j / 10 ^ s = sval y"
proof -
  consider (eq) "sc_scale x = sc_scale y"
    | (gt) k where "sc_scale x = sc_scale y + k" "0 < k"
    | (lt) k where "sc_scale y = sc_scale x + k" "0 < k"
    by (metis less_imp_add_positive linorder_neqE_nat)
  then have "of_int i / 10 ^ s = sval x \<and> of_int j / 10 ^ s = sval y"
  proof cases
    case eq
    with assms show ?thesis by (auto simp: align_def sval_def)
  next
    case gt
    then have "sc_scale x - sc_scale y = k" "sc_scale y < sc_scale x" "sc_scale x \<noteq> sc_scale y" by simp_all
    with assms have "i = sc_int x" "j = sc_int y * 10 ^ k" "s = sc_scale x"
      by (auto simp: align_def pow10_eq)
    then show ?thesis by (simp add: sval_def gt(1) power_add)
  next
    case lt
    then have "sc_scale y - sc_scale x = k" "\<not> sc_scale y < sc_scale x" "sc_scale x \<noteq> sc_scale y" by simp_all
    with assms have "i = sc_int x * 10 ^ k" "j = sc_int y" "s = sc_scale y"
      by (auto simp: align_def pow10_eq)
    then show ?thesis by (simp add: sval_def lt(1) power_add)
  qed
  then show "of_int i / 10 ^ s = sval x" "of_int j / 10 ^ s = sval y" by simp_all
qed

lemma dec_gives: "denotes a x \<Longrightarrow> gives (dec a) x"
  by (auto simp: dec_def gives_def elim!: denotesE)

lemma dAdd_gives:
  assumes "denotes a x" "denotes b y"
  shows "gives (dAdd a b) (x + y)"
proof -
  obtain p q where p: "dec_parse a = Inr p" "sval p = x" and q: "dec_parse b = Inr q" "sval q = y"
    using assms by (auto elim!: denotesE)
  obtain i j s where al: "align p q = (i, j, s)" by (cases "align p q") auto
  show ?thesis
    by (rule givesI [of _ "\<lparr>sc_int = i + j, sc_scale = s\<rparr>"])
      (use p q al in \<open>simp_all add: dAdd_def add_divide_distrib align_values [OF al]\<close>)
qed

lemma dSub_gives:
  assumes "denotes a x" "denotes b y"
  shows "gives (dSub a b) (x - y)"
proof -
  obtain p q where p: "dec_parse a = Inr p" "sval p = x" and q: "dec_parse b = Inr q" "sval q = y"
    using assms by (auto elim!: denotesE)
  obtain i j s where al: "align p q = (i, j, s)" by (cases "align p q") auto
  show ?thesis
    by (rule givesI [of _ "\<lparr>sc_int = i - j, sc_scale = s\<rparr>"])
      (use p q al in \<open>simp_all add: dSub_def diff_divide_distrib align_values [OF al]\<close>)
qed

lemma dMul_gives:
  assumes "denotes a x" "denotes b y"
  shows "gives (dMul a b) (x * y)"
proof -
  obtain p q where p: "dec_parse a = Inr p" "sval p = x" and q: "dec_parse b = Inr q" "sval q = y"
    using assms by (auto elim!: denotesE)
  show ?thesis
    by (rule givesI [of _ "\<lparr>sc_int = sc_int p * sc_int q, sc_scale = sc_scale p + sc_scale q\<rparr>"])
      (use p q in \<open>auto simp: dMul_def sval_def power_add\<close>)
qed

lemma dCmp_value:
  assumes "denotes a x" "denotes b y"
  shows "dCmp a b = Inr (if x < y then -1 else if y < x then 1 else 0)"
proof -
  obtain p q where p: "dec_parse a = Inr p" "sval p = x" and q: "dec_parse b = Inr q" "sval q = y"
    using assms by (auto elim!: denotesE)
  obtain i j s where al: "align p q = (i, j, s)" by (cases "align p q") auto
  have pos: "(0::rat) < 10 ^ s" by simp
  have "i < j \<longleftrightarrow> x < y" "j < i \<longleftrightarrow> y < x"
    using align_values [OF al] p(2) q(2) pos by (auto simp: divide_less_cancel simp flip: align_values)
  with p q al show ?thesis by (simp add: dCmp_def)
qed

lemma sval_roundScaled [val_simps]: "sval (roundScaled x p) = rnd p (sval x)"
proof (cases "sc_scale x \<le> p")
  case True
  have "(10::rat) ^ p = 10 ^ (p - sc_scale x) * 10 ^ sc_scale x"
    using True by (simp flip: power_add)
  then have "sval x * 10 ^ p = of_int (sc_int x * 10 ^ (p - sc_scale x))"
    by (simp add: sval_def)
  then have "rnd p (sval x) = sval x" by (rule rnd_of_decimal)
  with True show ?thesis by (simp add: roundScaled_def)
next
  case False
  define d where "d = (10::int) ^ (sc_scale x - p)"
  have d: "0 < d" by (simp add: d_def)
  have "(10::rat) ^ sc_scale x = of_int d * 10 ^ p"
    using False by (simp add: d_def flip: power_add)
  then have "\<bar>sval x\<bar> * 10 ^ p = of_int \<bar>sc_int x\<bar> / of_int d"
    using d by (simp add: sval_def abs_divide abs_mult)
  then have fl: "\<lfloor>\<bar>sval x\<bar> * 10 ^ p + 1 / 2\<rfloor> =
      \<bar>sc_int x\<bar> div d + (if d \<le> 2 * (\<bar>sc_int x\<bar> mod d) then 1 else 0)"
    by (simp only: floor_half_div [OF d])
  have sg: "sgn (sval x) = of_int (sgn (sc_int x))"
    by (simp add: sval_def sgn_if zero_less_divide_iff)
  have "sc_int (roundScaled x p) = sgn (sc_int x) * \<lfloor>\<bar>sval x\<bar> * 10 ^ p + 1 / 2\<rfloor>"
    using False d
    by (cases "sc_int x = 0") (auto simp: roundScaled_def Let_def pow10_eq d_def [symmetric] fl mult.commute sgn_if)
  moreover have "sc_scale (roundScaled x p) = p"
    using False by (simp add: roundScaled_def Let_def)
  ultimately show ?thesis by (simp add: sval_def [of "roundScaled x p"] rnd_def sg)
qed

lemma dRound_gives: "denotes a x \<Longrightarrow> gives (dRound a p) (rnd p x)"
  by (auto simp: dRound_def gives_def sval_roundScaled elim!: denotesE)

text \<open>Division keeps one digit more than it returns; rounding that digit off rounds the quotient.\<close>

lemma floor_of_floor_div:
  fixes z :: rat and n :: int
  assumes "0 < n"
  shows "\<lfloor>z / of_int n\<rfloor> = \<lfloor>z\<rfloor> div n"
proof (rule floor_unique)
  have "\<lfloor>z\<rfloor> = \<lfloor>z\<rfloor> div n * n + \<lfloor>z\<rfloor> mod n" by simp
  moreover have "0 \<le> \<lfloor>z\<rfloor> mod n" "\<lfloor>z\<rfloor> mod n < n" using assms by simp_all
  moreover have "(\<lfloor>z\<rfloor> div n + 1) * n = \<lfloor>z\<rfloor> div n * n + n" by (simp add: algebra_simps)
  ultimately have m: "\<lfloor>z\<rfloor> div n * n \<le> \<lfloor>z\<rfloor>" "\<lfloor>z\<rfloor> < (\<lfloor>z\<rfloor> div n + 1) * n"
    by linarith+
  have "of_int (\<lfloor>z\<rfloor> div n * n) \<le> z" using m(1) by (simp add: le_floor_iff)
  then show "of_int (\<lfloor>z\<rfloor> div n) \<le> z / of_int n" using assms by (simp add: pos_le_divide_eq)
  have "z < of_int ((\<lfloor>z\<rfloor> div n + 1) * n)" using m(2) by (simp add: floor_less_iff)
  then show "z / of_int n < of_int (\<lfloor>z\<rfloor> div n) + 1" using assms by (simp add: pos_divide_less_eq)
qed

lemma rnd_of_trunc:
  assumes "0 \<le> z"
  shows "rnd p (of_int \<lfloor>z * 10 ^ Suc p\<rfloor> / 10 ^ Suc p) = rnd p z"
proof -
  let ?t = "\<lfloor>z * 10 ^ Suc p\<rfloor>"
  have t: "0 \<le> ?t" using assms by simp
  have "\<lfloor>of_int ?t / 10 ^ Suc p * 10 ^ p + 1 / 2 :: rat\<rfloor> = \<lfloor>of_int (?t + 5) / of_int 10 :: rat\<rfloor>"
    by (simp add: field_simps)
  also have "\<dots> = (?t + 5) div 10" by (simp only: floor_of_floor_div floor_of_int) 
  also have "\<dots> = \<lfloor>z * 10 ^ Suc p + 5\<rfloor> div 10"
    by (simp add: floor_add_int [symmetric, of _ 5, simplified])
  also have "\<dots> = \<lfloor>(z * 10 ^ Suc p + 5) / of_int 10\<rfloor>" by (simp only: floor_of_floor_div)
  also have "(z * 10 ^ Suc p + 5) / of_int 10 = z * 10 ^ p + 1 / 2" by (simp add: add_divide_distrib)
  finally have fl: "\<lfloor>of_int ?t / 10 ^ Suc p * 10 ^ p + 1 / 2 :: rat\<rfloor> = \<lfloor>z * 10 ^ p + 1 / 2\<rfloor>" .
  show ?thesis
  proof (cases "?t = 0")
    case True
    then have "\<lfloor>z * 10 ^ p + 1 / 2\<rfloor> = 0" using fl by (simp add: floor_unique)
    with True show ?thesis by (simp add: rnd_def assms)
  next
    case False
    with t have "0 < ?t" by linarith
    then have "0 < z" using assms by (cases "z = 0") auto
    with \<open>0 < ?t\<close> fl show ?thesis by (simp add: rnd_def)
  qed
qed


lemma dDiv_gives:
  assumes "denotes a x" "denotes b y" "y \<noteq> 0"
  shows "gives (dDiv a b) (rnd 12 (x / y))"
proof -
  obtain p q where p: "dec_parse a = Inr p" "sval p = x" and q: "dec_parse b = Inr q" "sval q = y"
    using assms(1,2) by (auto elim!: denotesE)
  define num where "num = sc_int p * 10 ^ (sc_scale q + 13)"
  define den where "den = sc_int q * 10 ^ sc_scale p"
  define t where "t = \<bar>num\<bar> div \<bar>den\<bar>"
  define neg where "neg = ((num < 0) \<noteq> (den < 0))"
  have q0: "sc_int q \<noteq> 0" using q(2) assms(3) by (auto simp: sval_def)
  then have den0: "den \<noteq> 0" by (simp add: den_def)
  have quot: "(of_int num / of_int den :: rat) = x / y * 10 ^ 13"
    using q0 by (simp add: num_def den_def p(2) [symmetric] q(2) [symmetric] sval_def power_add field_simps)
  have ab: "(of_int \<bar>num\<bar> / of_int \<bar>den\<bar> :: rat) = \<bar>x / y\<bar> * 10 ^ 13"
    using arg_cong [OF quot, of abs] by (simp only: of_int_abs abs_divide abs_mult) simp
  have t: "t = \<lfloor>\<bar>x / y\<bar> * 10 ^ Suc 12\<rfloor>"
  proof -
    have "t = \<lfloor>(of_int \<bar>num\<bar> / of_int \<bar>den\<bar> :: rat)\<rfloor>"
      unfolding t_def by (rule floor_divide_of_int_eq [symmetric])
    also have "\<dots> = \<lfloor>\<bar>x / y\<bar> * 10 ^ Suc 12\<rfloor>" unfolding ab by simp
    finally show ?thesis .
  qed
  let ?s = "\<lparr>sc_int = (if neg then - t else t), sc_scale = 13\<rparr>"
  have div: "dDiv a b = Inr (dec_to_string (roundScaled ?s 12))"
    using p(1) q(1) q0
    by (simp add: dDiv_def DIV_SCALE_def pow10_eq num_def [symmetric] den_def [symmetric] neg_def t_def
        abs_if Let_def)
  have sg: "neg \<longleftrightarrow> x / y < 0" if "num \<noteq> 0"
  proof -
    have "(of_int num / of_int den :: rat) < 0 \<longleftrightarrow> neg"
      using that den0 by (auto simp: neg_def divide_less_0_iff)
    moreover have "x / y * 10 ^ 13 < 0 \<longleftrightarrow> x / y < 0" by (simp only: mult_less_0_iff) simp
    ultimately show ?thesis using quot by simp
  qed
  have "sval (roundScaled ?s 12) = rnd 12 (x / y)"
  proof (cases "num = 0")
    case True
    then have "x / y = 0" using quot den0 by simp
    then have "rnd 12 (x / y) = 0" by (simp only: rnd_0)
    with True show ?thesis by (simp add: sval_roundScaled t_def)
  next
    case False
    have r: "rnd 12 (of_int t / 10 ^ 13) = rnd 12 \<bar>x / y\<bar>"
      using rnd_of_trunc [of "\<bar>x / y\<bar>" 12] t by simp
    show ?thesis
    proof (cases neg)
      case True
      with sg [OF False] have "\<bar>x / y\<bar> = - (x / y)" by (simp only: abs_if if_True)
      with True r show ?thesis by (simp add: sval_roundScaled rnd_minus)
    next
      case neg: False
      with sg [OF False] have "\<bar>x / y\<bar> = x / y" by (simp only: abs_if if_False)
      with neg r show ?thesis by (simp add: sval_roundScaled)
    qed
  qed
  with div show ?thesis by (rule givesI)
qed

lemma dDiv_zero: "denotes a x \<Longrightarrow> denotes b 0 \<Longrightarrow> dDiv a b = Inl (JsError ''decimal: division by zero'' [])"
  by (auto simp: dDiv_def sval_def elim!: denotesE)

lemma dIsNeg_value: "denotes a x \<Longrightarrow> dIsNeg a = Inr (x < 0)"
  by (auto simp: dIsNeg_def sval_def divide_less_0_iff elim!: denotesE)

lemma dIsZero_value: "denotes a x \<Longrightarrow> dIsZero a = Inr (x = 0)"
  by (auto simp: dIsZero_def sval_def elim!: denotesE)

lemma dIsPos_value: "denotes a x \<Longrightarrow> dIsPos a = Inr (0 < x)"
  by (auto simp: dIsPos_def sval_def zero_less_divide_iff elim!: denotesE)

lemma dNeg_gives: "denotes a x \<Longrightarrow> gives (dNeg a) (- x)"
  by (auto simp: dNeg_def sval_def elim!: denotesE intro!: givesI [OF refl])

lemma dAbs_gives: "denotes a x \<Longrightarrow> gives (dAbs a) \<bar>x\<bar>"
  by (auto simp: dAbs_def sval_def abs_divide elim!: denotesE intro!: givesI [OF refl])

lemma dFloorZero_gives: "denotes a x \<Longrightarrow> gives (dFloorZero a) (max 0 x)"
  using dec_gives gives_Inr_ZERO by (auto simp: dFloorZero_def dIsNeg_value max_def)

lemma percentToFraction_gives: "denotes p x \<Longrightarrow> p \<noteq> [] \<Longrightarrow> gives (percentToFraction (Some p)) (x / 100)"
  by (auto simp: percentToFraction_def PERCENT_SCALE_def sval_def elim!: denotesE intro!: givesI [OF refl])


subsection \<open>The interface\<close>

text \<open>
  What the engine relies on: each operation returns on operands that denote a rational, and its
  result denotes the rational operation.  \<open>div\<close> and \<open>round\<close> round half away from zero, at 12 and at
  the given number of places.
\<close>

locale decimal_arith =
  fixes den :: "'d \<Rightarrow> rat \<Rightarrow> bool"
    and zero :: "'d"
    and norm :: "'d \<Rightarrow> 'd result"
    and add :: "'d \<Rightarrow> 'd \<Rightarrow> 'd result"
    and sub :: "'d \<Rightarrow> 'd \<Rightarrow> 'd result"
    and mul :: "'d \<Rightarrow> 'd \<Rightarrow> 'd result"
    and quo :: "'d \<Rightarrow> 'd \<Rightarrow> 'd result"
    and cmp :: "'d \<Rightarrow> 'd \<Rightarrow> int result"
    and round_at :: "'d \<Rightarrow> nat \<Rightarrow> 'd result"
  assumes den_unique: "den a x \<Longrightarrow> den a y \<Longrightarrow> x = y"
    and den_zero: "den zero 0"
    and den_norm: "den a x \<Longrightarrow> \<exists>c. norm a = Inr c \<and> den c x"
    and den_add: "den a x \<Longrightarrow> den b y \<Longrightarrow> \<exists>c. add a b = Inr c \<and> den c (x + y)"
    and den_sub: "den a x \<Longrightarrow> den b y \<Longrightarrow> \<exists>c. sub a b = Inr c \<and> den c (x - y)"
    and den_mul: "den a x \<Longrightarrow> den b y \<Longrightarrow> \<exists>c. mul a b = Inr c \<and> den c (x * y)"
    and den_quo: "den a x \<Longrightarrow> den b y \<Longrightarrow> y \<noteq> 0 \<Longrightarrow> \<exists>c. quo a b = Inr c \<and> den c (rnd 12 (x / y))"
    and cmp_value: "den a x \<Longrightarrow> den b y \<Longrightarrow> cmp a b = Inr (if x < y then -1 else if y < x then 1 else 0)"
    and den_round: "den a x \<Longrightarrow> \<exists>c. round_at a p = Inr c \<and> den c (rnd p x)"
begin

lemma sum_denotes_acc:
  assumes "list_all2 den ds xs" "den acc a"
  shows "\<exists>c. efold (\<lambda>v acc. add acc v) ds acc = Inr c \<and> den c (a + sum_list xs)"
  using assms
proof (induction ds xs arbitrary: acc a rule: list_all2_induct)
  case Nil
  then show ?case by simp
next
  case (Cons d ds x xs)
  from den_add [OF Cons.prems Cons.hyps(1)] obtain c where "add acc d = Inr c" "den c (a + x)" by auto
  with Cons.IH show ?case by (fastforce simp: add.assoc)
qed

lemma sum_denotes:
  "list_all2 den ds xs \<Longrightarrow> \<exists>c. efold (\<lambda>v acc. add acc v) ds zero = Inr c \<and> den c (sum_list xs)"
  using sum_denotes_acc [OF _ den_zero] by fastforce

lemma min_denotes:
  assumes "list_all2 den ds xs" "den m a"
  shows "\<exists>c. efold (\<lambda>r m. ebind (cmp r m) (\<lambda>c. if c < 0 then norm r else Inr m)) ds m = Inr c \<and>
    den c (fold min xs a)"
  using assms
proof (induction ds xs arbitrary: m a rule: list_all2_induct)
  case Nil
  then show ?case by simp
next
  case (Cons d ds x xs)
  show ?case
  proof (cases "x < a")
    case True
    with den_norm [OF Cons.hyps(1)] obtain c where c: "norm d = Inr c" "den c (min x a)"
      by (auto simp: min_def)
    then show ?thesis
      using True cmp_value [OF Cons.hyps(1) Cons.prems] Cons.IH [OF c(2)] by simp
  next
    case False
    then have "den m (min x a)" using Cons.prems by (simp add: min_def)
    then show ?thesis
      using False cmp_value [OF Cons.hyps(1) Cons.prems] Cons.IH [of m "min x a"] by simp
  qed
qed

lemma max_denotes:
  assumes "list_all2 den ds xs" "den m a"
  shows "\<exists>c. efold (\<lambda>r m. ebind (cmp r m) (\<lambda>c. if 0 < c then norm r else Inr m)) ds m = Inr c \<and>
    den c (fold max xs a)"
  using assms
proof (induction ds xs arbitrary: m a rule: list_all2_induct)
  case Nil
  then show ?case by simp
next
  case (Cons d ds x xs)
  show ?case
  proof (cases "a < x")
    case True
    with den_norm [OF Cons.hyps(1)] obtain c where c: "norm d = Inr c" "den c (max x a)"
      by (auto simp: max_def)
    then show ?thesis
      using True cmp_value [OF Cons.hyps(1) Cons.prems] Cons.IH [OF c(2)] by simp
  next
    case False
    then have "den m (max x a)" using Cons.prems by (simp add: max_def)
    then show ?thesis
      using False cmp_value [OF Cons.hyps(1) Cons.prems] Cons.IH [of m "max x a"] by simp
  qed
qed

end

interpretation dstr: decimal_arith denotes ZERO dec dAdd dSub dMul dDiv dCmp dRound
  by unfold_locales
    (use denotes_unique denotes_ZERO dCmp_value in
      \<open>blast intro: gives_denotes dec_gives dAdd_gives dSub_gives dMul_gives dDiv_gives dRound_gives\<close>)+

subsection \<open>Properties\<close>

lemma efold_dAdd_gives:
  assumes "list_all2 denotes ds xs" "gives (Inr acc) a"
  shows "gives (efold (\<lambda>v acc. dAdd acc v) ds acc) (a + sum_list xs)"
  using assms
proof (induction ds xs arbitrary: acc a rule: list_all2_induct)
  case Nil
  then show ?case by simp
next
  case (Cons d ds x xs)
  have "denotes acc a" using gives_denotes [OF Cons.prems] by auto
  then have g: "gives (dAdd acc d) (a + x)" using Cons.hyps(1) by (rule dAdd_gives)
  then obtain c where c: "dAdd acc d = Inr c" by (auto simp: gives_def)
  with g Cons.IH [of c "a + x"] show ?case by (simp add: add.assoc)
qed

lemma dSum_gives: "list_all2 denotes ds xs \<Longrightarrow> gives (dSum ds) (sum_list xs)"
  using efold_dAdd_gives [OF _ gives_Inr_ZERO] by (fastforce simp: dSum_def)

lemma dMin_denotes:
  "denotes a x \<Longrightarrow> list_all2 denotes ds xs \<Longrightarrow> \<exists>c. dMin a ds = Inr c \<and> denotes c (fold min xs x)"
  using dstr.min_denotes dstr.den_norm by (fastforce simp: dMin_def)

lemma dMax_denotes:
  "denotes a x \<Longrightarrow> list_all2 denotes ds xs \<Longrightarrow> \<exists>c. dMax a ds = Inr c \<and> denotes c (fold max xs x)"
  using dstr.max_denotes dstr.den_norm by (fastforce simp: dMax_def)

text \<open>
  A printed text is the text of some representation.  Every operation that returns a decimal
  returns a printed one, whatever its operands.
\<close>

definition printed :: "string \<Rightarrow> bool" where
  "printed c \<longleftrightarrow> (\<exists>x. c = dec_to_string x)"

lemma printed_dec_to_string [simp]: "printed (dec_to_string x)"
  by (auto simp: printed_def)

lemma printed_ZERO [simp]: "printed ZERO"
  using gives_Inr_ZERO by (auto simp: gives_def printed_def)

lemma printed_gives: "printed c \<Longrightarrow> \<exists>x. denotes c x \<and> gives (Inr c) x"
  unfolding printed_def gives_def using denotes_dec_to_string by blast

lemma parsed_printed:
  "dec a = Inr c \<Longrightarrow> printed c" "dAdd a b = Inr c \<Longrightarrow> printed c" "dSub a b = Inr c \<Longrightarrow> printed c"
  "dMul a b = Inr c \<Longrightarrow> printed c" "dDiv a b = Inr c \<Longrightarrow> printed c" "dNeg a = Inr c \<Longrightarrow> printed c"
  "dAbs a = Inr c \<Longrightarrow> printed c" "dRound a p = Inr c \<Longrightarrow> printed c"
  by (auto simp: dec_def dAdd_def dSub_def dMul_def dDiv_def dNeg_def dAbs_def dRound_def Let_def
      split_beta ebind_Inr_iff split: if_splits)

lemma efold_printed:
  assumes "efold f ds m = Inr c" "printed m" "\<And>d m c. f d m = Inr c \<Longrightarrow> printed m \<Longrightarrow> printed c"
  shows "printed c"
  using assms by (induction ds arbitrary: m) (auto simp: ebind_Inr_iff)

lemma folded_printed:
  "dSum ds = Inr c \<Longrightarrow> printed c" "dMin a ds = Inr c \<Longrightarrow> printed c" "dMax a ds = Inr c \<Longrightarrow> printed c"
  by (auto simp: dSum_def dMin_def dMax_def ebind_Inr_iff elim!: efold_printed
      intro: parsed_printed split: if_splits)

lemma derived_printed:
  "dFloorZero a = Inr c \<Longrightarrow> printed c" "dClamp a lo hi = Inr c \<Longrightarrow> printed c"
  "dRoundDollars a = Inr c \<Longrightarrow> printed c" "dRoundRate a = Inr c \<Longrightarrow> printed c"
  "percentToFraction q = Inr c \<Longrightarrow> printed c"
  by (auto simp: dFloorZero_def dClamp_def dRoundDollars_def dRoundRate_def percentToFraction_def
      ebind_Inr_iff intro: parsed_printed folded_printed split: if_splits option.splits)

lemmas results_printed = parsed_printed folded_printed derived_printed

text \<open>
  C5: every decimal operation prints a canonical string: whatever its operands, when it returns a
  text, that text denotes a rational and is the one text to which \<open>dec\<close> brings every text of the
  same rational.  So results of different operations that have one value are the same string.
\<close>

theorem dec_canonical:
  assumes "Inr c \<in> {dec a, dAdd a b, dSub a b, dMul a b, dDiv a b, dNeg a, dAbs a, dFloorZero a,
    dClamp a b d, dRound a p, dRoundDollars a, dRoundRate a, percentToFraction q, dSum ds, dMin a ds,
    dMax a ds}"
  shows "\<exists>x. denotes c x \<and> (\<forall>t. denotes t x \<longrightarrow> dec t = Inr c)"
proof -
  have "printed c" using assms by (auto dest!: sym [of "Inr c"] intro: results_printed)
  then obtain x where "denotes c x" "gives (Inr c) x" using printed_gives by blast
  then show ?thesis by (blast dest: dec_gives intro: gives_canonical)
qed

lemma denotes_literals:
  "denotes ''0.10'' (1 / 10)" "denotes ''1e-1'' (1 / 10)" "denotes ''2'' 2" "denotes ''3'' 3"
  by (simp_all add: denotes_def dec_parse_def trim_def is_space_def dec_groups_def take_sign_def
      exponent_of_def is_digit_def digit_val_def nat_of_digits_def Let_def sval_def pow10_eq)

theorem dec_canonical_witness:
  "\<exists>x. denotes ''0.1'' x \<and> (\<forall>t. denotes t x \<longrightarrow> dec t = Inr ''0.1'')"
proof -
  have "dSub ''2.10'' ''2'' = Inr ''0.1''" by code_simp
  then show ?thesis
    by (intro dec_canonical [of _ "''2.10''" "''2''" "''3''" 1 None "[]"]) simp
qed

text \<open>
  C6: addition, subtraction and multiplication are exact at any scale: on strings that parse, the
  result denotes the exact rational sum, difference or product.
\<close>

theorem decimal_ring_exact:
  assumes "denotes a x" "denotes b y"
  shows "(\<exists>c. dAdd a b = Inr c \<and> denotes c (x + y)) \<and> (\<exists>c. dSub a b = Inr c \<and> denotes c (x - y)) \<and>
    (\<exists>c. dMul a b = Inr c \<and> denotes c (x * y))"
  using dstr.den_add [OF assms] dstr.den_sub [OF assms] dstr.den_mul [OF assms] by simp

theorem decimal_ring_exact_witness:
  "(\<exists>c. dAdd ''0.10'' ''3'' = Inr c \<and> denotes c (1 / 10 + 3)) \<and>
   (\<exists>c. dSub ''0.10'' ''3'' = Inr c \<and> denotes c (1 / 10 - 3)) \<and>
   (\<exists>c. dMul ''0.10'' ''3'' = Inr c \<and> denotes c (1 / 10 * 3))"
  by (rule decimal_ring_exact) (rule denotes_literals)+

text \<open>
  C7: division returns the quotient correctly rounded, half away from zero, at 12 places: although the
  code truncates at a thirteenth place first, the result is within half a unit of the twelfth
  place of the exact quotient; a zero divisor throws.
\<close>

theorem dDiv_correctly_rounded:
  assumes "denotes a x" "denotes b y"
  shows "if y = 0 then dDiv a b = Inl (JsError ''decimal: division by zero'' [])
    else (\<exists>c q. dDiv a b = Inr c \<and> denotes c q \<and> q = rnd 12 (x / y) \<and> \<bar>q - x / y\<bar> \<le> 1 / (2 * 10 ^ 12))"
  using assms dDiv_zero [of a x b] dstr.den_quo [OF assms] rnd_bound [of 12 "x / y"] by auto

theorem dDiv_correctly_rounded_witness:
  "if (3::rat) = 0 then dDiv ''2'' ''3'' = Inl (JsError ''decimal: division by zero'' [])
    else (\<exists>c q. dDiv ''2'' ''3'' = Inr c \<and> denotes c q \<and> q = rnd 12 (2 / 3) \<and> \<bar>q - 2 / 3\<bar> \<le> 1 / (2 * 10 ^ 12))"
  by (rule dDiv_correctly_rounded) (rule denotes_literals)+

text \<open>
  The total of a list of amounts does not depend on the order in which they are added: \<open>dSum\<close>
  of any permutation returns the very same string.
\<close>

lemma dSum_permutation:
  assumes "mset ds = mset es" "\<And>d. d \<in> set ds \<Longrightarrow> \<exists>x. denotes d x"
  shows "dSum ds = dSum es \<and> (\<exists>c. dSum ds = Inr c)"
proof -
  define v where "v = (\<lambda>d. THE x. denotes d x)"
  have v: "denotes d (v d)" if "d \<in> set ds" for d
    unfolding v_def using assms(2) [OF that] denotes_unique by (auto intro: theI)
  have "set es = set ds" using assms(1) by (metis set_mset_mset)
  then have "list_all2 denotes ds (map v ds)" "list_all2 denotes es (map v es)"
    using v by (auto simp: list_all2_map2 intro!: list.rel_refl_strong)
  then have g: "gives (dSum ds) (sum_list (map v ds))" "gives (dSum es) (sum_list (map v es))"
    by (simp_all add: dSum_gives)
  have "sum_list (map v ds) = sum_list (map v es)"
    using assms(1) by (metis mset_map sum_mset_sum_list)
  with g have "dSum ds = dSum es" by (metis gives_canonical)
  with g(1) show ?thesis by (auto simp: gives_def)
qed

lemma dSum_permutation_example:
  "dSum [''0.10'', ''3''] = dSum [''3'', ''0.10''] \<and> (\<exists>c. dSum [''0.10'', ''3''] = Inr c)"
  by (rule dSum_permutation) (use denotes_literals in auto)

end
