(* ===== verification/Registry.thy ===== *)
theory Registry
  imports Prelude
begin

section \<open>Federal parameter registry (tax-estimator/parameterKeys.ts)\<close>

text \<open>
  The registry of federal tax parameters: what every key's value must look like, the variants it
  expands into, and how a calendar date is derived for a year.  The display texts of a definition
  (\<open>label\<close>, \<open>group\<close>) are left out.  A stored value is JSON: \<open>json\<close>, with a number as the rational that
  its decimal text denotes (the engine reads a number through \<open>String(n)\<close>), and an object as the
  list of its fields.
\<close>

subsection \<open>Filing statuses and JSON values (tax-estimator/types.ts)\<close>

datatype filing_status = Single | Mfj | Mfs | Hoh | Qss

definition fs_text :: "filing_status \<Rightarrow> string" where
  "fs_text fs = (case fs of Single \<Rightarrow> ''single'' | Mfj \<Rightarrow> ''mfj'' | Mfs \<Rightarrow> ''mfs'' | Hoh \<Rightarrow> ''hoh'' | Qss \<Rightarrow> ''qss'')"

definition FILING_STATUSES :: "filing_status list" where
  "FILING_STATUSES = [Single, Mfj, Mfs, Hoh, Qss]"

datatype json = JNull | JBool bool | JNum rat | JStr string | JArr "json list" | JObj "(string \<times> json) list"

definition jfield :: "string \<Rightarrow> json \<Rightarrow> json option" where
  "jfield k v = (case v of JObj fs \<Rightarrow> map_of fs k | _ \<Rightarrow> None)"

definition is_num :: "json \<Rightarrow> bool" where
  "is_num v = (case v of JNum q \<Rightarrow> True | _ \<Rightarrow> False)"

definition is_nonneg_num :: "json \<Rightarrow> bool" where
  "is_nonneg_num v = (case v of JNum q \<Rightarrow> 0 \<le> q | _ \<Rightarrow> False)"

definition is_integer :: "json \<Rightarrow> bool" where
  "is_integer v = (case v of JNum q \<Rightarrow> of_int \<lfloor>q\<rfloor> = q | _ \<Rightarrow> False)"

text \<open>The regular expressions \<open>^\d{4}-\d{2}-\d{2}$\<close> and \<open>^\d{2}-\d{2}$\<close>.\<close>

definition iso_date_re :: "string \<Rightarrow> bool" where
  "iso_date_re s \<longleftrightarrow> length s = 10 \<and> s ! 4 = CHR ''-'' \<and> s ! 7 = CHR ''-'' \<and>
     list_all is_digit (take 4 s) \<and> list_all is_digit (take 2 (drop 5 s)) \<and> list_all is_digit (drop 8 s)"

definition month_day_re :: "string \<Rightarrow> bool" where
  "month_day_re s \<longleftrightarrow> length s = 5 \<and> s ! 2 = CHR ''-'' \<and> list_all is_digit (take 2 s) \<and> list_all is_digit (drop 3 s)"

definition is_iso_text :: "json \<Rightarrow> bool" where
  "is_iso_text v = (case v of JStr s \<Rightarrow> iso_date_re s | _ \<Rightarrow> False)"

definition is_month_day_text :: "json \<Rightarrow> bool" where
  "is_month_day_text v = (case v of JStr s \<Rightarrow> month_day_re s | _ \<Rightarrow> False)"

subsection \<open>Parameter definitions\<close>

datatype param_type = PMoney | PRate | PInt | PDate | PMonthDay | PMoneyList | PRateList
  | PNumberList | PIntList | PDateList | PMonthDayList | PBracketTable | PRatePeriodList

datatype param_unit = Usd | RateU | Count | Year | DateU | MonthDayU | Months | Factor | Table

datatype variant_set = VFs | VStandardMfs | VStandardMfj | VSelfFamily | VUnmarriedMarried
  | VStandardMfsLivingApart | VOneTwoPlus

definition VARIANT_SETS :: "variant_set \<Rightarrow> string list" where
  "VARIANT_SETS v = (case v of
      VFs \<Rightarrow> map fs_text FILING_STATUSES
    | VStandardMfs \<Rightarrow> [''standard'', ''mfs'']
    | VStandardMfj \<Rightarrow> [''standard'', ''mfj'']
    | VSelfFamily \<Rightarrow> [''self'', ''family'']
    | VUnmarriedMarried \<Rightarrow> [''unmarried'', ''married'']
    | VStandardMfsLivingApart \<Rightarrow> [''standard'', ''mfs_living_apart'']
    | VOneTwoPlus \<Rightarrow> [''one'', ''two_plus''])"

record statutory_date =
  sd_monthDay :: string
  sd_yearOffset :: int

datatype roll_rule = Statutory "statutory_date list" | LegalHolidays

record parameter_def =
  pd_key :: string
  pd_ty :: param_type
  pd_unit :: param_unit
  pd_variants :: "variant_set option"
  pd_rollsWithYear :: bool
  pd_roll :: "roll_rule option"

datatype extra = Plain | Variants variant_set | Rolls roll_rule

definition D :: "string \<Rightarrow> param_type \<Rightarrow> param_unit \<Rightarrow> extra \<Rightarrow> parameter_def" where
  "D k t u ex = \<lparr>pd_key = k, pd_ty = t, pd_unit = u,
     pd_variants = (case ex of Variants v \<Rightarrow> Some v | _ \<Rightarrow> None),
     pd_rollsWithYear = (case ex of Rolls r \<Rightarrow> True | _ \<Rightarrow> False),
     pd_roll = (case ex of Rolls r \<Rightarrow> Some r | _ \<Rightarrow> None)\<rparr>"

definition SD :: "string \<Rightarrow> int \<Rightarrow> statutory_date" where
  "SD md off = \<lparr>sd_monthDay = md, sd_yearOffset = off\<rparr>"

definition PARAMETER_REGISTRY :: "parameter_def list" where
 "PARAMETER_REGISTRY = [
  D ''se.nese_factor'' PRate RateU Plain,
  D ''se.min_nese'' PMoney Usd Plain,
  D ''se.ss_rate'' PRate RateU Plain,
  D ''se.medicare_rate'' PRate RateU Plain,
  D ''se.ss_wage_base'' PMoney Usd Plain,
  D ''se.deduction_factor'' PRate RateU Plain,
  D ''brackets'' PBracketTable Table (Variants VFs),
  D ''ltcg.breakpoints'' PMoneyList Usd (Variants VFs),
  D ''ltcg.rates'' PRateList RateU Plain,
  D ''collectibles_rate'' PRate RateU Plain,
  D ''unrecaptured_1250_rate'' PRate RateU Plain,
  D ''capital_loss.limit'' PMoney Usd (Variants VStandardMfs),
  D ''addl_medicare.rate'' PRate RateU Plain,
  D ''addl_medicare.threshold'' PMoney Usd (Variants VFs),
  D ''niit.rate'' PRate RateU Plain,
  D ''niit.threshold'' PMoney Usd (Variants VFs),
  D ''std_deduction'' PMoney Usd (Variants VFs),
  D ''std_deduction.additional_65_blind'' PMoney Usd (Variants VUnmarriedMarried),
  D ''std_deduction.additional_age'' PInt Count Plain,
  D ''salt.cap'' PMoney Usd (Variants VStandardMfs),
  D ''salt.phase_down.threshold'' PMoney Usd (Variants VStandardMfs),
  D ''salt.phase_down.rate'' PRate RateU Plain,
  D ''salt.floor'' PMoney Usd (Variants VStandardMfs),
  D ''charity.agi_floor_pct'' PRate RateU Plain,
  D ''charity.nonitemizer'' PMoney Usd (Variants VFs),
  D ''itemized.benefit_cap_rate'' PRate RateU Plain,
  D ''sch1a.senior.amount'' PMoney Usd Plain,
  D ''sch1a.senior.age'' PInt Count Plain,
  D ''sch1a.senior.phaseout_threshold'' PMoney Usd (Variants VFs),
  D ''sch1a.senior.phaseout_rate'' PRate RateU Plain,
  D ''sch1a.tips.max'' PMoney Usd Plain,
  D ''sch1a.tips.phaseout_threshold'' PMoney Usd (Variants VFs),
  D ''sch1a.tips.phaseout_rate'' PRate RateU Plain,
  D ''sch1a.overtime.max'' PMoney Usd (Variants VStandardMfj),
  D ''sch1a.overtime.phaseout_threshold'' PMoney Usd (Variants VFs),
  D ''sch1a.overtime.phaseout_rate'' PRate RateU Plain,
  D ''sch1a.car_interest.max'' PMoney Usd Plain,
  D ''sch1a.car_interest.phaseout_threshold'' PMoney Usd (Variants VFs),
  D ''sch1a.car_interest.phaseout_rate'' PRate RateU Plain,
  D ''sch1a.phaseout_step'' PMoney Usd Plain,
  D ''sch1a.first_year'' PInt Year Plain,
  D ''sch1a.last_year'' PInt Year Plain,
  D ''qbi.rate'' PRate RateU Plain,
  D ''qbi.threshold'' PMoney Usd (Variants VFs),
  D ''qbi.phase_in_range'' PMoney Usd (Variants VFs),
  D ''qbi.w2_wage_pct'' PRate RateU Plain,
  D ''qbi.alt_w2_wage_pct'' PRate RateU Plain,
  D ''qbi.ubia_pct'' PRate RateU Plain,
  D ''qbi.taxable_income_limit_pct'' PRate RateU Plain,
  D ''qbi.min_deduction_amount'' PMoney Usd Plain,
  D ''qbi.min_deduction_active_qbi_threshold'' PMoney Usd Plain,
  D ''ebl.threshold'' PMoney Usd (Variants VStandardMfj),
  D ''passive.rental_allowance'' PMoney Usd (Variants VStandardMfsLivingApart),
  D ''passive.rental_allowance_phaseout_start'' PMoney Usd (Variants VStandardMfsLivingApart),
  D ''passive.rental_allowance_phaseout_end'' PMoney Usd (Variants VStandardMfsLivingApart),
  D ''retirement.sep.pct_of_comp'' PRate RateU Plain,
  D ''retirement.sep.dollar_limit'' PMoney Usd Plain,
  D ''retirement.comp_limit'' PMoney Usd Plain,
  D ''retirement.401k.deferral'' PMoney Usd Plain,
  D ''retirement.401k.catch_up_50'' PMoney Usd Plain,
  D ''retirement.401k.catch_up_60_63'' PMoney Usd Plain,
  D ''retirement.catch_up_age'' PInt Count Plain,
  D ''retirement.401k.catch_up_60_63_ages'' PIntList Count Plain,
  D ''retirement.simple.deferral'' PMoney Usd Plain,
  D ''retirement.simple.catch_up'' PMoney Usd Plain,
  D ''retirement.simple.match_pct'' PRate RateU Plain,
  D ''hsa.limit'' PMoney Usd (Variants VSelfFamily),
  D ''hsa.catch_up_55'' PMoney Usd Plain,
  D ''hsa.catch_up_age'' PInt Count Plain,
  D ''ccorp.rate'' PRate RateU Plain,
  D ''ccorp.large_corp_threshold'' PMoney Usd Plain,
  D ''ccorp.installment_months'' PIntList Months Plain,
  D ''ccorp.installment_pcts'' PRateList RateU Plain,
  D ''ccorp.safe_harbor_current_pct'' PRate RateU Plain,
  D ''ccorp.safe_harbor_prior_pct'' PRate RateU Plain,
  D ''ccorp.sch_ai.period_ends'' PMonthDayList MonthDayU Plain,
  D ''ccorp.sch_ai.annualization_factors'' PNumberList Factor Plain,
  D ''ccorp.sch_ai.applicable_pcts'' PRateList RateU Plain,
  D ''ccorp.installment_day'' PInt Count Plain,
  D ''ccorp.large_corp_lookback_years'' PInt Count Plain,
  D ''ccorp.min_tax_for_estimates'' PMoney Usd Plain,
  D ''safe_harbor.current_pct'' PRate RateU Plain,
  D ''safe_harbor.prior_pct'' PRate RateU Plain,
  D ''safe_harbor.prior_pct_high_agi'' PRate RateU Plain,
  D ''safe_harbor.high_agi_threshold'' PMoney Usd (Variants VStandardMfs),
  D ''safe_harbor.min_balance_due'' PMoney Usd Plain,
  D ''installments.due_dates'' PDateList DateU (Rolls (Statutory [SD ''04-15'' 0, SD ''06-15'' 0, SD ''09-15'' 0, SD ''01-15'' 1])),
  D ''installments.pcts'' PRateList RateU Plain,
  D ''installments.q4_file_and_pay_date'' PDate DateU (Rolls (Statutory [SD ''01-31'' 1])),
  D ''return_due_date'' PDate DateU (Rolls (Statutory [SD ''04-15'' 1])),
  D ''sch_ai.period_ends'' PMonthDayList MonthDayU Plain,
  D ''sch_ai.annualization_factors'' PNumberList Factor Plain,
  D ''sch_ai.applicable_pcts'' PRateList RateU Plain,
  D ''sch_ai.period_months'' PIntList Months Plain,
  D ''farmer.gross_income_ratio'' PRate RateU Plain,
  D ''farmer.safe_harbor_current_pct'' PRate RateU Plain,
  D ''farmer.safe_harbor_prior_pct'' PRate RateU Plain,
  D ''farmer.single_due_date'' PDate DateU (Rolls (Statutory [SD ''01-15'' 1])),
  D ''farmer.file_by_date'' PDate DateU (Rolls (Statutory [SD ''03-01'' 1])),
  D ''penalty.underpayment_rate'' PRatePeriodList Table Plain,
  D ''ctc.amount'' PMoney Usd Plain,
  D ''ctc.refundable_max'' PMoney Usd Plain,
  D ''ctc.child_age_limit'' PInt Count Plain,
  D ''ctc.odc_amount'' PMoney Usd Plain,
  D ''ctc.phaseout_threshold'' PMoney Usd (Variants VStandardMfj),
  D ''ctc.phaseout_step'' PMoney Usd Plain,
  D ''ctc.phaseout_reduction'' PMoney Usd Plain,
  D ''ctc.earned_income_floor'' PMoney Usd Plain,
  D ''ctc.earned_income_rate'' PRate RateU Plain,
  D ''ctc.alt_formula_min_children'' PInt Count Plain,
  D ''dependents.qc_age_limit'' PInt Count Plain,
  D ''dependents.qc_student_age_limit'' PInt Count Plain,
  D ''dependents.residency_min_months'' PInt Months Plain,
  D ''care.expense_limit'' PMoney Usd (Variants VOneTwoPlus),
  D ''care.qualifying_age'' PInt Count Plain,
  D ''care.max_rate'' PRate RateU Plain,
  D ''care.rate_step'' PRate RateU Plain,
  D ''care.phase1.start'' PMoney Usd Plain,
  D ''care.phase1.agi_step'' PMoney Usd Plain,
  D ''care.phase1.min_rate'' PRate RateU Plain,
  D ''care.phase2.start'' PMoney Usd (Variants VStandardMfj),
  D ''care.phase2.agi_step'' PMoney Usd (Variants VStandardMfj),
  D ''care.phase2.min_rate'' PRate RateU Plain,
  D ''eitc.max_agi'' PMoneyList Usd (Variants VStandardMfj),
  D ''holidays'' PDateList DateU (Rolls LegalHolidays)
 ]"

text \<open>Every concrete key a complete tax year must contain, and the lookup by concrete key.\<close>

record expanded_key =
  ek_key :: string
  ek_def :: parameter_def
  ek_variant :: "string option"

definition expand_def :: "parameter_def \<Rightarrow> expanded_key list" where
  "expand_def d = (case pd_variants d of
      None \<Rightarrow> [\<lparr>ek_key = pd_key d, ek_def = d, ek_variant = None\<rparr>]
    | Some vs \<Rightarrow> map (\<lambda>v. \<lparr>ek_key = pd_key d @ ''.'' @ v, ek_def = d, ek_variant = Some v\<rparr>) (VARIANT_SETS vs))"

definition expandParameterKeys :: "expanded_key list" where
  "expandParameterKeys = concat (map expand_def PARAMETER_REGISTRY)"

definition getParameterDef :: "string \<Rightarrow> expanded_key option" where
  "getParameterDef k = map_of (rev (map (\<lambda>e. (ek_key e, e)) expandParameterKeys)) k"

definition isParameterKey :: "string \<Rightarrow> bool" where
  "isParameterKey k = (getParameterDef k \<noteq> None)"

definition filingStatusKey :: "string \<Rightarrow> filing_status \<Rightarrow> string" where
  "filingStatusKey base fs = base @ ''.'' @ fs_text fs"

subsection \<open>Validation of a stored value\<close>

text \<open>\<open>validateParameterValue\<close>: \<open>None\<close> when the value is valid, else the message.\<close>

definition check_list :: "(json \<Rightarrow> bool) \<Rightarrow> string \<Rightarrow> json \<Rightarrow> string option" where
  "check_list P what v = (case v of
      JArr xs \<Rightarrow> if xs \<noteq> [] \<and> list_all P xs then None else Some (''expected a non-empty list of '' @ what)
    | _ \<Rightarrow> Some (''expected a non-empty list of '' @ what))"

definition row_message :: "nat \<Rightarrow> string \<Rightarrow> string" where
  "row_message i s = ''row '' @ show_nat i @ '': '' @ s"

fun check_brackets :: "nat \<Rightarrow> rat \<Rightarrow> json list \<Rightarrow> string option" where
  "check_brackets i prev [] = None"
| "check_brackets i prev (row # rows) = (case row of
      JArr [upper, JNum r] \<Rightarrow>
        if r < 0 then Some (row_message i ''expected [upper|null, rate]'')
        else if rows = [] then
          (if upper = JNull then None else Some ''last bracket must have a null upper bound'')
        else (case upper of
            JNum u \<Rightarrow> if u \<le> prev then Some (row_message i ''upper bounds must increase'')
                      else check_brackets (Suc i) u rows
          | _ \<Rightarrow> Some (row_message i ''upper bounds must increase''))
    | _ \<Rightarrow> Some (row_message i ''expected [upper|null, rate]''))"

definition is_rate_period :: "json \<Rightarrow> bool" where
  "is_rate_period v = (case (jfield ''from'' v, jfield ''to'' v, jfield ''rate'' v) of
      (Some a, Some b, Some r) \<Rightarrow> is_iso_text a \<and> is_iso_text b \<and> is_nonneg_num r
    | _ \<Rightarrow> False)"

definition validateParameterValue :: "param_type \<Rightarrow> json \<Rightarrow> string option" where
  "validateParameterValue t v = (case t of
      PMoney \<Rightarrow> (if is_nonneg_num v then None else Some ''expected a non-negative number'')
    | PRate \<Rightarrow> (if is_nonneg_num v then None else Some ''expected a non-negative number'')
    | PInt \<Rightarrow> (if is_integer v then None else Some ''expected an integer'')
    | PDate \<Rightarrow> (if is_iso_text v then None else Some ''expected YYYY-MM-DD'')
    | PMonthDay \<Rightarrow> (if is_month_day_text v then None else Some ''expected MM-DD'')
    | PMoneyList \<Rightarrow> check_list is_nonneg_num ''non-negative numbers'' v
    | PRateList \<Rightarrow> check_list is_nonneg_num ''non-negative numbers'' v
    | PNumberList \<Rightarrow> check_list is_num ''numbers'' v
    | PIntList \<Rightarrow> check_list is_integer ''integers'' v
    | PDateList \<Rightarrow> check_list is_iso_text ''YYYY-MM-DD dates'' v
    | PMonthDayList \<Rightarrow> check_list is_month_day_text ''MM-DD values'' v
    | PBracketTable \<Rightarrow> (case v of
          JArr rows \<Rightarrow> if rows = [] then Some ''expected a non-empty bracket table'' else check_brackets 0 (-1) rows
        | _ \<Rightarrow> Some ''expected a non-empty bracket table'')
    | PRatePeriodList \<Rightarrow> check_list is_rate_period ''{ from, to, rate } periods'' v)"

end
