(* ===== verification/EngineBase.thy ===== *)
theory EngineBase
  imports Decimal Registry
begin

section \<open>Calculation context (engine/context.ts, engine/parameters.ts, engine/types.ts)\<close>

text \<open>
  The tax engine computes on decimal strings (\<open>Dec\<close>) whose arithmetic theory \<open>Decimal\<close> shows to be
  that of the rationals they denote; from here on a \<open>Dec\<close> is that rational, type \<open>money\<close>: \<open>dAdd\<close>,
  \<open>dSub\<close>, \<open>dMul\<close> are \<open>+\<close>, \<open>-\<close>, \<open>*\<close>, \<open>dDiv\<close> is \<open>quo\<close>, \<open>dRoundDollars\<close> is \<open>rnd 0\<close>, \<open>dRoundRate\<close> is
  \<open>rnd 6\<close>.

  A step of the engine reads parameters and appends to the trace and to the warnings of one mutable
  \<open>EngineContext\<close>: \<open>'a eng\<close> is a computation on the context \<open>ectx\<close> that may throw.  Texts that are
  only shown to a reader (the \<open>label\<close> and \<open>formula\<close> of a trace row, the \<open>message\<close> of a warning) are
  left out; the amounts, ids, parameter keys, codes and details are kept.
\<close>

type_synonym money = rat

definition quo :: "money \<Rightarrow> money \<Rightarrow> money result" where
  "quo a b = (if b = 0 then Inl (JsError ''Division by zero'' []) else Inr (rnd 12 (a / b)))"

definition floor0 :: "money \<Rightarrow> money" where
  "floor0 x = max 0 x"

lemma floor0_simps [simp]: "0 \<le> floor0 x" "0 \<le> x \<Longrightarrow> floor0 x = x" "x \<le> 0 \<Longrightarrow> floor0 x = 0"
  by (simp_all add: floor0_def)

lemma floor0_ge: "x \<le> floor0 x"
  by (simp add: floor0_def)

subsection \<open>State\<close>

datatype param_status = Verified | Unverified | Provisional

record resolved =
  rp_value :: json
  rp_status :: param_status

record param_use =
  pu_key :: string
  pu_status :: param_status
  pu_value :: json

datatype severity = SevWarning | SevInfo

datatype dval = DText string | DAmt money | DInt int | DJson json | DNull

record warning =
  w_code :: string
  w_severity :: severity
  w_details :: "(string \<times> dval) list option"

datatype trace_source = SrcGl | SrcGlMap | SrcAdjustment | SrcParameter | SrcStateRule | SrcInput

record trace_input =
  tr_step :: string
  tr_id :: string
  tr_exact :: money
  tr_source :: trace_source
  tr_person :: "string option"
  tr_entity :: "string option"
  tr_keys :: "string list option"
  tr_marginal :: "money option"

record trace_row = trace_input +
  tr_amount :: money

datatype person_role = Primary | Spouse

record person_ref =
  pr_id :: string
  pr_role :: person_role

record ectx =
  cx_params :: "(string \<times> resolved) list"
  cx_year :: int
  cx_fs :: filing_status
  cx_used :: "param_use list"
  cx_trace :: "trace_row list"
  cx_warnings :: "warning list"
  cx_seen :: "(string \<times> (string \<times> dval) list option) list"
  cx_persons :: "person_ref list"

definition new_ctx :: "(string \<times> resolved) list \<Rightarrow> int \<Rightarrow> filing_status \<Rightarrow> ectx" where
  "new_ctx ps y fs = \<lparr>cx_params = ps, cx_year = y, cx_fs = fs, cx_used = [], cx_trace = [],
     cx_warnings = [], cx_seen = [], cx_persons = []\<rparr>"

subsection \<open>Computations on the context\<close>

text \<open>The combinators are polymorphic in the context, since the estimate modules thread a larger one.\<close>

type_synonym ('c, 'a) comp = "'c \<Rightarrow> ('a \<times> 'c) result"

type_synonym 'a eng = "(ectx, 'a) comp"

definition cret :: "'a \<Rightarrow> ('c, 'a) comp" where
  "cret x = (\<lambda>c. Inr (x, c))"

definition cthrow :: "err \<Rightarrow> ('c, 'a) comp" where
  "cthrow e = (\<lambda>c. Inl e)"

definition cbind :: "('c, 'a) comp \<Rightarrow> ('a \<Rightarrow> ('c, 'b) comp) \<Rightarrow> ('c, 'b) comp" where
  "cbind m f = (\<lambda>c. ebind (m c) (\<lambda>(x, c'). f x c'))"

definition clift :: "'a result \<Rightarrow> ('c, 'a) comp" where
  "clift r = (\<lambda>c. ebind r (\<lambda>x. Inr (x, c)))"

definition cwhen :: "bool \<Rightarrow> ('c, unit) comp \<Rightarrow> ('c, unit) comp" where
  "cwhen b m = (if b then m else cret ())"

definition cget :: "('c \<Rightarrow> 'a) \<Rightarrow> ('c, 'a) comp" where
  "cget f = (\<lambda>c. Inr (f c, c))"

definition cmod :: "('c \<Rightarrow> 'c) \<Rightarrow> ('c, unit) comp" where
  "cmod f = (\<lambda>c. Inr ((), f c))"

fun cfold :: "('a \<Rightarrow> 's \<Rightarrow> ('c, 's) comp) \<Rightarrow> 'a list \<Rightarrow> 's \<Rightarrow> ('c, 's) comp" where
  "cfold f [] s = cret s"
| "cfold f (x # xs) s = cbind (f x s) (cfold f xs)"

fun cmap :: "('a \<Rightarrow> ('c, 'b) comp) \<Rightarrow> 'a list \<Rightarrow> ('c, 'b list) comp" where
  "cmap f [] = cret []"
| "cmap f (x # xs) = cbind (f x) (\<lambda>y. cbind (cmap f xs) (\<lambda>ys. cret (y # ys)))"

definition cdo :: "('a \<Rightarrow> ('c, unit) comp) \<Rightarrow> 'a list \<Rightarrow> ('c, unit) comp" where
  "cdo f xs = cfold (\<lambda>x _. f x) xs ()"

lemma cret_apply [simp]: "cret x c = Inr (x, c)" by (simp add: cret_def)
lemma cthrow_apply [simp]: "cthrow e c = Inl e" by (simp add: cthrow_def)
lemma clift_apply [simp]: "clift (Inr x) c = Inr (x, c)" "clift (Inl e) c = Inl e" by (simp_all add: clift_def)
lemma cget_apply [simp]: "cget f c = Inr (f c, c)" by (simp add: cget_def)
lemma cmod_apply [simp]: "cmod f c = Inr ((), f c)" by (simp add: cmod_def)

lemma cbind_cret [simp]: "cbind (cret x) f = f x"
  by (simp add: cbind_def fun_eq_iff)

lemma cbindE [elim!]:
  assumes "cbind m f c = Inr (y, c'')"
  obtains x c' where "m c = Inr (x, c')" "f x c' = Inr (y, c'')"
  using assms by (cases "m c") (auto simp: cbind_def)

lemma cliftE [elim!]:
  assumes "clift r c = Inr (y, c')"
  obtains "r = Inr y" "c' = c"
  using assms by (cases r) auto

lemma cwhenE:
  assumes "cwhen b m c = Inr (u, c')"
  obtains "b" "m c = Inr (u, c')" | "\<not> b" "c' = c"
  using assms by (auto simp: cwhen_def split: if_splits)

subsection \<open>TraceBuilder and EngineContext\<close>

text \<open>\<open>TraceBuilder.add\<close>: the rounded amount is derived from the exact one.\<close>

definition trace_add :: "trace_input \<Rightarrow> unit eng" where
  "trace_add r = cmod (\<lambda>c. c\<lparr>cx_trace := cx_trace c @
     [\<lparr>tr_step = tr_step r, tr_id = tr_id r, tr_exact = tr_exact r, tr_source = tr_source r,
       tr_person = tr_person r, tr_entity = tr_entity r, tr_keys = tr_keys r, tr_marginal = tr_marginal r,
       tr_amount = rnd 0 (tr_exact r)\<rparr>]\<rparr>)"

definition row :: "string \<Rightarrow> string \<Rightarrow> money \<Rightarrow> trace_source \<Rightarrow> trace_input" where
  "row step ident x src = \<lparr>tr_step = step, tr_id = ident, tr_exact = x, tr_source = src,
     tr_person = None, tr_entity = None, tr_keys = None, tr_marginal = None\<rparr>"

definition warn_sev :: "string \<Rightarrow> (string \<times> dval) list option \<Rightarrow> severity \<Rightarrow> unit eng" where
  "warn_sev code details sev = cmod (\<lambda>c.
     if (code, details) \<in> set (cx_seen c) then c
     else c\<lparr>cx_seen := (code, details) # cx_seen c,
            cx_warnings := cx_warnings c @ [\<lparr>w_code = code, w_severity = sev, w_details = details\<rparr>]\<rparr>)"

definition warn :: "string \<Rightarrow> (string \<times> dval) list option \<Rightarrow> unit eng" where
  "warn code details = warn_sev code details SevWarning"

definition info :: "string \<Rightarrow> (string \<times> dval) list option \<Rightarrow> unit eng" where
  "info code details = warn_sev code details SevInfo"

definition setPersons :: "person_ref list \<Rightarrow> unit eng" where
  "setPersons ps = cmod (\<lambda>c. c\<lparr>cx_persons := ps\<rparr>)"

definition resolvePerson :: "string option \<Rightarrow> string eng" where
  "resolvePerson pid = cbind (cget cx_persons) (\<lambda>ps.
     let given = (case pid of None \<Rightarrow> None | Some p \<Rightarrow> if p = [] then None else Some p) in
     case given of
       Some p \<Rightarrow>
         if \<exists>r \<in> set ps. pr_id r = p then cret p
         else (case (find (\<lambda>r. pr_role r = Primary) ps, ps) of
             (Some r, _) \<Rightarrow> cbind (warn ''TE_UNKNOWN_PERSON'' (Some [(''personId'', DText p)])) (\<lambda>_. cret (pr_id r))
           | (None, r # _) \<Rightarrow> cbind (warn ''TE_UNKNOWN_PERSON'' (Some [(''personId'', DText p)])) (\<lambda>_. cret (pr_id r))
           | (None, []) \<Rightarrow> cthrow (JsError ''TE_NO_PERSONS'' []))
     | None \<Rightarrow> (case (find (\<lambda>r. pr_role r = Primary) ps, ps) of
             (Some r, _) \<Rightarrow> cret (pr_id r)
           | (None, r # _) \<Rightarrow> cret (pr_id r)
           | (None, []) \<Rightarrow> cthrow (JsError ''TE_NO_PERSONS'' [])))"

subsection \<open>ParameterReader\<close>

text \<open>\<open>raw\<close> records the first use of a key.\<close>

definition note_use :: "string \<Rightarrow> param_status \<Rightarrow> json \<Rightarrow> ectx \<Rightarrow> ectx" where
  "note_use k st v c = (if \<exists>u \<in> set (cx_used c). pu_key u = k then c
     else c\<lparr>cx_used := cx_used c @ [\<lparr>pu_key = k, pu_status = st, pu_value = v\<rparr>]\<rparr>)"

definition p_raw :: "string \<Rightarrow> json eng" where
  "p_raw k = (\<lambda>c. case map_of (cx_params c) k of
      None \<Rightarrow> Inl (JsError ''TE_PARAM_MISSING'' [k])
    | Some p \<Rightarrow> Inr (rp_value p, note_use k (rp_status p) (rp_value p) c))"

definition invalid :: "string \<Rightarrow> string \<Rightarrow> err" where
  "invalid k expected = JsError ''TE_PARAM_INVALID'' [k, expected]"

definition as_number :: "string \<Rightarrow> json \<Rightarrow> money result" where
  "as_number k v = (case v of JNum q \<Rightarrow> Inr q | _ \<Rightarrow> Inl (invalid k ''a number''))"

definition as_int :: "string \<Rightarrow> json \<Rightarrow> int result" where
  "as_int k v = (case v of JNum q \<Rightarrow> if is_integer v then Inr \<lfloor>q\<rfloor> else Inl (invalid k ''an integer'')
     | _ \<Rightarrow> Inl (invalid k ''an integer''))"

definition num_of :: "json \<Rightarrow> money" where
  "num_of v = (case v of JNum q \<Rightarrow> q | _ \<Rightarrow> 0)"

definition text_of :: "json \<Rightarrow> string" where
  "text_of v = (case v of JStr s \<Rightarrow> s | _ \<Rightarrow> [])"

definition as_list :: "(json \<Rightarrow> bool) \<Rightarrow> (json \<Rightarrow> 'a) \<Rightarrow> string \<Rightarrow> string \<Rightarrow> json \<Rightarrow> 'a list result" where
  "as_list P f what k v = (case v of JArr xs \<Rightarrow> if list_all P xs then Inr (map f xs) else Inl (invalid k what)
     | _ \<Rightarrow> Inl (invalid k what))"

definition as_date :: "string \<Rightarrow> json \<Rightarrow> string result" where
  "as_date k v = (if is_iso_text v then Inr (text_of v) else Inl (invalid k ''a YYYY-MM-DD date''))"

record rate_period =
  rt_from :: string
  rt_to :: string
  rt_rate :: money

record bracket_row =
  br_upper :: "money option"
  br_rate :: money

definition as_rate_period :: "string \<Rightarrow> json \<Rightarrow> rate_period result" where
  "as_rate_period k v = (case (jfield ''from'' v, jfield ''to'' v, jfield ''rate'' v) of
      (Some a, Some b, Some (JNum r)) \<Rightarrow>
        if is_iso_text a \<and> is_iso_text b then Inr \<lparr>rt_from = text_of a, rt_to = text_of b, rt_rate = r\<rparr>
        else Inl (invalid k ''a list of { from, to, rate } periods'')
    | _ \<Rightarrow> Inl (invalid k ''a list of { from, to, rate } periods''))"

definition as_rate_periods :: "string \<Rightarrow> json \<Rightarrow> rate_period list result" where
  "as_rate_periods k v = (case v of
      JArr xs \<Rightarrow> if xs = [] then Inl (invalid k ''a list of { from, to, rate } periods'') else emap (as_rate_period k) xs
    | _ \<Rightarrow> Inl (invalid k ''a list of { from, to, rate } periods''))"

definition as_bracket :: "string \<Rightarrow> json \<Rightarrow> bracket_row result" where
  "as_bracket k v = (case v of
      JArr (u # JNum r # _) \<Rightarrow> (case u of
          JNull \<Rightarrow> Inr \<lparr>br_upper = None, br_rate = r\<rparr>
        | JNum q \<Rightarrow> Inr \<lparr>br_upper = Some q, br_rate = r\<rparr>
        | _ \<Rightarrow> Inl (invalid k ''a bracket table''))
    | _ \<Rightarrow> Inl (invalid k ''a bracket table''))"

definition as_brackets :: "string \<Rightarrow> json \<Rightarrow> bracket_row list result" where
  "as_brackets k v = (case v of
      JArr xs \<Rightarrow> if xs = [] then Inl (invalid k ''a bracket table'') else emap (as_bracket k) xs
    | _ \<Rightarrow> Inl (invalid k ''a bracket table''))"

definition p_read :: "(string \<Rightarrow> json \<Rightarrow> 'a result) \<Rightarrow> string \<Rightarrow> 'a eng" where
  "p_read f k = cbind (p_raw k) (\<lambda>v. clift (f k v))"

definition p_money :: "string \<Rightarrow> money eng" where "p_money = p_read as_number"
definition p_rate :: "string \<Rightarrow> money eng" where "p_rate = p_read as_number"
definition p_int :: "string \<Rightarrow> int eng" where "p_int = p_read as_int"
definition p_moneyList :: "string \<Rightarrow> money list eng" where "p_moneyList = p_read (as_list is_num num_of ''a list of numbers'')"
definition p_rateList :: "string \<Rightarrow> money list eng" where "p_rateList = p_read (as_list is_num num_of ''a list of numbers'')"
definition p_intList :: "string \<Rightarrow> int list eng" where
  "p_intList = p_read (as_list is_integer (\<lambda>v. \<lfloor>num_of v\<rfloor>) ''a list of integers'')"
definition p_date :: "string \<Rightarrow> string eng" where "p_date = p_read as_date"
definition p_dateList :: "string \<Rightarrow> string list eng" where
  "p_dateList = p_read (as_list is_iso_text text_of ''a list of YYYY-MM-DD dates'')"
definition p_monthDayList :: "string \<Rightarrow> string list eng" where
  "p_monthDayList = p_read (as_list is_month_day_text text_of ''a list of MM-DD values'')"
definition p_ratePeriods :: "string \<Rightarrow> rate_period list eng" where "p_ratePeriods = p_read as_rate_periods"
definition p_brackets :: "string \<Rightarrow> bracket_row list eng" where "p_brackets = p_read as_brackets"

definition p_moneyFs :: "string \<Rightarrow> filing_status \<Rightarrow> money eng" where "p_moneyFs b fs = p_money (filingStatusKey b fs)"
definition p_rateFs :: "string \<Rightarrow> filing_status \<Rightarrow> money eng" where "p_rateFs b fs = p_rate (filingStatusKey b fs)"
definition p_moneyListFs :: "string \<Rightarrow> filing_status \<Rightarrow> money list eng" where
  "p_moneyListFs b fs = p_moneyList (filingStatusKey b fs)"
definition p_bracketsFs :: "string \<Rightarrow> filing_status \<Rightarrow> bracket_row list eng" where
  "p_bracketsFs b fs = p_brackets (filingStatusKey b fs)"

definition noteUsed :: "param_use list \<Rightarrow> unit eng" where
  "noteUsed us = cdo (\<lambda>u. cmod (note_use (pu_key u) (pu_status u) (pu_value u))) us"

text \<open>One warning per parameter read that is not verified; \<open>allWarnings\<close> appends them to those of the steps.\<close>

definition status_text :: "param_status \<Rightarrow> string" where
  "status_text s = (case s of Verified \<Rightarrow> ''verified'' | Unverified \<Rightarrow> ''unverified'' | Provisional \<Rightarrow> ''provisional'')"

definition unverifiedWarning :: "param_use \<Rightarrow> warning" where
  "unverifiedWarning u = \<lparr>w_code = ''TE_PARAM_UNVERIFIED'', w_severity = SevWarning,
     w_details = Some [(''key'', DText (pu_key u)), (''status'', DText (status_text (pu_status u))), (''value'', DJson (pu_value u))]\<rparr>"

definition param_warnings :: "ectx \<Rightarrow> warning list" where
  "param_warnings c = map unverifiedWarning (filter (\<lambda>u. pu_status u \<noteq> Verified) (cx_used c))"

definition allWarnings :: "ectx \<Rightarrow> warning list" where
  "allWarnings c = cx_warnings c @ param_warnings c"

text \<open>\<open>ageAtYearEnd\<close>: \<open>^(\d+)-(\d+)-(\d+)$\<close> on the trimmed text.\<close>

definition split_dob :: "string \<Rightarrow> (nat \<times> nat \<times> nat) option" where
  "split_dob s =
    (let a = takeWhile is_digit s; r = dropWhile is_digit s;
         b = takeWhile is_digit (tl r); r2 = dropWhile is_digit (tl r);
         d = tl r2
     in if a \<noteq> [] \<and> r \<noteq> [] \<and> hd r = CHR ''-'' \<and> b \<noteq> [] \<and> r2 \<noteq> [] \<and> hd r2 = CHR ''-'' \<and> d \<noteq> [] \<and> list_all is_digit d
        then Some (nat_of_digits a, nat_of_digits b, nat_of_digits d) else None)"

definition ageAtYearEnd :: "string option \<Rightarrow> int \<Rightarrow> bool \<Rightarrow> int option" where
  "ageAtYearEnd dob taxYear janFirstRule = (case dob of None \<Rightarrow> None
     | Some s \<Rightarrow> if s = [] then None else
         (case split_dob (trim s) of None \<Rightarrow> None
          | Some (y, m, d) \<Rightarrow>
              let birthYear = int y - (if janFirstRule \<and> m = 1 \<and> d = 1 then 1 else 0)
              in Some (taxYear - birthYear)))"

subsection \<open>Running a step\<close>

text \<open>
  \<open>exec_simps\<close> runs a step on a concrete input: \<open>simp add: exec_simps Let_def cong: let_weak_cong\<close> with
  the step's definitions decides each condition before it looks at a branch.
\<close>

lemma cbind_apply [exec_simps]: "cbind m f c = ebind (m c) (\<lambda>(x, c'). f x c')"
  by (simp add: cbind_def)

lemma cwhen_exec [exec_simps]: "cwhen True m = m" "cwhen False m = cret ()"
  by (simp_all add: cwhen_def)

lemmas [exec_simps] = trace_add_def warn_def info_def warn_sev_def p_raw_def p_read_def p_money_def p_rate_def
  p_int_def p_moneyList_def p_rateList_def p_intList_def p_date_def p_dateList_def p_monthDayList_def
  p_ratePeriods_def p_brackets_def p_moneyFs_def p_rateFs_def p_moneyListFs_def p_bracketsFs_def
  filingStatusKey_def fs_text_def note_use_def new_ctx_def cdo_def as_brackets_def as_bracket_def as_number_def
  as_int_def as_list_def num_of_def is_num_def is_integer_def row_def quo_def floor0_def

subsection \<open>What every step keeps\<close>

text \<open>
  \<open>ctx_ok\<close>: each parameter used is recorded once, with the status and value it has in the parameter
  set; each trace amount is its exact value rounded to whole dollars; no warning is repeated.
  \<open>grows\<close>: the parameters, the year and the filing status stay, the records only get longer.
  A \<open>sound\<close> computation keeps the first and does the second; the rules of \<open>eng_sound\<close> prove it for a
  step from its parts.
\<close>

named_theorems eng_sound "computations that keep the context well formed"

definition ctx_ok :: "ectx \<Rightarrow> bool" where
  "ctx_ok c \<longleftrightarrow> distinct (map pu_key (cx_used c)) \<and>
     (\<forall>u \<in> set (cx_used c). \<exists>p. map_of (cx_params c) (pu_key u) = Some p \<and> pu_status u = rp_status p \<and> pu_value u = rp_value p) \<and>
     (\<forall>r \<in> set (cx_trace c). tr_amount r = rnd 0 (tr_exact r)) \<and>
     distinct (map (\<lambda>w. (w_code w, w_details w)) (cx_warnings c)) \<and>
     set (cx_seen c) = set (map (\<lambda>w. (w_code w, w_details w)) (cx_warnings c))"

definition grows :: "ectx \<Rightarrow> ectx \<Rightarrow> bool" where
  "grows c c' \<longleftrightarrow> cx_params c' = cx_params c \<and> cx_year c' = cx_year c \<and> cx_fs c' = cx_fs c \<and>
     (\<exists>us. cx_used c' = cx_used c @ us) \<and> (\<exists>ts. cx_trace c' = cx_trace c @ ts) \<and> (\<exists>ws. cx_warnings c' = cx_warnings c @ ws)"

definition sound :: "'a eng \<Rightarrow> bool" where
  "sound m \<longleftrightarrow> (\<forall>c x c'. m c = Inr (x, c') \<longrightarrow> ctx_ok c \<longrightarrow> ctx_ok c' \<and> grows c c')"

lemma soundI:
  assumes "\<And>c x c'. m c = Inr (x, c') \<Longrightarrow> ctx_ok c \<Longrightarrow> ctx_ok c' \<and> grows c c'"
  shows "sound m"
  using assms by (simp add: sound_def)

lemma soundD: "sound m \<Longrightarrow> m c = Inr (x, c') \<Longrightarrow> ctx_ok c \<Longrightarrow> ctx_ok c' \<and> grows c c'"
  by (simp add: sound_def)

lemma grows_refl: "grows c c"
  by (simp add: grows_def)

lemma grows_trans: "grows a b \<Longrightarrow> grows b c \<Longrightarrow> grows a c"
  by (auto simp: grows_def)

lemma ctx_ok_new: "ctx_ok (new_ctx ps y fs)"
  by (simp add: ctx_ok_def new_ctx_def)

lemma sound_cret [eng_sound, intro]: "sound (cret x)"
  by (auto intro!: soundI simp: grows_refl)

lemma sound_cthrow [eng_sound, intro]: "sound (cthrow e)"
  by (auto intro!: soundI)

lemma sound_cget [eng_sound, intro]: "sound (cget f)"
  by (auto intro!: soundI simp: grows_refl)

lemma sound_clift [eng_sound, intro]: "sound (clift r)"
  by (auto intro!: soundI simp: grows_refl)

lemma sound_cbind [eng_sound, intro]:
  assumes "sound m" "\<And>x. sound (f x)"
  shows "sound (cbind m f)"
proof (rule soundI)
  fix c y c''
  assume run: "cbind m f c = Inr (y, c'')" and ok: "ctx_ok c"
  from run obtain x c' where m: "m c = Inr (x, c')" and f: "f x c' = Inr (y, c'')" by blast
  from soundD [OF assms(1) m ok] have "ctx_ok c'" "grows c c'" by simp_all
  with soundD [OF assms(2) f] show "ctx_ok c'' \<and> grows c c''" by (blast intro: grows_trans)
qed

lemma sound_cwhen [eng_sound, intro]: "sound m \<Longrightarrow> sound (cwhen b m)"
  by (simp add: cwhen_def sound_cret)

lemma sound_if [eng_sound, intro]: "sound m \<Longrightarrow> sound n \<Longrightarrow> sound (if b then m else n)"
  by simp

lemma sound_case_option [eng_sound, intro]:
  "sound m \<Longrightarrow> (\<And>x. sound (f x)) \<Longrightarrow> sound (case x of None \<Rightarrow> m | Some x \<Rightarrow> f x)"
  by (simp split: option.split)

lemma sound_case_prod [eng_sound, intro]: "(\<And>a b. sound (f a b)) \<Longrightarrow> sound (case p of (a, b) \<Rightarrow> f a b)"
  by (cases p) simp

lemma sound_case_list [eng_sound, intro]:
  "sound m \<Longrightarrow> (\<And>x xs. sound (f x xs)) \<Longrightarrow> sound (case l of [] \<Rightarrow> m | x # xs \<Rightarrow> f x xs)"
  by (simp split: list.split)

lemma sound_Let [eng_sound, intro]: "(\<And>x. sound (f x)) \<Longrightarrow> sound (let x = e in f x)"
  by simp

lemma sound_cfold [eng_sound, intro]: "(\<And>x s. sound (f x s)) \<Longrightarrow> sound (cfold f xs s)"
  by (induction xs arbitrary: s) (auto intro: sound_cret sound_cbind)

lemma sound_cmap [eng_sound, intro]: "(\<And>x. sound (f x)) \<Longrightarrow> sound (cmap f xs)"
  by (induction xs) (auto intro!: sound_cret sound_cbind)

lemma sound_cdo [eng_sound, intro]: "(\<And>x. sound (f x)) \<Longrightarrow> sound (cdo f xs)"
  by (simp add: cdo_def sound_cfold)

lemma sound_trace_add [eng_sound, intro]: "sound (trace_add r)"
  by (rule soundI) (auto simp: trace_add_def ctx_ok_def grows_def)

lemma sound_warn_sev [eng_sound, intro]: "sound (warn_sev code details sev)"
  by (rule soundI) (auto simp: warn_sev_def ctx_ok_def grows_def split: if_splits)

lemma sound_warn [eng_sound, intro]: "sound (warn code details)"
  by (simp add: warn_def sound_warn_sev)

lemma sound_info [eng_sound, intro]: "sound (info code details)"
  by (simp add: info_def sound_warn_sev)

lemma sound_setPersons [eng_sound, intro]: "sound (setPersons ps)"
  by (rule soundI) (auto simp: setPersons_def ctx_ok_def grows_def)

lemma sound_resolvePerson [eng_sound, intro]: "sound (resolvePerson pid)"
  unfolding resolvePerson_def Let_def by (intro eng_sound)

lemma sound_p_raw [eng_sound, intro]: "sound (p_raw k)"
proof (rule soundI)
  fix c x c'
  assume "p_raw k c = Inr (x, c')" "ctx_ok c"
  then obtain p where "map_of (cx_params c) k = Some p" "c' = note_use k (rp_status p) (rp_value p) c"
    by (auto simp: p_raw_def split: option.splits)
  then show "ctx_ok c' \<and> grows c c'"
    using \<open>ctx_ok c\<close> by (auto simp: note_use_def ctx_ok_def grows_def)
qed

lemma sound_p_read [eng_sound, intro]: "sound (p_read f k)"
  by (auto simp: p_read_def intro: sound_cbind sound_p_raw sound_clift)

lemma sound_params [eng_sound, intro]:
  "sound (p_money k)" "sound (p_rate k)" "sound (p_int k)" "sound (p_moneyList k)" "sound (p_rateList k)"
  "sound (p_intList k)" "sound (p_date k)" "sound (p_dateList k)" "sound (p_monthDayList k)"
  "sound (p_ratePeriods k)" "sound (p_brackets k)" "sound (p_moneyFs k fs)" "sound (p_rateFs k fs)"
  "sound (p_moneyListFs k fs)" "sound (p_bracketsFs k fs)"
  by (simp_all add: p_money_def p_rate_def p_int_def p_moneyList_def p_rateList_def p_intList_def p_date_def
      p_dateList_def p_monthDayList_def p_ratePeriods_def p_brackets_def p_moneyFs_def p_rateFs_def
      p_moneyListFs_def p_bracketsFs_def sound_p_read)

text \<open>What a read returns: the value stored under the key, converted.\<close>

lemma p_readD:
  assumes "p_read f k c = Inr (x, c')"
  shows "\<exists>p. map_of (cx_params c) k = Some p \<and> f k (rp_value p) = Inr x"
  using assms by (auto simp: p_read_def p_raw_def split: option.splits)

definition stored :: "(string \<times> resolved) list \<Rightarrow> string \<Rightarrow> json" where
  "stored ps k = (case map_of ps k of None \<Rightarrow> JNull | Some p \<Rightarrow> rp_value p)"

definition stored_num :: "(string \<times> resolved) list \<Rightarrow> string \<Rightarrow> money" where
  "stored_num ps k = num_of (stored ps k)"

lemma p_moneyD: "p_money k c = Inr (x, c') \<Longrightarrow> x = stored_num (cx_params c) k"
proof -
  assume "p_money k c = Inr (x, c')"
  then obtain p where p: "map_of (cx_params c) k = Some p" "as_number k (rp_value p) = Inr x"
    unfolding p_money_def by (blast dest: p_readD)
  then have "rp_value p = JNum x" by (simp add: as_number_def split: json.split_asm)
  with p(1) show ?thesis by (simp add: stored_num_def stored_def num_of_def)
qed

lemma p_rateD: "p_rate k c = Inr (x, c') \<Longrightarrow> x = stored_num (cx_params c) k"
  using p_moneyD by (simp add: p_rate_def p_money_def)

definition stored_with :: "(string \<Rightarrow> json \<Rightarrow> 'a result) \<Rightarrow> (string \<times> resolved) list \<Rightarrow> string \<Rightarrow> 'a" where
  "stored_with f ps k = projr (f k (stored ps k))"

text \<open>A read gives the stored number and leaves the parameters and the filing status as they are.\<close>

lemma p_money_readD:
  "p_money k c = Inr (x, c') \<Longrightarrow> x = stored_num (cx_params c) k \<and> cx_params c' = cx_params c \<and> cx_fs c' = cx_fs c \<and> cx_year c' = cx_year c"
  using p_moneyD [of k c x c'] by (auto simp: p_money_def p_read_def p_raw_def note_use_def split: option.splits)

lemma p_rate_readD:
  "p_rate k c = Inr (x, c') \<Longrightarrow> x = stored_num (cx_params c) k \<and> cx_params c' = cx_params c \<and> cx_fs c' = cx_fs c \<and> cx_year c' = cx_year c"
  using p_money_readD by (simp add: p_rate_def p_money_def)

lemma p_moneyFs_readD:
  "p_moneyFs k fs c = Inr (x, c') \<Longrightarrow> x = stored_num (cx_params c) (filingStatusKey k fs) \<and> cx_params c' = cx_params c \<and> cx_fs c' = cx_fs c \<and> cx_year c' = cx_year c"
  using p_money_readD by (simp add: p_moneyFs_def)

lemma trace_add_readD: "trace_add r c = Inr (u, c') \<Longrightarrow> cx_params c' = cx_params c \<and> cx_fs c' = cx_fs c \<and> cx_year c' = cx_year c"
  by (auto simp: trace_add_def)

lemma warn_readD:
  "warn code d c = Inr (u, c') \<Longrightarrow> cx_params c' = cx_params c \<and> cx_fs c' = cx_fs c \<and> cx_year c' = cx_year c"
  "info code d c = Inr (u, c') \<Longrightarrow> cx_params c' = cx_params c \<and> cx_fs c' = cx_fs c \<and> cx_year c' = cx_year c"
  by (auto simp: warn_def info_def warn_sev_def)

lemma cwhen_readD:
  "cwhen b m c = Inr (u, c') \<Longrightarrow> (\<And>v d. m c = Inr (v, d) \<Longrightarrow> cx_params d = cx_params c \<and> cx_fs d = cx_fs c \<and> cx_year d = cx_year c) \<Longrightarrow>
   cx_params c' = cx_params c \<and> cx_fs c' = cx_fs c \<and> cx_year c' = cx_year c"
  by (auto simp: cwhen_def split: if_splits)

lemmas readD = p_money_readD p_rate_readD p_moneyFs_readD trace_add_readD warn_readD

text \<open>
  \<open>valE\<close> takes a run of a step apart for its value: what is read, what is bound, what is returned; the
  rows and warnings written on the way are dropped.
\<close>

lemma LetE:
  assumes "(let x = e in f x) c = r"
  obtains x where "x = e" "f x c = r"
  using assms by simp

lemma cretE:
  assumes "cret x c = Inr (y, c')"
  obtains "y = x" "c' = c"
  using assms by simp

lemma read_bindE:
  assumes "cbind m f c = Inr (y, c2)"
    and "\<And>x c'. m c = Inr (x, c') \<Longrightarrow> x = v \<and> cx_params c' = cx_params c \<and> cx_fs c' = cx_fs c \<and> cx_year c' = cx_year c"
  obtains c' where "cx_params c' = cx_params c" "cx_fs c' = cx_fs c" "cx_year c' = cx_year c" "f v c' = Inr (y, c2)"
  using assms(1) by (blast dest: assms(2))

lemma unit_bindE:
  assumes "cbind m f c = Inr (y, c2)"
    and "\<And>c'. m c = Inr ((), c') \<Longrightarrow> cx_params c' = cx_params c \<and> cx_fs c' = cx_fs c \<and> cx_year c' = cx_year c"
  obtains c' where "cx_params c' = cx_params c" "cx_fs c' = cx_fs c" "cx_year c' = cx_year c" "f () c' = Inr (y, c2)"
proof -
  from assms(1) obtain u c' where "m c = Inr (u, c')" "f u c' = Inr (y, c2)" by blast
  then show ?thesis using assms(2) [of c'] that [of c'] by (cases u) simp
qed

lemma money_bindE:
  assumes "cbind (p_money k) f c = Inr (y, c2)"
  obtains c' where "cx_params c' = cx_params c" "cx_fs c' = cx_fs c" "cx_year c' = cx_year c" "f (stored_num (cx_params c) k) c' = Inr (y, c2)"
  using assms by (rule read_bindE) (auto dest: p_money_readD)

lemma rate_bindE:
  assumes "cbind (p_rate k) f c = Inr (y, c2)"
  obtains c' where "cx_params c' = cx_params c" "cx_fs c' = cx_fs c" "cx_year c' = cx_year c" "f (stored_num (cx_params c) k) c' = Inr (y, c2)"
  using assms by (rule read_bindE) (auto dest: p_rate_readD)

lemma moneyFs_bindE:
  assumes "cbind (p_moneyFs k fs) f c = Inr (y, c2)"
  obtains c' where "cx_params c' = cx_params c" "cx_fs c' = cx_fs c" "cx_year c' = cx_year c" "f (stored_num (cx_params c) (filingStatusKey k fs)) c' = Inr (y, c2)"
  using assms by (rule read_bindE) (auto dest: p_moneyFs_readD)

lemma trace_bindE:
  assumes "cbind (trace_add r) f c = Inr (y, c2)"
  obtains c' where "cx_params c' = cx_params c" "cx_fs c' = cx_fs c" "cx_year c' = cx_year c" "f () c' = Inr (y, c2)"
  using assms by (rule unit_bindE) (erule trace_add_readD)

lemma warn_bindE:
  assumes "cbind (warn k d) f c = Inr (y, c2)"
  obtains c' where "cx_params c' = cx_params c" "cx_fs c' = cx_fs c" "cx_year c' = cx_year c" "f () c' = Inr (y, c2)"
  using assms by (rule unit_bindE) (erule warn_readD(1))

lemma info_bindE:
  assumes "cbind (info k d) f c = Inr (y, c2)"
  obtains c' where "cx_params c' = cx_params c" "cx_fs c' = cx_fs c" "cx_year c' = cx_year c" "f () c' = Inr (y, c2)"
  using assms by (rule unit_bindE) (erule warn_readD(2))

lemma when_trace_bindE:
  assumes "cbind (cwhen b (trace_add r)) f c = Inr (y, c2)"
  obtains c' where "cx_params c' = cx_params c" "cx_fs c' = cx_fs c" "cx_year c' = cx_year c" "f () c' = Inr (y, c2)"
  using assms by (rule unit_bindE) (erule cwhen_readD, erule trace_add_readD)

lemma when_warn_bindE:
  assumes "cbind (cwhen b (warn k d)) f c = Inr (y, c2)"
  obtains c' where "cx_params c' = cx_params c" "cx_fs c' = cx_fs c" "cx_year c' = cx_year c" "f () c' = Inr (y, c2)"
  using assms by (rule unit_bindE) (erule cwhen_readD, erule warn_readD(1))

lemma when_info_bindE:
  assumes "cbind (cwhen b (info k d)) f c = Inr (y, c2)"
  obtains c' where "cx_params c' = cx_params c" "cx_fs c' = cx_fs c" "cx_year c' = cx_year c" "f () c' = Inr (y, c2)"
  using assms by (rule unit_bindE) (erule cwhen_readD, erule warn_readD(2))

lemma p_read_readD:
  "p_read f k c = Inr (x, c') \<Longrightarrow> x = stored_with f (cx_params c) k \<and> cx_params c' = cx_params c \<and> cx_fs c' = cx_fs c \<and> cx_year c' = cx_year c"
  by (auto simp: p_read_def p_raw_def note_use_def stored_with_def stored_def split: option.splits)

lemma int_bindE:
  assumes "cbind (p_int k) f c = Inr (y, c2)"
  obtains c' where "cx_params c' = cx_params c" "cx_fs c' = cx_fs c" "cx_year c' = cx_year c" "f (stored_with as_int (cx_params c) k) c' = Inr (y, c2)"
  using assms unfolding p_int_def by (rule read_bindE) (auto dest: p_read_readD)

lemma intList_bindE:
  assumes "cbind (p_intList k) f c = Inr (y, c2)"
  obtains c' where "cx_params c' = cx_params c" "cx_fs c' = cx_fs c" "cx_year c' = cx_year c"
    "f (stored_with (as_list is_integer (\<lambda>v. \<lfloor>num_of v\<rfloor>) ''a list of integers'') (cx_params c) k) c' = Inr (y, c2)"
  using assms unfolding p_intList_def by (rule read_bindE) (auto dest: p_read_readD)

lemma moneyList_bindE:
  assumes "cbind (p_moneyList k) f c = Inr (y, c2)"
  obtains c' where "cx_params c' = cx_params c" "cx_fs c' = cx_fs c" "cx_year c' = cx_year c"
    "f (stored_with (as_list is_num num_of ''a list of numbers'') (cx_params c) k) c' = Inr (y, c2)"
  using assms unfolding p_moneyList_def by (rule read_bindE) (auto dest: p_read_readD)

lemma bracketsFs_bindE:
  assumes "cbind (p_bracketsFs k fs) f c = Inr (y, c2)"
  obtains c' where "cx_params c' = cx_params c" "cx_fs c' = cx_fs c" "cx_year c' = cx_year c"
    "f (stored_with as_brackets (cx_params c) (filingStatusKey k fs)) c' = Inr (y, c2)"
  using assms unfolding p_bracketsFs_def p_brackets_def by (rule read_bindE) (auto dest: p_read_readD)

lemma clift_bindE:
  assumes "cbind (clift r) f c = Inr (y, c2)"
  obtains x where "r = Inr x" "f x c = Inr (y, c2)"
  using assms by auto

lemma cget_fs_bindE:
  assumes "cbind (cget g) f c = Inr (y, c2)"
  obtains "f (g c) c = Inr (y, c2)"
  using assms by (simp add: cbind_def)

lemmas valE = money_bindE rate_bindE moneyFs_bindE int_bindE intList_bindE moneyList_bindE bracketsFs_bindE clift_bindE trace_bindE warn_bindE info_bindE when_trace_bindE
  when_warn_bindE when_info_bindE cget_fs_bindE LetE cretE

subsection \<open>Validation and reading\<close>

lemma emap_total: "list_all (\<lambda>x. \<exists>y. f x = Inr y) xs \<Longrightarrow> \<exists>ys. emap f xs = Inr ys"
  by (induction xs) auto

lemma check_brackets_rows:
  "check_brackets i prev rows = None \<Longrightarrow> list_all (\<lambda>v. \<exists>b. as_bracket k v = Inr b) rows"
proof (induction i prev rows rule: check_brackets.induct)
  case (1 i prev)
  show ?case by simp
next
  case (2 i prev row rows)
  from 2(2) obtain u r where row: "row = JArr [u, JNum r]" "\<not> r < 0"
    by (auto split: json.splits list.splits if_splits)
  show ?case
  proof (cases "rows = []")
    case True
    with 2(2) row show ?thesis by (auto simp: as_bracket_def split: if_splits)
  next
    case False
    with 2(2) row obtain q where q: "u = JNum q" "\<not> q \<le> prev" "check_brackets (Suc i) q rows = None"
      by (auto split: json.splits if_splits)
    have "list_all (\<lambda>v. \<exists>b. as_bracket k v = Inr b) rows"
      using 2(1) row False q by auto
    with row q show ?thesis by (simp add: as_bracket_def)
  qed
qed

text \<open>The reader of each parameter type, for the statement below.\<close>

definition readable :: "param_type \<Rightarrow> string \<Rightarrow> json \<Rightarrow> bool" where
  "readable t k v = (case t of
      PMoney \<Rightarrow> (\<exists>x. as_number k v = Inr x)
    | PRate \<Rightarrow> (\<exists>x. as_number k v = Inr x)
    | PInt \<Rightarrow> (\<exists>x. as_int k v = Inr x)
    | PDate \<Rightarrow> (\<exists>x. as_date k v = Inr x)
    | PMonthDay \<Rightarrow> is_month_day_text v
    | PMoneyList \<Rightarrow> (\<exists>x. as_list is_num num_of ''a list of numbers'' k v = Inr x)
    | PRateList \<Rightarrow> (\<exists>x. as_list is_num num_of ''a list of numbers'' k v = Inr x)
    | PNumberList \<Rightarrow> (\<exists>x. as_list is_num num_of ''a list of numbers'' k v = Inr x)
    | PIntList \<Rightarrow> (\<exists>x. as_list is_integer (\<lambda>v. \<lfloor>num_of v\<rfloor>) ''a list of integers'' k v = Inr x)
    | PDateList \<Rightarrow> (\<exists>x. as_list is_iso_text text_of ''a list of YYYY-MM-DD dates'' k v = Inr x)
    | PMonthDayList \<Rightarrow> (\<exists>x. as_list is_month_day_text text_of ''a list of MM-DD values'' k v = Inr x)
    | PBracketTable \<Rightarrow> (\<exists>x. as_brackets k v = Inr x)
    | PRatePeriodList \<Rightarrow> (\<exists>x. as_rate_periods k v = Inr x))"

lemma check_list_None: "check_list P what v = None \<longleftrightarrow> (\<exists>xs. v = JArr xs \<and> xs \<noteq> [] \<and> list_all P xs)"
  by (auto simp: check_list_def split: json.splits)

lemma rate_period_readable: "is_rate_period v \<Longrightarrow> \<exists>x. as_rate_period k v = Inr x"
  by (auto simp: is_rate_period_def as_rate_period_def is_nonneg_num_def split: option.splits json.splits)

lemma nonneg_is_num: "list_all is_nonneg_num xs \<Longrightarrow> list_all is_num xs"
  by (erule list.pred_mono_strong) (auto simp: is_nonneg_num_def is_num_def split: json.splits)

text \<open>
  C12: a parameter value that \<open>validateParameterValue\<close> accepts can be read: the \<open>ParameterReader\<close>
  accessor of its type returns a value and never throws \<open>TE_PARAM_INVALID\<close>.
\<close>

theorem validated_reads:
  assumes "validateParameterValue t v = None"
  shows "readable t k v"
proof (cases t)
  case PBracketTable
  with assms obtain rows where v: "v = JArr rows" "rows \<noteq> []" "check_brackets 0 (-1) rows = None"
    by (auto simp: validateParameterValue_def split: json.splits if_splits)
  then have "\<exists>ys. emap (as_bracket k) rows = Inr ys"
    by (intro emap_total check_brackets_rows)
  with v PBracketTable show ?thesis by (simp add: readable_def as_brackets_def)
next
  case PRatePeriodList
  with assms obtain xs where v: "v = JArr xs" "xs \<noteq> []" "list_all is_rate_period xs"
    by (auto simp: validateParameterValue_def check_list_None)
  then have "\<exists>ys. emap (as_rate_period k) xs = Inr ys"
    by (intro emap_total) (auto simp: list_all_iff rate_period_readable)
  with v PRatePeriodList show ?thesis by (simp add: readable_def as_rate_periods_def)
qed (use assms in \<open>auto simp: validateParameterValue_def readable_def check_list_None as_list_def as_number_def as_int_def
    as_date_def nonneg_is_num is_nonneg_num_def is_integer_def split: json.splits if_splits\<close>)

lemma validated_reads_witness:
  "readable PBracketTable ''brackets.mfj'' (JArr [JArr [JNum 23850, JNum (1 / 10)], JArr [JNull, JNum (12 / 100)]])"
  by (rule validated_reads) (simp add: validateParameterValue_def)

end
