(* ===== verification/RegularTax.thy ===== *)
theory RegularTax
  imports EngineBase
begin

section \<open>Regular tax (engine/bracket-tax.ts)\<close>

text \<open>
  Step 11 of the federal calculation: ordinary brackets, the Schedule D Tax Worksheet for qualified
  dividends and long-term gains, and the effective-rate override.
\<close>

subsection \<open>Ordinary brackets\<close>

text \<open>The loop of \<open>bracketTax\<close> with its state \<open>tax\<close>, \<open>lower\<close>.\<close>

fun bracketTaxFrom :: "money \<Rightarrow> money \<Rightarrow> money \<Rightarrow> bracket_row list \<Rightarrow> money" where
  "bracketTaxFrom income lower tax [] = tax"
| "bracketTaxFrom income lower tax (b # bs) =
    (let upper = (case br_upper b of None \<Rightarrow> income | Some u \<Rightarrow> min u income) in
     if income \<le> lower then tax
     else let tax' = tax + (upper - lower) * br_rate b in
       case br_upper b of
         None \<Rightarrow> tax'
       | Some u \<Rightarrow> if income \<le> u then tax' else bracketTaxFrom income u tax' bs)"

definition bracketTax :: "money \<Rightarrow> bracket_row list \<Rightarrow> money" where
  "bracketTax income bs = (if 0 < income then bracketTaxFrom income 0 0 bs else 0)"

record bracket_slice =
  sl_index :: nat
  sl_lower :: money
  sl_upper :: "money option"
  sl_rate :: money
  sl_taxable :: money
  sl_tax :: money

fun bracketSlicesFrom :: "money \<Rightarrow> money \<Rightarrow> nat \<Rightarrow> bracket_row list \<Rightarrow> bracket_slice list" where
  "bracketSlicesFrom income lower i [] = []"
| "bracketSlicesFrom income lower i (b # bs) =
    (if income \<le> lower then []
     else let top = (case br_upper b of None \<Rightarrow> income | Some u \<Rightarrow> min u income);
              taxable = top - lower in
       \<lparr>sl_index = i + 1, sl_lower = lower, sl_upper = br_upper b, sl_rate = br_rate b,
         sl_taxable = taxable, sl_tax = taxable * br_rate b\<rparr> #
       (case br_upper b of
         None \<Rightarrow> []
       | Some u \<Rightarrow> if income \<le> u then [] else bracketSlicesFrom income u (i + 1) bs))"

definition bracketSlices :: "money \<Rightarrow> bracket_row list \<Rightarrow> bracket_slice list" where
  "bracketSlices income bs = (if 0 < income then bracketSlicesFrom income 0 0 bs else [])"

definition traceBrackets :: "string \<Rightarrow> money \<Rightarrow> bracket_row list \<Rightarrow> string \<Rightarrow> unit eng" where
  "traceBrackets idPrefix income bs bracketsKey =
    cdo (\<lambda>s. trace_add ((row ''regular_tax'' (idPrefix @ ''.bracket.'' @ show_nat (sl_index s)) (sl_tax s) SrcParameter)
        \<lparr>tr_keys := Some [bracketsKey], tr_marginal := Some (sl_rate s)\<rparr>)) (bracketSlices income bs)"

text \<open>An empty table makes the fallback read a property of \<open>undefined\<close>.\<close>

definition marginalBracketRate :: "money \<Rightarrow> bracket_row list \<Rightarrow> money result" where
  "marginalBracketRate income bs =
    (case find (\<lambda>b. case br_upper b of None \<Rightarrow> True | Some u \<Rightarrow> income \<le> u) bs of
       Some b \<Rightarrow> Inr (br_rate b)
     | None \<Rightarrow> if bs = [] then Inl (JsError ''TypeError'' []) else Inr (br_rate (last bs)))"

subsection \<open>Schedule D Tax Worksheet\<close>

datatype rate_mode = RmBrackets | RmEffective

record regular_tax_input =
  ri_taxableIncome :: money
  ri_qualifiedDividends :: money
  ri_netLongTermGain :: money
  ri_unrecaptured1250 :: money
  ri_collectibles :: money
  ri_rateMode :: rate_mode
  ri_effectiveRateOverride :: "money option"

record worksheet =
  ws_qualifiedDividends :: money
  ws_netLongTermGain :: money
  ws_preferentialIncome :: money
  ws_unrecaptured1250 :: money
  ws_collectibles :: money
  ws_taxedAtZero :: money
  ws_taxedAtFifteen :: money
  ws_taxedAtTwenty :: money
  ws_taxedAtTwentyFive :: money
  ws_taxedAtTwentyEight :: money
  ws_ordinaryPortion :: money
  ws_ordinaryTax :: money
  ws_preferentialTax :: money
  ws_worksheetTax :: money
  ws_allOrdinaryTax :: money

record regular_tax =
  rg_method :: rate_mode
  rg_taxableIncome :: money
  rg_tax :: money
  rg_marginalOrdinaryRate :: money
  rg_marginalCapitalGainRate :: money
  rg_effectiveRate :: money
  rg_worksheet :: "worksheet option"

text \<open>\<open>xs[i]!\<close>: the element, or \<open>undefined\<close>, on which the next decimal operation throws.\<close>

definition elem_at :: "'a list \<Rightarrow> nat \<Rightarrow> 'a result" where
  "elem_at xs i = (if i < length xs then Inr (xs ! i) else Inl (JsError ''Invalid decimal: undefined'' []))"

definition capitalGainWorksheet :: "money \<Rightarrow> money \<Rightarrow> money \<Rightarrow> money \<Rightarrow> money \<Rightarrow> bracket_row list \<Rightarrow>
    money list \<Rightarrow> money list \<Rightarrow> money \<Rightarrow> money \<Rightarrow> worksheet result" where
  "capitalGainWorksheet ti qd netLtcg unrecap coll brackets breakpoints rates rate25 rate28 =
    ebind (elem_at breakpoints 0) (\<lambda>zeroBreak. ebind (elem_at breakpoints 1) (\<lambda>fifteenBreak.
    ebind (elem_at rates 0) (\<lambda>rateZero. ebind (elem_at rates 1) (\<lambda>rateFifteen. ebind (elem_at rates (length rates - 1)) (\<lambda>rateTwenty.
    let line9 = floor0 netLtcg;
        line10 = floor0 qd + line9;
        line11 = floor0 unrecap + floor0 coll;
        line12 = min line9 line11;
        line13 = line10 - line12;
        line14 = floor0 (ti - line13);
        line16 = min ti zeroBreak;
        line17 = min line14 line16;
        line18 = floor0 (ti - line10);
        line19 = max line17 line18;
        line20 = line16 - line17;
        line21 = min ti line13;
        line23 = line21 - line20;
        line25 = min ti fifteenBreak;
        line26 = line19 + line20;
        line27 = floor0 (line25 - line26);
        line28 = min line23 line27;
        line30 = line20 + line28;
        line31 = floor0 (line21 - line30);
        line33 = min line9 (floor0 unrecap);
        line34 = line10 + line19;
        line36 = floor0 (line34 - ti);
        line37 = floor0 (line33 - line36);
        line39 = line19 + line20 + line28 + line31 + line37;
        line40 = (if 0 < coll then floor0 (ti - line39) else 0);
        ordinaryTax = bracketTax line19 brackets;
        preferentialTax = line20 * rateZero + line28 * rateFifteen + line31 * rateTwenty + line37 * rate25 + line40 * rate28
    in Inr \<lparr>ws_qualifiedDividends = qd, ws_netLongTermGain = line9, ws_preferentialIncome = line10,
         ws_unrecaptured1250 = unrecap, ws_collectibles = coll,
         ws_taxedAtZero = line20, ws_taxedAtFifteen = line28, ws_taxedAtTwenty = line31,
         ws_taxedAtTwentyFive = line37, ws_taxedAtTwentyEight = line40,
         ws_ordinaryPortion = line19, ws_ordinaryTax = ordinaryTax, ws_preferentialTax = preferentialTax,
         ws_worksheetTax = ordinaryTax + preferentialTax, ws_allOrdinaryTax = bracketTax ti brackets\<rparr>)))))"

subsection \<open>The step\<close>

definition effective_rate :: "money \<Rightarrow> money \<Rightarrow> money result" where
  "effective_rate tax ti = (if 0 < ti then ebind (quo tax ti) (\<lambda>q. Inr (rnd 6 q)) else Inr 0)"

definition regularTaxOverride :: "money \<Rightarrow> money \<Rightarrow> regular_tax eng" where
  "regularTaxOverride ti rate =
    (let positiveTi = floor0 ti; tax = positiveTi * rate in
     cbind (warn ''TE_EFFECTIVE_RATE_OVERRIDE'' (Some [(''rate'', DAmt rate)])) (\<lambda>_.
     cbind (trace_add ((row ''regular_tax'' ''regular_tax'' tax SrcInput)\<lparr>tr_marginal := Some rate\<rparr>)) (\<lambda>_.
     cbind (clift (effective_rate tax positiveTi)) (\<lambda>eff.
     cret \<lparr>rg_method = RmEffective, rg_taxableIncome = ti, rg_tax = tax, rg_marginalOrdinaryRate = rate,
       rg_marginalCapitalGainRate = 0, rg_effectiveRate = eff, rg_worksheet = None\<rparr>))))"

definition regularTaxOrdinary :: "money \<Rightarrow> bracket_row list \<Rightarrow> string \<Rightarrow> regular_tax eng" where
  "regularTaxOrdinary ti brackets bracketsKey =
    (let positiveTi = floor0 ti; tax = bracketTax positiveTi brackets in
     cbind (clift (marginalBracketRate positiveTi brackets)) (\<lambda>marginal.
     cbind (traceBrackets ''regular_tax'' positiveTi brackets bracketsKey) (\<lambda>_.
     cbind (trace_add ((row ''regular_tax'' ''regular_tax'' tax SrcParameter)
         \<lparr>tr_keys := Some [bracketsKey], tr_marginal := Some marginal\<rparr>)) (\<lambda>_.
     cbind (clift (effective_rate tax positiveTi)) (\<lambda>eff.
     cret \<lparr>rg_method = RmBrackets, rg_taxableIncome = ti, rg_tax = tax, rg_marginalOrdinaryRate = marginal,
       rg_marginalCapitalGainRate = 0, rg_effectiveRate = eff, rg_worksheet = None\<rparr>)))))"

definition regularTaxWorksheet :: "regular_tax_input \<Rightarrow> filing_status \<Rightarrow> bracket_row list \<Rightarrow> regular_tax eng" where
  "regularTaxWorksheet input fs brackets =
    (let ti = ri_taxableIncome input; positiveTi = floor0 ti;
         qd = floor0 (ri_qualifiedDividends input); ltcg = floor0 (ri_netLongTermGain input);
         bracketsKey = ''brackets.'' @ fs_text fs; breakpointsKey = ''ltcg.breakpoints.'' @ fs_text fs;
         ks = [bracketsKey, breakpointsKey, ''ltcg.rates'', ''unrecaptured_1250_rate'', ''collectibles_rate''] in
     cbind (p_moneyListFs ''ltcg.breakpoints'' fs) (\<lambda>breakpoints.
     cbind (p_rateList ''ltcg.rates'') (\<lambda>rates.
     cbind (p_rate ''unrecaptured_1250_rate'') (\<lambda>rate25.
     cbind (p_rate ''collectibles_rate'') (\<lambda>rate28.
     cbind (clift (capitalGainWorksheet positiveTi qd ltcg (floor0 (ri_unrecaptured1250 input))
         (floor0 (ri_collectibles input)) brackets breakpoints rates rate25 rate28)) (\<lambda>w.
     let tax = min (ws_worksheetTax w) (ws_allOrdinaryTax w) in
     cbind (clift (marginalBracketRate (ws_ordinaryPortion w) brackets)) (\<lambda>marginalOrdinary.
     cbind (clift (if 0 < ws_taxedAtTwenty w then elem_at rates (length rates - 1)
         else if 0 < ws_taxedAtFifteen w then elem_at rates 1 else elem_at rates 0)) (\<lambda>marginalCapital.
     cbind (traceBrackets ''regular_tax.ordinary'' (ws_ordinaryPortion w) brackets bracketsKey) (\<lambda>_.
     cbind (trace_add ((row ''regular_tax'' ''regular_tax.ordinary'' (ws_ordinaryTax w) SrcParameter)
         \<lparr>tr_keys := Some [bracketsKey], tr_marginal := Some marginalOrdinary\<rparr>)) (\<lambda>_.
     cbind (trace_add ((row ''regular_tax'' ''regular_tax.preferential'' (ws_preferentialTax w) SrcParameter)
         \<lparr>tr_keys := Some ks, tr_marginal := Some marginalCapital\<rparr>)) (\<lambda>_.
     cbind (trace_add ((row ''regular_tax'' ''regular_tax'' tax SrcParameter)
         \<lparr>tr_keys := Some ks, tr_marginal := Some marginalOrdinary\<rparr>)) (\<lambda>_.
     cbind (clift (ebind (quo tax positiveTi) (\<lambda>q. Inr (rnd 6 q)))) (\<lambda>eff.
     cret \<lparr>rg_method = RmBrackets, rg_taxableIncome = ti, rg_tax = tax, rg_marginalOrdinaryRate = marginalOrdinary,
       rg_marginalCapitalGainRate = marginalCapital, rg_effectiveRate = eff, rg_worksheet = Some w\<rparr>)))))))))))))"

definition computeRegularTax :: "regular_tax_input \<Rightarrow> regular_tax eng" where
  "computeRegularTax input =
    cbind (cget cx_fs) (\<lambda>fs.
    let ti = ri_taxableIncome input; positiveTi = floor0 ti in
    cbind (cwhen (ri_rateMode input = RmEffective \<and> ri_effectiveRateOverride input = None)
      (warn ''TE_EFFECTIVE_RATE_MISSING'' None)) (\<lambda>_.
    case (if ri_rateMode input = RmEffective then ri_effectiveRateOverride input else None) of
      Some rate \<Rightarrow> regularTaxOverride ti rate
    | None \<Rightarrow>
        cbind (p_bracketsFs ''brackets'' fs) (\<lambda>brackets.
        let qd = floor0 (ri_qualifiedDividends input); ltcg = floor0 (ri_netLongTermGain input) in
        if 0 < positiveTi \<and> (0 < qd \<or> 0 < ltcg)
        then regularTaxWorksheet input fs brackets
        else regularTaxOrdinary ti brackets (''brackets.'' @ fs_text fs))))"

subsection \<open>The bracket walk against the slope of the tax\<close>

text \<open>
  \<open>progressive l r bs\<close>: the table continues from the lower bound \<open>l\<close> with upper bounds that increase,
  rates that do not fall below \<open>r\<close> nor below each other, and a last row without upper bound.
\<close>

fun progressive :: "money \<Rightarrow> money \<Rightarrow> bracket_row list \<Rightarrow> bool" where
  "progressive l r [] = False"
| "progressive l r (b # bs) = (r \<le> br_rate b \<and>
    (case br_upper b of None \<Rightarrow> bs = [] | Some u \<Rightarrow> l < u \<and> progressive u (br_rate b) bs))"

definition tax_above :: "money \<Rightarrow> money \<Rightarrow> bracket_row list \<Rightarrow> money" where
  "tax_above l x bs = bracketTaxFrom x l 0 bs"

lemma bracketTaxFrom_acc: "bracketTaxFrom x l t bs = t + tax_above l x bs"
proof (induction bs arbitrary: l t)
  case Nil
  show ?case by (simp add: tax_above_def)
next
  case (Cons b bs)
  show ?case
  proof (cases "br_upper b")
    case None
    then show ?thesis by (simp add: tax_above_def)
  next
    case (Some u)
    then show ?thesis
      using Cons.IH [of u "t + (u - l) * br_rate b"] Cons.IH [of u "(u - l) * br_rate b"]
      by (simp add: tax_above_def Let_def)
  qed
qed

lemma tax_above_Cons:
  "tax_above l x (b # bs) = (if x \<le> l then 0 else case br_upper b of
      None \<Rightarrow> (x - l) * br_rate b
    | Some u \<Rightarrow> if x \<le> u then (x - l) * br_rate b else (u - l) * br_rate b + tax_above u x bs)"
proof (cases "br_upper b")
  case None
  then show ?thesis by (simp add: tax_above_def)
next
  case (Some u)
  then show ?thesis
    using bracketTaxFrom_acc [of x u "(u - l) * br_rate b" bs] by (simp add: tax_above_def Let_def)
qed

lemma bracketTax_above: "bracketTax x bs = (if 0 < x then tax_above 0 x bs else 0)"
  by (simp add: bracketTax_def tax_above_def)

lemma tax_above_ge: "progressive l r bs \<Longrightarrow> l \<le> x \<Longrightarrow> r * (x - l) \<le> tax_above l x bs"
proof (induction l r bs rule: progressive.induct)
  case (1 l r)
  then show ?case by simp
next
  case (2 l r b bs)
  have rate: "r \<le> br_rate b" using 2 by simp
  have first: "r * (y - l) \<le> (y - l) * br_rate b" if "l \<le> y" for y
    using rate that by (simp add: mult.commute mult_right_mono)
  show ?case
  proof (cases "br_upper b")
    case None
    with 2 first [of x] show ?thesis by (simp add: tax_above_Cons)
  next
    case (Some u)
    with 2 have u: "l < u" "progressive u (br_rate b) bs" by simp_all
    show ?thesis
    proof (cases "x \<le> u")
      case True
      with Some 2 first [of x] show ?thesis by (simp add: tax_above_Cons)
    next
      case False
      then have "br_rate b * (x - u) \<le> tax_above u x bs" using 2(1) [OF Some] u by simp
      moreover have "r * (x - u) \<le> br_rate b * (x - u)" using rate False by (simp add: mult_right_mono)
      moreover have "r * (u - l) \<le> (u - l) * br_rate b" using first u by simp
      moreover have "r * (x - l) = r * (u - l) + r * (x - u)" by (simp add: algebra_simps)
      ultimately have "r * (x - l) \<le> (u - l) * br_rate b + tax_above u x bs" by linarith
      with Some False u show ?thesis by (simp add: tax_above_Cons)
    qed
  qed
qed

definition marginal :: "money \<Rightarrow> bracket_row list \<Rightarrow> money" where
  "marginal x bs = (case marginalBracketRate x bs of Inr m \<Rightarrow> m | Inl _ \<Rightarrow> 0)"

lemma marginal_Cons:
  "marginal x (b # bs) = (case br_upper b of None \<Rightarrow> br_rate b
     | Some u \<Rightarrow> if x \<le> u then br_rate b else if bs = [] then br_rate b else marginal x bs)"
  by (auto simp: marginal_def marginalBracketRate_def split: option.split)

lemma progressive_nonempty: "progressive l r bs \<Longrightarrow> bs \<noteq> []"
  by (cases bs) simp_all

lemma marginal_ge: "progressive l r bs \<Longrightarrow> r \<le> marginal x bs"
proof (induction l r bs rule: progressive.induct)
  case (2 l r b bs)
  show ?case
  proof (cases "br_upper b")
    case (Some u)
    with 2 have "r \<le> br_rate b" "bs \<noteq> []" "br_rate b \<le> marginal x bs" by (auto dest: progressive_nonempty)
    with Some show ?thesis by (simp add: marginal_Cons)
  qed (use 2 in \<open>simp add: marginal_Cons\<close>)
qed simp

lemma tax_above_le: "progressive l r bs \<Longrightarrow> l \<le> x \<Longrightarrow> tax_above l x bs \<le> marginal x bs * (x - l)"
proof (induction l r bs rule: progressive.induct)
  case (2 l r b bs)
  show ?case
  proof (cases "br_upper b")
    case None
    with 2 show ?thesis by (simp add: tax_above_Cons marginal_Cons mult.commute)
  next
    case (Some u)
    with 2 have u: "l < u" "progressive u (br_rate b) bs" "bs \<noteq> []" by (auto dest: progressive_nonempty)
    show ?thesis
    proof (cases "x \<le> u")
      case True
      with Some 2 show ?thesis by (simp add: tax_above_Cons marginal_Cons mult.commute)
    next
      case False
      then have "tax_above u x bs \<le> marginal x bs * (x - u)" using 2(1) [OF Some] u by simp
      moreover have "(u - l) * br_rate b \<le> (u - l) * marginal x bs"
        using marginal_ge [OF u(2), of x] u(1) by (intro mult_left_mono) simp_all
      moreover have "marginal x bs * (x - l) = (u - l) * marginal x bs + marginal x bs * (x - u)"
        by (simp add: algebra_simps)
      ultimately have "(u - l) * br_rate b + tax_above u x bs \<le> marginal x bs * (x - l)" by linarith
      with Some False u show ?thesis by (simp add: tax_above_Cons marginal_Cons)
    qed
  qed
qed simp

lemma tax_above_slope:
  assumes "progressive l r bs" "l \<le> x" "x \<le> y"
  shows "marginal x bs * (y - x) \<le> tax_above l y bs - tax_above l x bs \<and>
    tax_above l y bs - tax_above l x bs \<le> marginal y bs * (y - x)"
  using assms
proof (induction l r bs rule: progressive.induct)
  case (2 l r b bs)
  show ?case
  proof (cases "br_upper b")
    case None
    with 2 show ?thesis
      by (cases "x = l"; cases "y = l") (auto simp: tax_above_Cons marginal_Cons algebra_simps)
  next
    case (Some u)
    with 2 have u: "l < u" "progressive u (br_rate b) bs" "bs \<noteq> []" by (auto dest: progressive_nonempty)
    consider "y \<le> u" | "x \<le> u" "u < y" | "u < x" by linarith
    then show ?thesis
    proof cases
      case 1
      with Some 2 show ?thesis
        by (cases "x = l"; cases "y = l") (auto simp: tax_above_Cons marginal_Cons algebra_simps)
    next
      case 2
      have y: "tax_above l y (b # bs) = (u - l) * br_rate b + tax_above u y bs" "marginal y (b # bs) = marginal y bs"
        using Some 2 u by (simp_all add: tax_above_Cons marginal_Cons)
      have x: "tax_above l x (b # bs) = (x - l) * br_rate b" "marginal x (b # bs) = br_rate b"
        using Some 2 u \<open>l \<le> x\<close> by (auto simp: tax_above_Cons marginal_Cons)
      have "br_rate b * (y - u) \<le> tax_above u y bs" "tax_above u y bs \<le> marginal y bs * (y - u)"
        using tax_above_ge [OF u(2)] tax_above_le [OF u(2)] 2 by simp_all
      moreover have "br_rate b * (u - x) \<le> marginal y bs * (u - x)"
        using marginal_ge [OF u(2), of y] 2 by (intro mult_right_mono) simp_all
      ultimately show ?thesis unfolding x y by (simp add: algebra_simps)
    next
      case 3
      have "marginal x bs * (y - x) \<le> tax_above u y bs - tax_above u x bs \<and>
          tax_above u y bs - tax_above u x bs \<le> marginal y bs * (y - x)"
        using 2(1) [OF Some] u 3 2(4) by simp
      with Some 3 u 2(4) show ?thesis by (simp add: tax_above_Cons marginal_Cons)
    qed
  qed
qed simp

subsection \<open>Properties\<close>

text \<open>
  C13: on a progressive table the bracket tax has the reported marginal rate as its slope: for two
  incomes the tax of the higher exceeds that of the lower by at least the marginal rate at the lower
  and at most the marginal rate at the higher times the difference; so it is monotone, continuous and
  convex, and no rise of income costs more than the rise times the top rate reached.
\<close>

theorem bracketTax_slope:
  assumes "progressive 0 0 bs" "0 \<le> x" "x \<le> y"
  shows "\<exists>mx my. marginalBracketRate x bs = Inr mx \<and> marginalBracketRate y bs = Inr my \<and> 0 \<le> mx \<and>
    mx * (y - x) \<le> bracketTax y bs - bracketTax x bs \<and> bracketTax y bs - bracketTax x bs \<le> my * (y - x)"
proof -
  have m: "marginalBracketRate z bs = Inr (marginal z bs)" for z
    using progressive_nonempty [OF assms(1)] by (simp add: marginal_def marginalBracketRate_def split: option.split)
  have z: "tax_above 0 0 bs = 0" by (cases bs) (simp_all add: tax_above_def)
  have "bracketTax z bs = tax_above 0 z bs" if "0 \<le> z" for z
    using that z by (cases "z = 0") (simp_all add: bracketTax_above)
  with assms tax_above_slope [OF assms] marginal_ge [OF assms(1), of x] m show ?thesis by auto
qed

definition two_brackets :: "bracket_row list" where
  "two_brackets = [\<lparr>br_upper = Some 10000, br_rate = 1 / 10\<rparr>, \<lparr>br_upper = None, br_rate = 1 / 5\<rparr>]"

lemma bracketTax_slope_witness:
  "\<exists>mx my. marginalBracketRate 10000 two_brackets = Inr mx \<and> marginalBracketRate 15000 two_brackets = Inr my \<and>
    mx * 5000 \<le> 1000 \<and> 1000 \<le> my * 5000"
proof -
  have "bracketTax 15000 two_brackets - bracketTax 10000 two_brackets = 1000"
    by (simp add: two_brackets_def bracketTax_def)
  moreover have "progressive 0 0 two_brackets" by (simp add: two_brackets_def)
  ultimately show ?thesis using bracketTax_slope [of two_brackets 10000 15000] by auto
qed

lemma bracketSlicesFrom_sum:
  "(\<Sum>s\<leftarrow>bracketSlicesFrom x l i bs. sl_tax s) = tax_above l x bs"
  by (induction x l i bs rule: bracketSlicesFrom.induct) (auto simp: tax_above_Cons tax_above_def [of _ _ "[]"] Let_def split: option.split)

text \<open>
  C14: the bracket rows of the trace account for the tax: the taxes of the slices add up to
  \<open>bracketTax\<close> for every income and every table, well formed or not.
\<close>

theorem bracketSlices_sum: "(\<Sum>s\<leftarrow>bracketSlices income bs. sl_tax s) = bracketTax income bs"
  by (simp add: bracketSlices_def bracketTax_above bracketSlicesFrom_sum)

subsection \<open>The worksheet partitions the taxable income\<close>

lemma slice_0: fixes a b d q :: rat
  assumes "0 \<le> a" "0 \<le> b" "0 \<le> d" "0 \<le> q"
  shows "0 \<le> min a (b + d)" "min a (b + d) \<le> q + a" "0 \<le> min a b" "min a b \<le> min a (b + d)"
  using assms by (auto simp: min_def)

lemma slice_1: fixes ti l13 z :: rat
  assumes "0 < ti" "0 \<le> l13" "0 \<le> z"
  defines "l14 \<equiv> floor0 (ti - l13)" and "l16 \<equiv> min ti z" and "l21 \<equiv> min ti l13"
  shows "0 \<le> l16 - min l14 l16" "l16 - min l14 l16 \<le> l21"
  using assms by (auto simp: min_def max_def floor0_def)

lemma slice_2: fixes l20 l21 l27 :: rat
  assumes "0 \<le> l20" "l20 \<le> l21" "0 \<le> l27"
  defines "l28 \<equiv> min (l21 - l20) l27"
  shows "0 \<le> l28" "l20 + l28 + floor0 (l21 - (l20 + l28)) = l21"
  using assms by (auto simp: min_def max_def floor0_def)

lemma slice_3: fixes ti l10 l12 l33 z :: rat
  assumes "0 < ti" "l12 \<le> l10" "0 \<le> l12" "0 \<le> z" "0 \<le> l33" "l33 \<le> l12"
  defines "l14 \<equiv> floor0 (ti - (l10 - l12))" and "l16 \<equiv> min ti z"
  defines "l19 \<equiv> max (min l14 l16) (floor0 (ti - l10))"
  defines "l37 \<equiv> floor0 (l33 - floor0 (l10 + l19 - ti))"
  shows "0 \<le> l19" "l19 + min ti (l10 - l12) + l37 \<le> ti"
    "l33 = l12 \<Longrightarrow> l19 + min ti (l10 - l12) + l37 = ti"
  using assms by (auto simp: min_def max_def floor0_def)

text \<open>The worksheet's lines, by name, from the value it returns.\<close>

lemma Let_eq_iff: "(let x = e in f x) = r \<longleftrightarrow> (\<exists>x. x = e \<and> f x = r)"
  by simp

lemma worksheet_linesE:
  assumes "capitalGainWorksheet ti qd lt un co bs bp rates r25 r28 = Inr w"
  obtains l10 l12 l16 l17 l19 l20 l21 l27 l28 l31 l33 l37 l39 where
    "l10 = floor0 qd + floor0 lt" "l12 = min (floor0 lt) (floor0 un + floor0 co)"
    "l33 = min (floor0 lt) (floor0 un)" "l16 = min ti (bp ! 0)"
    "l17 = min (floor0 (ti - (l10 - l12))) l16" "l19 = max l17 (floor0 (ti - l10))" "l20 = l16 - l17"
    "l21 = min ti (l10 - l12)" "l27 = floor0 (min ti (bp ! 1) - (l19 + l20))" "l28 = min (l21 - l20) l27"
    "l31 = floor0 (l21 - (l20 + l28))" "l37 = floor0 (l33 - floor0 (l10 + l19 - ti))"
    "l39 = l19 + l20 + l28 + l31 + l37"
    "ws_ordinaryPortion w = l19" "ws_taxedAtZero w = l20" "ws_taxedAtFifteen w = l28" "ws_taxedAtTwenty w = l31"
    "ws_taxedAtTwentyFive w = l37" "ws_taxedAtTwentyEight w = (if 0 < co then floor0 (ti - l39) else 0)"
    "ws_allOrdinaryTax w = bracketTax ti bs"
proof -
  have bp: "elem_at bp 0 = Inr zb \<Longrightarrow> zb = bp ! 0" "elem_at bp 1 = Inr fb \<Longrightarrow> fb = bp ! 1" for zb fb
    by (auto simp: elem_at_def split: if_splits)
  show ?thesis
    using assms unfolding capitalGainWorksheet_def ebind_Inr_iff Let_eq_iff
    apply (elim exE conjE)
    apply (drule bp(1), drule bp(2))
    apply (rule that [OF refl refl refl refl refl refl refl refl refl refl refl refl refl])
    apply (drule sum.inject(2) [THEN iffD1], hypsubst, simp only: worksheet.simps)+
    done
qed

lemma worksheet_partition_lemma:
  assumes w: "capitalGainWorksheet ti qd lt un co bs bp rates r25 r28 = Inr w" and ti: "0 < ti" and z: "0 \<le> bp ! 0"
  shows "0 \<le> ws_ordinaryPortion w" "0 \<le> ws_taxedAtZero w" "0 \<le> ws_taxedAtFifteen w" "0 \<le> ws_taxedAtTwenty w"
    "0 \<le> ws_taxedAtTwentyFive w" "0 \<le> ws_taxedAtTwentyEight w"
    "ws_ordinaryPortion w + ws_taxedAtZero w + ws_taxedAtFifteen w + ws_taxedAtTwenty w +
       ws_taxedAtTwentyFive w + ws_taxedAtTwentyEight w = ti"
proof -
  from w obtain l10 l12 l16 l17 l19 l20 l21 l27 l28 l31 l33 l37 l39 where
    defs: "l10 = floor0 qd + floor0 lt" "l12 = min (floor0 lt) (floor0 un + floor0 co)"
    "l33 = min (floor0 lt) (floor0 un)" "l16 = min ti (bp ! 0)"
    "l17 = min (floor0 (ti - (l10 - l12))) l16" "l19 = max l17 (floor0 (ti - l10))" "l20 = l16 - l17"
    "l21 = min ti (l10 - l12)" "l27 = floor0 (min ti (bp ! 1) - (l19 + l20))" "l28 = min (l21 - l20) l27"
    "l31 = floor0 (l21 - (l20 + l28))" "l37 = floor0 (l33 - floor0 (l10 + l19 - ti))"
    "l39 = l19 + l20 + l28 + l31 + l37"
    and out: "ws_ordinaryPortion w = l19" "ws_taxedAtZero w = l20" "ws_taxedAtFifteen w = l28" "ws_taxedAtTwenty w = l31"
    "ws_taxedAtTwentyFive w = l37" "ws_taxedAtTwentyEight w = (if 0 < co then floor0 (ti - l39) else 0)"
    by (rule worksheet_linesE)
  have nn: "0 \<le> floor0 lt" "0 \<le> floor0 un" "0 \<le> floor0 co" "0 \<le> floor0 qd" by simp_all
  have l12: "0 \<le> l12" "l12 \<le> l10" "0 \<le> l33" "l33 \<le> l12" "\<not> 0 < co \<Longrightarrow> l33 = l12"
    using slice_0 [OF nn] nn(3)
    by (simp_all add: defs(1-3))
  then have "0 \<le> l10 - l12" by simp
  from slice_1 [OF ti this z] have s1: "0 \<le> l20" "l20 \<le> l21" by (simp_all only: defs(4,5,7,8))
  have "0 \<le> l27" by (simp add: defs(9))
  from slice_2 [OF s1 this] have s2: "0 \<le> l28" "l20 + l28 + l31 = l21" by (simp_all only: defs(10,11))
  from slice_3 [OF ti l12(2,1) z l12(3,4)] have s3: "0 \<le> l19" "l19 + l21 + l37 \<le> ti" "l33 = l12 \<Longrightarrow> l19 + l21 + l37 = ti"
    by (simp_all only: defs(4,5,6,8,12))
  show "0 \<le> ws_ordinaryPortion w" "0 \<le> ws_taxedAtZero w" "0 \<le> ws_taxedAtFifteen w" "0 \<le> ws_taxedAtTwenty w"
    "0 \<le> ws_taxedAtTwentyFive w" "0 \<le> ws_taxedAtTwentyEight w"
    using s1 s2 s3 by (simp_all add: out defs(11,12))
  show "ws_ordinaryPortion w + ws_taxedAtZero w + ws_taxedAtFifteen w + ws_taxedAtTwenty w +
       ws_taxedAtTwentyFive w + ws_taxedAtTwentyEight w = ti"
    using s2 s3 l12(5) by (cases "0 < co") (simp_all add: out defs(13))
qed

text \<open>
  C15: the Schedule D Tax Worksheet taxes every dollar of taxable income exactly once: for a positive
  taxable income the ordinary portion and the amounts taxed at 0, 15, 20, 25 and 28 percent are all
  non-negative and add up to the taxable income, whatever the gains entered.
\<close>

theorem worksheet_partitions_income:
  assumes "capitalGainWorksheet ti qd lt un co bs bp rates r25 r28 = Inr w" "0 < ti" "0 \<le> bp ! 0"
  shows "ws_ordinaryPortion w + ws_taxedAtZero w + ws_taxedAtFifteen w + ws_taxedAtTwenty w +
      ws_taxedAtTwentyFive w + ws_taxedAtTwentyEight w = ti \<and>
    list_all (\<lambda>x. 0 \<le> x) [ws_ordinaryPortion w, ws_taxedAtZero w, ws_taxedAtFifteen w, ws_taxedAtTwenty w,
      ws_taxedAtTwentyFive w, ws_taxedAtTwentyEight w]"
  using worksheet_partition_lemma [OF assms] by simp

lemma worksheet_partitions_income_witness:
  "\<exists>w. capitalGainWorksheet 60000 5000 20000 3000 1000 two_brackets [47000, 500000] [0, 15 / 100, 20 / 100] (25 / 100) (28 / 100) = Inr w \<and>
    ws_ordinaryPortion w = 39000 \<and> ws_ordinaryPortion w + ws_taxedAtZero w + ws_taxedAtFifteen w + ws_taxedAtTwenty w +
      ws_taxedAtTwentyFive w + ws_taxedAtTwentyEight w = 60000"
proof -
  have "(case capitalGainWorksheet 60000 5000 20000 3000 1000 two_brackets [47000, 500000] [0, 15 / 100, 20 / 100] (25 / 100) (28 / 100)
      of Inr w \<Rightarrow> ws_ordinaryPortion w = 39000 | Inl e \<Rightarrow> False)"
    by code_simp
  then obtain w where w: "capitalGainWorksheet 60000 5000 20000 3000 1000 two_brackets [47000, 500000] [0, 15 / 100, 20 / 100] (25 / 100) (28 / 100) = Inr w"
      "ws_ordinaryPortion w = 39000"
    by (auto split: sum.splits)
  from worksheet_partitions_income [OF w(1)] w show ?thesis by simp
qed

lemma p_bracketsD:
  assumes "p_brackets k c = Inr (bs, c')"
  shows "as_brackets k (stored (cx_params c) k) = Inr bs"
  using p_readD [of as_brackets k c bs c'] assms by (auto simp: p_brackets_def stored_def)

lemma floor0_pos: "0 < floor0 x \<longleftrightarrow> 0 < x"
  by (simp add: floor0_def less_max_iff_disj)

lemma computeRegularTax_cases:
  assumes "computeRegularTax input c = Inr (r, c')"
  obtains (override) rate c1 where "ri_rateMode input = RmEffective" "ri_effectiveRateOverride input = Some rate"
      "regularTaxOverride (ri_taxableIncome input) rate c1 = Inr (r, c')"
  | (worksheet) bs c0 c1 where "ri_rateMode input \<noteq> RmEffective \<or> ri_effectiveRateOverride input = None"
      "cx_params c0 = cx_params c" "p_bracketsFs ''brackets'' (cx_fs c) c0 = Inr (bs, c1)"
      "0 < floor0 (ri_taxableIncome input) \<and> (0 < floor0 (ri_qualifiedDividends input) \<or> 0 < floor0 (ri_netLongTermGain input))"
      "regularTaxWorksheet input (cx_fs c) bs c1 = Inr (r, c')"
  | (ordinary) bs c0 c1 where "ri_rateMode input \<noteq> RmEffective \<or> ri_effectiveRateOverride input = None"
      "cx_params c0 = cx_params c" "p_bracketsFs ''brackets'' (cx_fs c) c0 = Inr (bs, c1)"
      "\<not> (0 < floor0 (ri_taxableIncome input) \<and> (0 < floor0 (ri_qualifiedDividends input) \<or> 0 < floor0 (ri_netLongTermGain input)))"
      "regularTaxOrdinary (ri_taxableIncome input) bs (''brackets.'' @ fs_text (cx_fs c)) c1 = Inr (r, c')"
proof -
  from assms obtain c0 where
    c0: "cwhen (ri_rateMode input = RmEffective \<and> ri_effectiveRateOverride input = None)
        (warn ''TE_EFFECTIVE_RATE_MISSING'' None) c = Inr ((), c0)"
    and step: "(case (if ri_rateMode input = RmEffective then ri_effectiveRateOverride input else None) of
        Some rate \<Rightarrow> regularTaxOverride (ri_taxableIncome input) rate
      | None \<Rightarrow> cbind (p_bracketsFs ''brackets'' (cx_fs c)) (\<lambda>bs.
          if 0 < floor0 (ri_taxableIncome input) \<and> (0 < floor0 (ri_qualifiedDividends input) \<or> 0 < floor0 (ri_netLongTermGain input))
          then regularTaxWorksheet input (cx_fs c) bs
          else regularTaxOrdinary (ri_taxableIncome input) bs (''brackets.'' @ fs_text (cx_fs c)))) c0 = Inr (r, c')"
    using assms unfolding computeRegularTax_def Let_def by auto
  have ps: "cx_params c0 = cx_params c"
    using c0 by (auto simp: cwhen_def warn_def warn_sev_def cmod_def split: if_splits)
  show ?thesis
  proof (cases "if ri_rateMode input = RmEffective then ri_effectiveRateOverride input else None")
    case None
    then have mode: "ri_rateMode input \<noteq> RmEffective \<or> ri_effectiveRateOverride input = None"
      by (auto split: if_splits)
    from None step obtain bs c1 where bs: "p_bracketsFs ''brackets'' (cx_fs c) c0 = Inr (bs, c1)"
      and r: "(if 0 < floor0 (ri_taxableIncome input) \<and> (0 < floor0 (ri_qualifiedDividends input) \<or> 0 < floor0 (ri_netLongTermGain input))
          then regularTaxWorksheet input (cx_fs c) bs
          else regularTaxOrdinary (ri_taxableIncome input) bs (''brackets.'' @ fs_text (cx_fs c))) c1 = Inr (r, c')"
      by auto
    show ?thesis
    proof (cases "0 < floor0 (ri_taxableIncome input) \<and> (0 < floor0 (ri_qualifiedDividends input) \<or> 0 < floor0 (ri_netLongTermGain input))")
      case True
      with r have "regularTaxWorksheet input (cx_fs c) bs c1 = Inr (r, c')" by (simp only: if_P)
      then show ?thesis by (rule worksheet [OF mode ps bs True])
    next
      case False
      with r have "regularTaxOrdinary (ri_taxableIncome input) bs (''brackets.'' @ fs_text (cx_fs c)) c1 = Inr (r, c')"
        by (simp only: if_not_P if_False)
      then show ?thesis by (rule ordinary [OF mode ps bs False])
    qed
  next
    case (Some rate)
    with step override show ?thesis by (auto split: if_splits)
  qed
qed

lemma regularTaxWorksheet_tax:
  assumes "regularTaxWorksheet input fs bs c = Inr (r, c')"
  shows "\<exists>w. rg_worksheet r = Some w \<and> rg_method r = RmBrackets \<and>
    ws_allOrdinaryTax w = bracketTax (floor0 (ri_taxableIncome input)) bs \<and>
    rg_tax r = min (ws_worksheetTax w) (ws_allOrdinaryTax w)"
proof -
  from assms obtain ti qd lt un co bp rates r25 r28 w where
    w: "capitalGainWorksheet (floor0 (ri_taxableIncome input)) qd lt un co bs bp rates r25 r28 = Inr w"
    and r: "rg_tax r = min (ws_worksheetTax w) (ws_allOrdinaryTax w)" "rg_worksheet r = Some w" "rg_method r = RmBrackets"
    by (auto simp: regularTaxWorksheet_def Let_def)
  from w have "ws_allOrdinaryTax w = bracketTax (floor0 (ri_taxableIncome input)) bs" by (rule worksheet_linesE)
  with r show ?thesis by blast
qed

lemma regularTaxOrdinary_tax:
  "regularTaxOrdinary ti bs k c = Inr (r, c') \<Longrightarrow>
    rg_worksheet r = None \<and> rg_method r = RmBrackets \<and> rg_tax r = bracketTax (floor0 ti) bs"
  by (auto simp: regularTaxOrdinary_def Let_def)

lemma regularTaxOverride_tax:
  "regularTaxOverride ti rate c = Inr (r, c') \<Longrightarrow>
    rg_worksheet r = None \<and> rg_method r = RmEffective \<and> rg_tax r = floor0 ti * rate"
  by (auto simp: regularTaxOverride_def Let_def)

text \<open>
  C16: the regular tax in every rate mode.  With an effective rate given it is that rate of the
  taxable income, without brackets or worksheet.  In every other case (brackets mode, or effective mode
  without a rate) it is computed from the brackets stored for the filing status: the worksheet is
  used exactly when there is preferential income and taxable income, the tax is then the smaller of
  the worksheet's and the bracket tax of the whole taxable income, and otherwise it is that bracket
  tax; so outside the effective rate it is never above the bracket tax.
\<close>

theorem regular_tax_never_above_brackets:
  assumes "computeRegularTax input c = Inr (r, c')"
  shows "if ri_rateMode input = RmEffective \<and> ri_effectiveRateOverride input \<noteq> None
    then rg_method r = RmEffective \<and> rg_worksheet r = None \<and>
      rg_tax r = floor0 (ri_taxableIncome input) * the (ri_effectiveRateOverride input)
    else \<exists>bs. as_brackets (filingStatusKey ''brackets'' (cx_fs c)) (stored (cx_params c) (filingStatusKey ''brackets'' (cx_fs c))) = Inr bs \<and>
      rg_method r = RmBrackets \<and> rg_tax r \<le> bracketTax (floor0 (ri_taxableIncome input)) bs \<and>
      (case rg_worksheet r of
        None \<Rightarrow> rg_tax r = bracketTax (floor0 (ri_taxableIncome input)) bs \<and>
          (ri_taxableIncome input \<le> 0 \<or> (ri_qualifiedDividends input \<le> 0 \<and> ri_netLongTermGain input \<le> 0))
      | Some w \<Rightarrow> rg_tax r = min (ws_worksheetTax w) (bracketTax (floor0 (ri_taxableIncome input)) bs) \<and>
          0 < ri_taxableIncome input \<and> (0 < ri_qualifiedDividends input \<or> 0 < ri_netLongTermGain input))"
  using assms
proof (cases rule: computeRegularTax_cases)
  case (override rate c1)
  then show ?thesis using regularTaxOverride_tax by auto
next
  case (worksheet bs c0 c1)
  moreover have "as_brackets (filingStatusKey ''brackets'' (cx_fs c)) (stored (cx_params c) (filingStatusKey ''brackets'' (cx_fs c))) = Inr bs"
    using worksheet(2,3) by (auto simp: p_bracketsFs_def dest!: p_bracketsD)
  ultimately show ?thesis using regularTaxWorksheet_tax [OF worksheet(5)] by (auto simp: floor0_pos)
next
  case (ordinary bs c0 c1)
  moreover have "as_brackets (filingStatusKey ''brackets'' (cx_fs c)) (stored (cx_params c) (filingStatusKey ''brackets'' (cx_fs c))) = Inr bs"
    using ordinary(2,3) by (auto simp: p_bracketsFs_def dest!: p_bracketsD)
  ultimately show ?thesis using regularTaxOrdinary_tax [OF ordinary(5)] by (auto simp: floor0_pos not_less)
qed

lemma sound_computeRegularTax [eng_sound, intro]: "sound (computeRegularTax input)"
  unfolding computeRegularTax_def regularTaxWorksheet_def regularTaxOrdinary_def regularTaxOverride_def
    traceBrackets_def
  by (intro eng_sound)

definition sample_brackets :: json where
  "sample_brackets = JArr [JArr [JNum 10000, JNum (1 / 10)], JArr [JNull, JNum (1 / 5)]]"

definition gain_params :: "(string \<times> resolved) list" where
  "gain_params = map (\<lambda>(k, v). (k, \<lparr>rp_value = v, rp_status = Verified\<rparr>))
    [(''brackets.mfj'', sample_brackets), (''ltcg.breakpoints.mfj'', JArr [JNum 9000, JNum 50000]),
     (''ltcg.rates'', JArr [JNum 0, JNum (3 / 20), JNum (1 / 5)]), (''unrecaptured_1250_rate'', JNum (1 / 4)),
     (''collectibles_rate'', JNum (7 / 25))]"

text \<open>With 6000 of long-term gain in 15000 of taxable income the worksheet tax, 1800, is below the bracket tax, 2000.\<close>

lemma regular_tax_never_above_brackets_witness:
  "\<exists>r c' w. computeRegularTax \<lparr>ri_taxableIncome = 15000, ri_qualifiedDividends = 0, ri_netLongTermGain = 6000, ri_unrecaptured1250 = 0,
      ri_collectibles = 0, ri_rateMode = RmBrackets, ri_effectiveRateOverride = None\<rparr>
      (new_ctx gain_params 2025 Mfj) = Inr (r, c') \<and> rg_worksheet r = Some w \<and>
      rg_tax r = min (ws_worksheetTax w) 2000 \<and> rg_tax r < 2000"
proof -
  let ?i = "\<lparr>ri_taxableIncome = 15000, ri_qualifiedDividends = 0, ri_netLongTermGain = 6000, ri_unrecaptured1250 = 0,
      ri_collectibles = 0, ri_rateMode = RmBrackets, ri_effectiveRateOverride = None\<rparr>"
  let ?c = "new_ctx gain_params 2025 Mfj"
  have "case computeRegularTax ?i ?c of Inr (r, c') \<Rightarrow> rg_tax r = 1800 \<and> rg_worksheet r \<noteq> None | Inl e \<Rightarrow> False"
    by (simp add: exec_simps computeRegularTax_def regularTaxWorksheet_def traceBrackets_def bracketSlices_def
        bracketTax_def capitalGainWorksheet_def elem_at_def quo_def marginalBracketRate_def sample_brackets_def gain_params_def effective_rate_def
        Let_def cong: let_weak_cong)
  then obtain r c' w where r: "computeRegularTax ?i ?c = Inr (r, c')" "rg_tax r < 2000" "rg_worksheet r = Some w"
    by (auto split: sum.splits)
  from regular_tax_never_above_brackets [OF r(1)] r(3) obtain bs where
    bs: "as_brackets (filingStatusKey ''brackets'' (cx_fs ?c)) (stored (cx_params ?c) (filingStatusKey ''brackets'' (cx_fs ?c))) = Inr bs"
      "rg_tax r = min (ws_worksheetTax w) (bracketTax (floor0 15000) bs)" by auto
  have "as_brackets (filingStatusKey ''brackets'' (cx_fs ?c)) (stored (cx_params ?c) (filingStatusKey ''brackets'' (cx_fs ?c))) = Inr two_brackets"
    by code_simp
  with bs have "rg_tax r = min (ws_worksheetTax w) (bracketTax (floor0 15000) two_brackets)" by simp
  moreover have "bracketTax (floor0 15000) two_brackets = 2000" by code_simp
  ultimately show ?thesis using r by auto
qed

end
