(* ===== verification/PayrollTaxes.thy ===== *)
theory PayrollTaxes
  imports EngineBase
begin

section \<open>Self-employment tax, Additional Medicare tax and NIIT (engine/se-tax.ts, engine/other-taxes.ts)\<close>

text \<open>Steps 5 and 13 of the federal calculation.\<close>

subsection \<open>Schedule SE\<close>

record se_tax_input =
  si_personId :: string
  si_seIncome :: money
  si_socialSecurityWages :: money

record se_tax =
  se_personId :: string
  se_seIncome :: money
  se_nese :: money
  se_socialSecurity :: money
  se_medicare :: money
  se_seTax :: money
  se_halfSeTax :: money

definition computeSeTax :: "se_tax_input \<Rightarrow> se_tax eng" where
  "computeSeTax input =
    (let pid = si_personId input in
     cbind (p_rate ''se.nese_factor'') (\<lambda>factor.
     cbind (p_money ''se.min_nese'') (\<lambda>minNese.
     cbind (p_rate ''se.ss_rate'') (\<lambda>ssRate.
     cbind (p_rate ''se.medicare_rate'') (\<lambda>medicareRate.
     cbind (p_money ''se.ss_wage_base'') (\<lambda>wageBase.
     cbind (p_rate ''se.deduction_factor'') (\<lambda>deductionFactor.
     let grossNese = (if 0 < si_seIncome input then si_seIncome input * factor else 0);
         subject = (0 < grossNese \<and> minNese \<le> grossNese);
         nese = (if subject then grossNese else 0) in
     cbind (cwhen (0 < grossNese \<and> \<not> subject) (info ''TE_SE_BELOW_MINIMUM'' (Some [(''personId'', DText pid)]))) (\<lambda>_.
     let remainingBase = floor0 (wageBase - si_socialSecurityWages input);
         socialSecurity = ssRate * min nese remainingBase;
         medicare = medicareRate * nese;
         seTax = socialSecurity + medicare;
         halfSeTax = seTax * deductionFactor in
     cbind (trace_add ((row ''se_tax'' (''nese.'' @ pid) nese SrcParameter)
         \<lparr>tr_person := Some pid, tr_keys := Some [''se.nese_factor'', ''se.min_nese'']\<rparr>)) (\<lambda>_.
     cbind (trace_add ((row ''se_tax'' (''se_ss.'' @ pid) socialSecurity SrcParameter)
         \<lparr>tr_person := Some pid, tr_keys := Some [''se.ss_rate'', ''se.ss_wage_base''],
           tr_marginal := Some (if 0 < min nese remainingBase \<and> nese < remainingBase then ssRate else 0)\<rparr>)) (\<lambda>_.
     cbind (trace_add ((row ''se_tax'' (''se_medicare.'' @ pid) medicare SrcParameter)
         \<lparr>tr_person := Some pid, tr_keys := Some [''se.medicare_rate''],
           tr_marginal := Some (if 0 < nese then medicareRate else 0)\<rparr>)) (\<lambda>_.
     cbind (trace_add ((row ''se_tax'' (''se_tax.'' @ pid) seTax SrcParameter)\<lparr>tr_person := Some pid\<rparr>)) (\<lambda>_.
     cbind (trace_add ((row ''se_tax'' (''half_se_tax.'' @ pid) halfSeTax SrcParameter)
         \<lparr>tr_person := Some pid, tr_keys := Some [''se.deduction_factor'']\<rparr>)) (\<lambda>_.
     cret \<lparr>se_personId = pid, se_seIncome = si_seIncome input, se_nese = nese, se_socialSecurity = socialSecurity,
       se_medicare = medicare, se_seTax = seTax, se_halfSeTax = halfSeTax\<rparr>)))))))))))))"

subsection \<open>Forms 8959 and 8960\<close>

record other_taxes_input =
  oi_additionalMedicareTax :: "money option"
  oi_niit :: "money option"
  oi_niiAllocableDeductions :: "money option"

record other_taxes_person =
  op_personId :: string
  op_medicareWages :: money
  op_nese :: money

record other_taxes_context =
  oc_persons :: "other_taxes_person list"
  oc_interest :: money
  oc_dividends :: money
  oc_capitalGains :: money
  oc_rental :: money
  oc_passiveOrdinary :: money
  oc_agi :: money

datatype tax_method = Manual | Computed

record additional_medicare =
  am_method :: tax_method
  am_medicareWages :: money
  am_nese :: money
  am_threshold :: money
  am_wagesAboveThreshold :: money
  am_neseAboveThreshold :: money
  am_tax :: money

record niit_result =
  ni_method :: tax_method
  ni_interest :: money
  ni_dividends :: money
  ni_capitalGains :: money
  ni_rental :: money
  ni_passiveOrdinary :: money
  ni_allocableDeductions :: money
  ni_netInvestmentIncome :: money
  ni_magi :: money
  ni_threshold :: money
  ni_base :: money
  ni_tax :: money

record other_taxes =
  ot_additionalMedicare :: additional_medicare
  ot_niit :: niit_result

definition computeAdditionalMedicare :: "other_taxes_input \<Rightarrow> other_taxes_context \<Rightarrow> filing_status \<Rightarrow> additional_medicare eng" where
  "computeAdditionalMedicare input oc fs =
    cbind (p_rate ''addl_medicare.rate'') (\<lambda>medRate.
    cbind (p_moneyFs ''addl_medicare.threshold'' fs) (\<lambda>medThreshold.
    let medicareWages = sum_list (map (\<lambda>p. floor0 (op_medicareWages p)) (oc_persons oc));
        nese = sum_list (map (\<lambda>p. floor0 (op_nese p)) (oc_persons oc));
        wagesAbove = floor0 (medicareWages - medThreshold);
        neseAbove = floor0 (nese - floor0 (medThreshold - medicareWages));
        medComputed = medRate * (wagesAbove + neseAbove);
        manual = oi_additionalMedicareTax input;
        medTax = (case manual of None \<Rightarrow> medComputed | Some m \<Rightarrow> floor0 m);
        medMethod = (case manual of None \<Rightarrow> Computed | Some m \<Rightarrow> Manual);
        medKeys = [''addl_medicare.rate'', ''addl_medicare.threshold.'' @ fs_text fs] in
    cbind (cwhen (manual \<noteq> None) (warn ''TE_ADDL_MEDICARE_MANUAL_OVERRIDE''
        (Some [(''manual'', DAmt medTax), (''computed'', DAmt medComputed)]))) (\<lambda>_.
    cbind (cwhen (0 < wagesAbove) (trace_add ((row ''other_taxes'' ''additional_medicare.wages'' (medRate * wagesAbove) SrcParameter)
        \<lparr>tr_keys := Some medKeys\<rparr>))) (\<lambda>_.
    cbind (cwhen (0 < neseAbove) (trace_add ((row ''other_taxes'' ''additional_medicare.se'' (medRate * neseAbove) SrcParameter)
        \<lparr>tr_keys := Some medKeys\<rparr>))) (\<lambda>_.
    cbind (trace_add ((row ''other_taxes'' ''additional_medicare'' medTax (if medMethod = Manual then SrcInput else SrcParameter))
        \<lparr>tr_keys := Some medKeys\<rparr>)) (\<lambda>_.
    cret \<lparr>am_method = medMethod, am_medicareWages = medicareWages, am_nese = nese, am_threshold = medThreshold,
      am_wagesAboveThreshold = wagesAbove, am_neseAboveThreshold = neseAbove, am_tax = medTax\<rparr>))))))"

definition computeNiit :: "other_taxes_input \<Rightarrow> other_taxes_context \<Rightarrow> filing_status \<Rightarrow> niit_result eng" where
  "computeNiit input oc fs =
    cbind (p_rate ''niit.rate'') (\<lambda>niitRate.
    cbind (p_moneyFs ''niit.threshold'' fs) (\<lambda>niitThreshold.
    let allocable = (case oi_niiAllocableDeductions input of None \<Rightarrow> 0 | Some a \<Rightarrow> floor0 a);
        items = oc_interest oc + oc_dividends oc + oc_capitalGains oc + oc_rental oc + oc_passiveOrdinary oc;
        nii = floor0 (items - allocable);
        base = floor0 (min nii (oc_agi oc - niitThreshold));
        niitComputed = niitRate * base;
        manual = oi_niit input;
        niitTax = (case manual of None \<Rightarrow> niitComputed | Some m \<Rightarrow> floor0 m);
        niitMethod = (case manual of None \<Rightarrow> Computed | Some m \<Rightarrow> Manual);
        niitKeys = [''niit.rate'', ''niit.threshold.'' @ fs_text fs] in
    cbind (cwhen (manual \<noteq> None) (warn ''TE_NIIT_MANUAL_OVERRIDE''
        (Some [(''manual'', DAmt niitTax), (''computed'', DAmt niitComputed)]))) (\<lambda>_.
    cbind (cwhen (items \<noteq> 0) (trace_add (row ''other_taxes'' ''niit.nii'' nii SrcGlMap))) (\<lambda>_.
    cbind (trace_add ((row ''other_taxes'' ''niit'' niitTax (if niitMethod = Manual then SrcInput else SrcParameter))
        \<lparr>tr_keys := Some niitKeys\<rparr>)) (\<lambda>_.
    cret \<lparr>ni_method = niitMethod, ni_interest = oc_interest oc, ni_dividends = oc_dividends oc,
      ni_capitalGains = oc_capitalGains oc, ni_rental = oc_rental oc, ni_passiveOrdinary = oc_passiveOrdinary oc,
      ni_allocableDeductions = allocable, ni_netInvestmentIncome = nii, ni_magi = oc_agi oc,
      ni_threshold = niitThreshold, ni_base = base, ni_tax = niitTax\<rparr>)))))"

definition computeOtherTaxes :: "other_taxes_input \<Rightarrow> other_taxes_context \<Rightarrow> other_taxes eng" where
  "computeOtherTaxes input oc =
    cbind (cget cx_fs) (\<lambda>fs.
    cbind (computeAdditionalMedicare input oc fs) (\<lambda>am.
    cbind (computeNiit input oc fs) (\<lambda>ni.
    cret \<lparr>ot_additionalMedicare = am, ot_niit = ni\<rparr>)))"

lemma sound_computeSeTax [eng_sound, intro]: "sound (computeSeTax input)"
  unfolding computeSeTax_def by (intro eng_sound)

lemma sound_computeOtherTaxes [eng_sound, intro]: "sound (computeOtherTaxes input oc)"
  unfolding computeOtherTaxes_def computeAdditionalMedicare_def computeNiit_def by (intro eng_sound)

subsection \<open>Properties\<close>

lemma se_tax_values:
  assumes "computeSeTax input c = Inr (r, c')"
  defines "P \<equiv> stored_num (cx_params c)"
  defines "g \<equiv> (if 0 < si_seIncome input then si_seIncome input * P ''se.nese_factor'' else 0)"
  defines "n \<equiv> (if 0 < g \<and> P ''se.min_nese'' \<le> g then g else 0)"
  defines "left \<equiv> floor0 (P ''se.ss_wage_base'' - si_socialSecurityWages input)"
  shows "se_nese r = n" "se_socialSecurity r = P ''se.ss_rate'' * min n left"
    "se_seTax r = P ''se.ss_rate'' * min n left + P ''se.medicare_rate'' * n"
    "se_halfSeTax r = (P ''se.ss_rate'' * min n left + P ''se.medicare_rate'' * n) * P ''se.deduction_factor''"
  using assms(1) unfolding computeSeTax_def n_def g_def left_def P_def
  by (elim valE, simp only: se_tax.select_convs)+

lemma additional_medicare_value:
  assumes "computeAdditionalMedicare input oc fs c = Inr (r, c')" "oi_additionalMedicareTax input = None"
  defines "P \<equiv> stored_num (cx_params c)"
  defines "w \<equiv> (\<Sum>p\<leftarrow>oc_persons oc. floor0 (op_medicareWages p))"
  defines "n \<equiv> (\<Sum>p\<leftarrow>oc_persons oc. floor0 (op_nese p))"
  defines "t \<equiv> P (filingStatusKey ''addl_medicare.threshold'' fs)"
  shows "am_tax r = P ''addl_medicare.rate'' * (floor0 (w - t) + floor0 (n - floor0 (t - w)))"
    "cx_params c' = cx_params c"
  using assms(1) unfolding computeAdditionalMedicare_def w_def n_def t_def P_def
  by (elim valE, simp only: additional_medicare.select_convs assms(2) option.case)+

lemma niit_value:
  assumes "computeNiit input oc fs c = Inr (r, c')" "oi_niit input = None"
  defines "P \<equiv> stored_num (cx_params c)"
  defines "items \<equiv> oc_interest oc + oc_dividends oc + oc_capitalGains oc + oc_rental oc + oc_passiveOrdinary oc"
  defines "alloc \<equiv> (case oi_niiAllocableDeductions input of None \<Rightarrow> 0 | Some a \<Rightarrow> floor0 a)"
  shows "ni_tax r = P ''niit.rate'' * floor0 (min (floor0 (items - alloc)) (oc_agi oc - P (filingStatusKey ''niit.threshold'' fs)))"
  using assms(1) unfolding computeNiit_def items_def alloc_def P_def
  by (elim valE, simp only: niit_result.select_convs assms(2) option.case)+

text \<open>
  C17: the self-employment tax of a person is the Social Security rate on the part of the net earnings
  that the wages have left of the wage base plus the Medicare rate on all of them, net earnings below
  the minimum count as none; with non-negative rates the tax is never negative and its Social Security
  part never exceeds the rate on the wage base left.
\<close>

theorem se_tax_formula:
  assumes "computeSeTax input c = Inr (r, c')"
    and "\<forall>k \<in> {''se.ss_rate'', ''se.medicare_rate'', ''se.nese_factor''}. 0 \<le> stored_num (cx_params c) k"
  shows "let P = stored_num (cx_params c); g = floor0 (si_seIncome input) * P ''se.nese_factor'';
      n = (if g < P ''se.min_nese'' then 0 else g); left = floor0 (P ''se.ss_wage_base'' - si_socialSecurityWages input) in
    se_nese r = n \<and> se_seTax r = P ''se.ss_rate'' * min n left + P ''se.medicare_rate'' * n \<and>
    se_halfSeTax r = se_seTax r * P ''se.deduction_factor'' \<and>
    0 \<le> se_seTax r \<and> se_socialSecurity r \<le> P ''se.ss_rate'' * left"
proof -
  define P where "P = stored_num (cx_params c)"
  define g where "g = (if 0 < si_seIncome input then si_seIncome input * P ''se.nese_factor'' else 0)"
  define n where "n = (if 0 < g \<and> P ''se.min_nese'' \<le> g then g else 0)"
  define left where "left = floor0 (P ''se.ss_wage_base'' - si_socialSecurityWages input)"
  note r = se_tax_values [OF assms(1), folded P_def, folded g_def, folded n_def, folded left_def]
  have g: "g = floor0 (si_seIncome input) * P ''se.nese_factor''"
    by (simp add: g_def floor0_def)
  have "0 \<le> P ''se.ss_rate''" "0 \<le> P ''se.medicare_rate''" "0 \<le> g" using assms(2) by (simp_all add: P_def g)
  moreover have "0 \<le> n" by (simp add: n_def)
  moreover have "n = (if g < P ''se.min_nese'' then 0 else g)" using \<open>0 \<le> g\<close> by (auto simp: n_def)
  moreover have "0 \<le> left" by (simp add: left_def)
  ultimately show ?thesis
    using r by (simp add: Let_def P_def [symmetric] g [symmetric] left_def [symmetric] mult_left_mono)
qed

definition sample_params :: "(string \<times> resolved) list" where
  "sample_params = map (\<lambda>(k, q). (k, \<lparr>rp_value = JNum q, rp_status = Verified\<rparr>))
     [(''se.nese_factor'', 9235 / 10000), (''se.min_nese'', 400), (''se.ss_rate'', 124 / 1000),
      (''se.medicare_rate'', 29 / 1000), (''se.ss_wage_base'', 176100), (''se.deduction_factor'', 1 / 2),
      (''addl_medicare.rate'', 9 / 1000), (''addl_medicare.threshold.mfj'', 250000),
      (''niit.rate'', 38 / 1000), (''niit.threshold.mfj'', 250000)]"

lemma se_tax_formula_witness:
  "\<exists>r c'. computeSeTax \<lparr>si_personId = ''p1'', si_seIncome = 10000, si_socialSecurityWages = 0\<rparr> (new_ctx sample_params 2025 Mfj) = Inr (r, c') \<and>
     se_nese r = 9235 \<and> 0 \<le> se_seTax r"
proof -
  let ?i = "\<lparr>si_personId = ''p1'', si_seIncome = 10000, si_socialSecurityWages = 0\<rparr>" and ?c = "new_ctx sample_params 2025 Mfj"
  have "(case computeSeTax ?i ?c of Inr (r, c') \<Rightarrow> se_nese r = 9235 | Inl e \<Rightarrow> False)" by code_simp
  then obtain r c' where r: "computeSeTax ?i ?c = Inr (r, c')" "se_nese r = 9235" by (auto split: sum.splits)
  have "\<forall>k \<in> {''se.ss_rate'', ''se.medicare_rate'', ''se.nese_factor''}. 0 \<le> stored_num (cx_params ?c) k" by code_simp
  from se_tax_formula [OF r(1) this] r show ?thesis by (auto simp: Let_def)
qed

lemma threshold_split:
  fixes w n t :: rat
  assumes "0 \<le> w" "0 \<le> n" "0 \<le> t"
  shows "floor0 (w - t) + floor0 (n - floor0 (t - w)) = floor0 (w + n - t)"
  using assms by (auto simp: floor0_def max_def)

lemma sum_list_floor0: "0 \<le> (\<Sum>p\<leftarrow>ps. floor0 (f p))"
  by (induction ps) simp_all

text \<open>
  C18: without overrides the Additional Medicare tax is the rate on wages and self-employment earnings
  together above one threshold (letting the wages use it first loses and doubles nothing), and the net
  investment income tax is the rate on the smaller of the net investment income and the AGI above its
  threshold, never negative.
\<close>

theorem other_taxes_formula:
  assumes "computeOtherTaxes input oc c = Inr (r, c')"
    and "oi_additionalMedicareTax input = None" "oi_niit input = None"
    and "0 \<le> stored_num (cx_params c) (filingStatusKey ''addl_medicare.threshold'' (cx_fs c))"
  shows "let P = stored_num (cx_params c); fs = cx_fs c;
      w = (\<Sum>p\<leftarrow>oc_persons oc. floor0 (op_medicareWages p)); n = (\<Sum>p\<leftarrow>oc_persons oc. floor0 (op_nese p));
      items = oc_interest oc + oc_dividends oc + oc_capitalGains oc + oc_rental oc + oc_passiveOrdinary oc;
      alloc = (case oi_niiAllocableDeductions input of None \<Rightarrow> 0 | Some a \<Rightarrow> floor0 a) in
    am_tax (ot_additionalMedicare r) = P ''addl_medicare.rate'' * floor0 (w + n - P (filingStatusKey ''addl_medicare.threshold'' fs)) \<and>
    ni_tax (ot_niit r) = P ''niit.rate'' * floor0 (min (items - alloc) (oc_agi oc - P (filingStatusKey ''niit.threshold'' fs)))"
proof -
  define P fs where "P = stored_num (cx_params c)" and "fs = cx_fs c"
  define w n where "w = (\<Sum>p\<leftarrow>oc_persons oc. floor0 (op_medicareWages p))" and "n = (\<Sum>p\<leftarrow>oc_persons oc. floor0 (op_nese p))"
  from assms(1) obtain am ni c1 c2 where
    am: "computeAdditionalMedicare input oc fs c = Inr (am, c1)" and
    ni: "computeNiit input oc fs c1 = Inr (ni, c2)" and r: "r = \<lparr>ot_additionalMedicare = am, ot_niit = ni\<rparr>"
    by (auto simp: computeOtherTaxes_def fs_def)
  note a = additional_medicare_value [OF am assms(2), folded P_def w_def n_def]
  have t: "am_tax am = P ''addl_medicare.rate'' * floor0 (w + n - P (filingStatusKey ''addl_medicare.threshold'' fs))"
    using assms(4) unfolding a(1) by (subst threshold_split) (simp_all add: w_def n_def sum_list_floor0 P_def fs_def)
  have fl: "floor0 (min (floor0 x) y) = floor0 (min x y)" for x y by (auto simp: floor0_def min_def max_def)
  note niit_value [OF ni assms(3), unfolded a(2) [unfolded P_def], folded P_def]
  with t show ?thesis by (simp add: Let_def r fl P_def fs_def w_def n_def)
qed

lemma other_taxes_formula_witness:
  "\<exists>r c'. computeOtherTaxes \<lparr>oi_additionalMedicareTax = None, oi_niit = None, oi_niiAllocableDeductions = None\<rparr>
      \<lparr>oc_persons = [\<lparr>op_personId = ''p1'', op_medicareWages = 200000, op_nese = 100000\<rparr>], oc_interest = 20000, oc_dividends = 0,
        oc_capitalGains = 0, oc_rental = 0, oc_passiveOrdinary = 0, oc_agi = 300000\<rparr> (new_ctx sample_params 2025 Mfj) = Inr (r, c') \<and>
     am_tax (ot_additionalMedicare r) = 450 \<and> ni_tax (ot_niit r) = 760"
proof -
  let ?i = "\<lparr>oi_additionalMedicareTax = None, oi_niit = None, oi_niiAllocableDeductions = None\<rparr>"
    and ?o = "\<lparr>oc_persons = [\<lparr>op_personId = ''p1'', op_medicareWages = 200000, op_nese = 100000\<rparr>], oc_interest = 20000, oc_dividends = 0,
        oc_capitalGains = 0, oc_rental = 0, oc_passiveOrdinary = 0, oc_agi = 300000\<rparr>" and ?c = "new_ctx sample_params 2025 Mfj"
  have "(case computeOtherTaxes ?i ?o ?c of Inr (r, c') \<Rightarrow> True | Inl e \<Rightarrow> False)" by code_simp
  then obtain r c' where r: "computeOtherTaxes ?i ?o ?c = Inr (r, c')" by (auto split: sum.splits)
  have p: "stored_num (cx_params ?c) (filingStatusKey ''addl_medicare.threshold'' (cx_fs ?c)) = 250000"
    "stored_num (cx_params ?c) ''addl_medicare.rate'' = 9 / 1000" "stored_num (cx_params ?c) ''niit.rate'' = 38 / 1000"
    "stored_num (cx_params ?c) (filingStatusKey ''niit.threshold'' (cx_fs ?c)) = 250000" by code_simp+
  from other_taxes_formula [OF r] p r show ?thesis by (simp add: Let_def)
qed

end
