(* ===== verification/Payments.thy ===== *)
theory Payments
  imports EngineBase "HOL-Library.Product_Lexorder" "HOL-Library.Multiset"
begin

section \<open>Payment application (engine/payments.ts)\<close>

text \<open>
  Withholding shares and payments of one jurisdiction applied to its installments, earliest unpaid
  first.  \<open>applyPayments\<close> is modelled as called without the optional context, which only receives
  trace rows and warnings.  The six arrays of the source indexed by installment are one list of
  \<open>ledger\<close> records.  A date is its \<open>YYYY-MM-DD\<close> string and compared as a string.
\<close>

datatype payment_source = PayGl | PayManual | PayPriorYearOverpayment

datatype applied_source = FromPayment payment_source | FromWithholding | FromCarry

record estimate_payment =
  ep_id :: string
  ep_date :: string
  ep_amount :: money
  ep_source :: payment_source
  ep_jurisdiction :: string
  ep_transactionId :: "string option"

definition has_tx :: "estimate_payment \<Rightarrow> string option" where
  "has_tx p = (case ep_transactionId p of None \<Rightarrow> None | Some t \<Rightarrow> if t = [] then None else Some t)"

fun dedupeFrom :: "string list \<Rightarrow> estimate_payment list \<Rightarrow> estimate_payment list" where
  "dedupeFrom seen [] = []"
| "dedupeFrom seen (p # ps) = (case has_tx p of
      None \<Rightarrow> p # dedupeFrom seen ps
    | Some t \<Rightarrow> let k = ep_jurisdiction p @ ''|'' @ t in
        if k \<in> set seen then dedupeFrom seen ps else p # dedupeFrom (k # seen) ps)"

definition dedupePayments :: "estimate_payment list \<Rightarrow> estimate_payment list" where
  "dedupePayments ps = dedupeFrom [] ps"

definition withholdingShares :: "money \<Rightarrow> money list \<Rightarrow> money list result" where
  "withholdingShares withholding pcts =
    (let total = sum_list pcts in
     if pcts = [] then Inr []
     else if \<not> 0 < total then emap (\<lambda>p. quo withholding (of_nat (length pcts))) pcts
     else emap (\<lambda>p. quo (withholding * p) total) pcts)"

record installment_due =
  id_index :: nat
  id_dueDate :: string
  id_required :: money

record payment_application_input =
  pi_jurisdiction :: string
  pi_installments :: "installment_due list"
  pi_withholdingShares :: "money list"
  pi_payments :: "estimate_payment list"
  pi_endDate :: string

record applied_payment =
  ap_paymentId :: string
  ap_date :: string
  ap_amount :: money
  ap_source :: applied_source

record balance_point =
  bp_date :: string
  bp_balance :: money

record application_exact =
  ax_required :: money
  ax_withholdingCredited :: money
  ax_carriedIn :: money
  ax_netRequired :: money
  ax_unpaidAtEnd :: money

record installment_application =
  ia_index :: nat
  ia_dueDate :: string
  ia_required :: money
  ia_withholdingCredited :: money
  ia_carriedIn :: money
  ia_netRequired :: money
  ia_applied :: "applied_payment list"
  ia_paidInFullOn :: "string option"
  ia_unpaidAtEnd :: money
  ia_timeline :: "balance_point list"
  ia_exact :: application_exact

record result_exact =
  rx_excessAfterLast :: money
  rx_totalRequired :: money
  rx_totalWithholding :: money
  rx_totalEstimates :: money
  rx_totalUnpaidAtEnd :: money

record payment_application_result =
  pr_jurisdiction :: string
  pr_installments :: "installment_application list"
  pr_excessAfterLast :: money
  pr_totalRequired :: money
  pr_totalWithholding :: money
  pr_totalEstimates :: money
  pr_totalUnpaidAtEnd :: money
  pr_exact :: result_exact

subsection \<open>Events\<close>

datatype event =
    Due (ev_date: string) (ev_amount: money) (ev_index: nat)
  | Pay (ev_date: string) (ev_amount: money) (ev_index: nat) (ev_payment: applied_payment)

definition kind_order :: "event \<Rightarrow> nat" where
  "kind_order e = (case e of Due _ _ _ \<Rightarrow> 0 | Pay _ _ _ _ \<Rightarrow> 1)"

definition installment_events :: "nat \<Rightarrow> installment_due \<Rightarrow> money \<Rightarrow> event list" where
  "installment_events i inst wh =
    Due (id_dueDate inst) (id_required inst) i #
    (if 0 < wh then [Pay (id_dueDate inst) wh i
        \<lparr>ap_paymentId = ''withholding.'' @ show_nat i, ap_date = id_dueDate inst, ap_amount = wh, ap_source = FromWithholding\<rparr>]
     else [])"

definition payment_events :: "nat \<Rightarrow> estimate_payment \<Rightarrow> event list" where
  "payment_events n p = (if 0 < ep_amount p then [Pay (ep_date p) (ep_amount p) n
      \<lparr>ap_paymentId = ep_id p, ap_date = ep_date p, ap_amount = ep_amount p, ap_source = FromPayment (ep_source p)\<rparr>] else [])"

definition all_events :: "payment_application_input \<Rightarrow> event list" where
  "all_events input =
    concat (map (\<lambda>(i, inst, wh). installment_events i inst wh)
      (zip [0..<length (pi_installments input)] (zip (pi_installments input) (pi_withholdingShares input)))) @
    concat (map (payment_events (length (pi_installments input))) (pi_payments input))"

text \<open>By date, then due before pay, then by index; \<open>Array.sort\<close> is stable, as \<open>sort_key\<close> is.\<close>

definition sorted_events :: "payment_application_input \<Rightarrow> event list" where
  "sorted_events input = sort_key (\<lambda>e. (ev_date e, kind_order e, ev_index e)) (all_events input)"

subsection \<open>The ledger\<close>

record ledger =
  lg_balance :: money
  lg_due :: bool
  lg_paidOn :: "string option"
  lg_carriedIn :: money
  lg_applied :: "applied_payment list"
  lg_timeline :: "balance_point list"

definition empty_ledger :: ledger where
  "empty_ledger = \<lparr>lg_balance = 0, lg_due = False, lg_paidOn = None, lg_carriedIn = 0, lg_applied = [], lg_timeline = []\<rparr>"

definition fall_due :: "string \<Rightarrow> money \<Rightarrow> nat \<Rightarrow> money \<Rightarrow> ledger \<Rightarrow> ledger" where
  "fall_due date amount i carry l =
    (let balance = amount - carry; bal = (if 0 < balance then balance else 0) in
     l\<lparr>lg_due := True, lg_carriedIn := carry, lg_balance := bal,
       lg_applied := lg_applied l @ (if 0 < carry then [\<lparr>ap_paymentId = ''carry.'' @ show_nat i, ap_date = date, ap_amount = carry, ap_source = FromCarry\<rparr>] else []),
       lg_paidOn := (if 0 < balance then lg_paidOn l else Some date),
       lg_timeline := lg_timeline l @ [\<lparr>bp_date = date, bp_balance = bal\<rparr>]\<rparr>)"

definition take_payment :: "string \<Rightarrow> applied_payment \<Rightarrow> money \<Rightarrow> ledger \<Rightarrow> ledger" where
  "take_payment date p amount l =
    (let balance = lg_balance l - amount in
     l\<lparr>lg_balance := balance, lg_applied := lg_applied l @ [p\<lparr>ap_amount := amount\<rparr>],
       lg_timeline := lg_timeline l @ [\<lparr>bp_date = date, bp_balance = balance\<rparr>],
       lg_paidOn := (if 0 < balance then lg_paidOn l else Some date)\<rparr>)"

fun pay_loop :: "string \<Rightarrow> applied_payment \<Rightarrow> money \<Rightarrow> ledger list \<Rightarrow> ledger list \<times> money" where
  "pay_loop date p remaining [] = ([], remaining)"
| "pay_loop date p remaining (l # ls) =
    (if \<not> 0 < remaining then (l # ls, remaining)
     else if \<not> lg_due l \<or> \<not> 0 < lg_balance l then
       (case pay_loop date p remaining ls of (ls', r) \<Rightarrow> (l # ls', r))
     else let amount = min (lg_balance l) remaining in
       (case pay_loop date p (remaining - amount) ls of (ls', r) \<Rightarrow> (take_payment date p amount l # ls', r)))"

fun apply_event :: "event \<Rightarrow> ledger list \<times> money \<Rightarrow> ledger list \<times> money" where
  "apply_event (Due date amount i) (ls, over) =
    (let carry = min over amount in (ls[i := fall_due date amount i carry (ls ! i)], over - carry))"
| "apply_event (Pay date amount i p) (ls, over) =
    (case pay_loop date p amount ls of (ls', remaining) \<Rightarrow>
       (ls', if 0 < remaining then over + remaining else over))"

fun apply_events :: "event list \<Rightarrow> ledger list \<times> money \<Rightarrow> ledger list \<times> money" where
  "apply_events [] st = st"
| "apply_events (e # es) st = apply_events es (apply_event e st)"

definition application_of :: "nat \<Rightarrow> installment_due \<Rightarrow> money \<Rightarrow> ledger \<Rightarrow> installment_application" where
  "application_of i inst wh l =
    (let required = id_required inst;
         netRequired = min required (required - wh - lg_carriedIn l);
         net = (if 0 < netRequired then netRequired else 0);
         whCredited = min wh (required - lg_carriedIn l);
         ex = \<lparr>ax_required = required, ax_withholdingCredited = (if 0 < whCredited then whCredited else 0),
           ax_carriedIn = lg_carriedIn l, ax_netRequired = net, ax_unpaidAtEnd = lg_balance l\<rparr>
     in \<lparr>ia_index = i, ia_dueDate = id_dueDate inst, ia_required = rnd 0 required,
          ia_withholdingCredited = rnd 0 (ax_withholdingCredited ex), ia_carriedIn = rnd 0 (lg_carriedIn l),
          ia_netRequired = rnd 0 net, ia_applied = lg_applied l, ia_paidInFullOn = lg_paidOn l,
          ia_unpaidAtEnd = rnd 0 (lg_balance l), ia_timeline = lg_timeline l, ia_exact = ex\<rparr>)"

definition applyPayments :: "payment_application_input \<Rightarrow> payment_application_result result" where
  "applyPayments input =
    (let n = length (pi_installments input) in
     if length (pi_withholdingShares input) \<noteq> n then Inl (JsError ''TE_PAYMENTS_SHAPE'' [])
     else case apply_events (sorted_events input) (replicate n empty_ledger, 0) of (ls, over) \<Rightarrow>
       let installments = map (\<lambda>(i, inst, wh, l). application_of i inst wh l)
             (zip [0..<n] (zip (pi_installments input) (zip (pi_withholdingShares input) ls)));
           totalRequired = sum_list (map id_required (pi_installments input));
           totalWithholding = sum_list (pi_withholdingShares input);
           totalEstimates = sum_list (map ep_amount (filter (\<lambda>p. 0 < ep_amount p) (pi_payments input)));
           totalUnpaid = sum_list (map lg_balance ls)
       in Inr \<lparr>pr_jurisdiction = pi_jurisdiction input, pr_installments = installments, pr_excessAfterLast = rnd 0 over,
            pr_totalRequired = rnd 0 totalRequired, pr_totalWithholding = rnd 0 totalWithholding,
            pr_totalEstimates = rnd 0 totalEstimates, pr_totalUnpaidAtEnd = rnd 0 totalUnpaid,
            pr_exact = \<lparr>rx_excessAfterLast = over, rx_totalRequired = totalRequired, rx_totalWithholding = totalWithholding,
              rx_totalEstimates = totalEstimates, rx_totalUnpaidAtEnd = totalUnpaid\<rparr>\<rparr>)"

subsection \<open>Conservation\<close>

text \<open>
  The ledger of one installment is balanced when, once due, what was required is what is still unpaid
  plus what was applied to it.
\<close>

definition applied_sum :: "ledger \<Rightarrow> money" where
  "applied_sum l = sum_list (map ap_amount (lg_applied l))"

definition balanced :: "money \<Rightarrow> ledger \<Rightarrow> bool" where
  "balanced required l \<longleftrightarrow> 0 \<le> required \<and>
     (if lg_due l then 0 \<le> lg_balance l \<and> required = lg_balance l + applied_sum l
      else lg_balance l = 0 \<and> lg_applied l = [])"

definition settled :: "ledger \<Rightarrow> bool" where
  "settled l \<longleftrightarrow> (lg_due l \<longrightarrow> lg_balance l = 0)"

definition total_applied :: "ledger list \<Rightarrow> money" where
  "total_applied ls = sum_list (map applied_sum ls)"

lemma sum_list_update_group:
  fixes f :: "'a \<Rightarrow> rat"
  shows "i < length xs \<Longrightarrow> sum_list (map f (xs[i := y])) = sum_list (map f xs) - f (xs ! i) + f y"
proof (induction xs arbitrary: i)
  case (Cons x xs)
  then show ?case by (cases i) simp_all
qed simp

lemma take_payment_balanced:
  assumes "balanced req l" "lg_due l" "0 \<le> amount" "amount \<le> lg_balance l"
  shows "balanced req (take_payment d p amount l)" "applied_sum (take_payment d p amount l) = applied_sum l + amount"
    "lg_due (take_payment d p amount l)" "lg_balance (take_payment d p amount l) = lg_balance l - amount"
  using assms by (simp_all add: balanced_def take_payment_def applied_sum_def Let_def)

lemma pay_loop_invariant:
  assumes "list_all2 balanced reqs ls" "0 \<le> remaining" "pay_loop d p remaining ls = (ls', r)"
  shows "list_all2 balanced reqs ls' \<and> 0 \<le> r \<and> r + total_applied ls' = remaining + total_applied ls \<and>
    map lg_due ls' = map lg_due ls \<and> (0 < r \<longrightarrow> list_all settled ls') \<and> (list_all settled ls \<longrightarrow> list_all settled ls')"
  using assms
proof (induction d p remaining ls arbitrary: reqs ls' r rule: pay_loop.induct)
  case (1 d p remaining)
  then show ?case by simp
next
  case (2 d p remaining l ls)
  from 2(3) obtain req reqs' where reqs: "reqs = req # reqs'" "balanced req l" "list_all2 balanced reqs' ls"
    by (cases reqs) auto
  consider (stop) "\<not> 0 < remaining" | (skip) "0 < remaining" "\<not> lg_due l \<or> \<not> 0 < lg_balance l"
    | (pay) "0 < remaining" "lg_due l" "0 < lg_balance l" by blast
  then show ?case
  proof cases
    case stop
    with 2(5) have "ls' = l # ls" "r = remaining" by auto
    with stop 2(3,4) show ?thesis by simp
  next
    case skip
    obtain ls1 r1 where run: "pay_loop d p remaining ls = (ls1, r1)" by fastforce
    with skip 2(5) have out: "ls' = l # ls1" "r = r1" by auto
    have "settled l" using skip reqs(2) by (auto simp: settled_def balanced_def)
    moreover have "list_all2 balanced reqs' ls1 \<and> 0 \<le> r1 \<and> r1 + total_applied ls1 = remaining + total_applied ls \<and>
        map lg_due ls1 = map lg_due ls \<and> (0 < r1 \<longrightarrow> list_all settled ls1) \<and> (list_all settled ls \<longrightarrow> list_all settled ls1)"
      using 2(1) skip reqs(3) 2(4) run by simp
    ultimately show ?thesis using reqs by (auto simp: out total_applied_def)
  next
    case pay
    define amount where "amount = min (lg_balance l) remaining"
    have amount: "0 \<le> amount" "amount \<le> lg_balance l" "amount \<le> remaining" "amount = lg_balance l \<or> amount = remaining"
      using pay by (auto simp: amount_def)
    obtain ls1 r1 where run: "pay_loop d p (remaining - amount) ls = (ls1, r1)" by fastforce
    with pay 2(5) have out: "ls' = take_payment d p amount l # ls1" "r = r1"
      by (auto simp: amount_def [symmetric] Let_def)
    have inv: "list_all2 balanced reqs' ls1 \<and> 0 \<le> r1 \<and> r1 + total_applied ls1 = remaining - amount + total_applied ls \<and>
        map lg_due ls1 = map lg_due ls \<and> (0 < r1 \<longrightarrow> list_all settled ls1) \<and> (list_all settled ls \<longrightarrow> list_all settled ls1)"
      using 2(2) pay reqs(3) run amount by (simp add: amount_def [symmetric])
    note t = take_payment_balanced [OF reqs(2) pay(2) amount(1,2), of d p]
    have "pay_loop d p 0 ls = (ls, 0)" by (cases ls) simp_all
    then have "amount = remaining \<Longrightarrow> r1 = 0" using run by simp
    with amount(4) t(4) have "0 < r1 \<longrightarrow> settled (take_payment d p amount l)" by (auto simp: settled_def)
    moreover have "\<not> settled l" using pay by (simp add: settled_def)
    ultimately show ?thesis using inv t reqs pay(2) by (auto simp: out total_applied_def)
  qed
qed

definition due_indices :: "event list \<Rightarrow> nat list" where
  "due_indices es = map ev_index (filter (\<lambda>e. kind_order e = 0) es)"

definition paid_total :: "event list \<Rightarrow> money" where
  "paid_total es = sum_list (map ev_amount (filter (\<lambda>e. kind_order e \<noteq> 0) es))"

definition fits :: "money list \<Rightarrow> event \<Rightarrow> bool" where
  "fits reqs e = (case e of Due d a i \<Rightarrow> i < length reqs \<and> reqs ! i = a | Pay d a i p \<Rightarrow> 0 < a)"

lemma fall_due_balanced:
  assumes "balanced amount l" "\<not> lg_due l" "0 \<le> carry" "carry \<le> amount"
  shows "balanced amount (fall_due d amount i carry l)" "applied_sum (fall_due d amount i carry l) = carry"
    "lg_due (fall_due d amount i carry l)" "carry = amount \<Longrightarrow> settled (fall_due d amount i carry l)"
  using assms by (auto simp: balanced_def fall_due_def applied_sum_def settled_def Let_def)

lemma apply_event_invariant:
  assumes "list_all2 balanced reqs ls" "0 \<le> over" "0 < over \<longrightarrow> list_all settled ls" "fits reqs e"
    and "kind_order e = 0 \<Longrightarrow> \<not> lg_due (ls ! ev_index e)" "apply_event e (ls, over) = (ls', over')"
  shows "list_all2 balanced reqs ls' \<and> 0 \<le> over' \<and> (0 < over' \<longrightarrow> list_all settled ls') \<and>
    over' + total_applied ls' = over + total_applied ls + paid_total [e] \<and>
    map lg_due ls' = (if kind_order e = 0 then (map lg_due ls)[ev_index e := True] else map lg_due ls)"
proof (cases e)
  case (Due d amount i)
  have len: "length ls = length reqs" using assms(1) by (simp add: list_all2_lengthD)
  have i: "i < length reqs" "reqs ! i = amount" "\<not> lg_due (ls ! i)"
    using assms(4,5) Due by (auto simp: fits_def kind_order_def)
  have b: "balanced amount (ls ! i)" using assms(1) i len by (metis list_all2_nthD2)
  define carry where "carry = min over amount"
  have carry: "0 \<le> carry" "carry \<le> amount" "carry \<le> over" using assms(2) b by (auto simp: carry_def balanced_def)
  note f = fall_due_balanced [OF b i(3) carry(1,2), of d i]
  have out: "ls' = ls[i := fall_due d amount i carry (ls ! i)]" "over' = over - carry"
    using assms(6) Due by (auto simp: carry_def Let_def)
  have "list_all2 balanced reqs ls'"
    using list_all2_update_cong [OF assms(1) f(1), of i] list_update_id [of reqs i] i(2) by (simp add: out)
  moreover have "0 < over' \<longrightarrow> list_all settled ls'"
  proof
    assume "0 < over'"
    then have "0 < over" "carry = amount" using carry by (auto simp: out carry_def min_def split: if_splits)
    then have "list_all settled ls" "settled (fall_due d amount i carry (ls ! i))" using assms(3) f(4) by auto
    then show "list_all settled ls'" unfolding out list_all_iff using set_update_subset_insert by fastforce
  qed
  moreover have "total_applied ls' = total_applied ls + carry"
    using i len f(2) b sum_list_update_group [of i ls applied_sum "fall_due d amount i carry (ls ! i)"]
    by (simp add: out total_applied_def) (simp add: balanced_def applied_sum_def)
  moreover have "map lg_due ls' = (map lg_due ls)[i := True]" using f(3) by (simp add: out map_update)
  ultimately show ?thesis using carry Due by (simp add: out(2) paid_total_def kind_order_def)
next
  case (Pay d amount i p)
  obtain ls1 r where run: "pay_loop d p amount ls = (ls1, r)" by fastforce
  have "0 < amount" using assms(4) Pay by (simp add: fits_def)
  note inv = pay_loop_invariant [OF assms(1) _ run]
  have out: "ls' = ls1" "over' = (if 0 < r then over + r else over)" using assms(6) Pay run by auto
  show ?thesis using inv \<open>0 < amount\<close> assms(2,3) Pay
    by (auto simp: out paid_total_def kind_order_def)
qed

lemma apply_events_invariant:
  assumes "list_all2 balanced reqs ls" "0 \<le> over" "0 < over \<longrightarrow> list_all settled ls" "list_all (fits reqs) es"
    and "distinct (due_indices es)" "\<forall>i \<in> set (due_indices es). \<not> lg_due (ls ! i)"
    and "apply_events es (ls, over) = (ls', over')"
  shows "list_all2 balanced reqs ls' \<and> 0 \<le> over' \<and> (0 < over' \<longrightarrow> list_all settled ls') \<and>
    over' + total_applied ls' = over + total_applied ls + paid_total es \<and>
    (\<forall>i < length reqs. lg_due (ls' ! i) \<longleftrightarrow> lg_due (ls ! i) \<or> i \<in> set (due_indices es))"
  using assms
proof (induction es arbitrary: ls over)
  case Nil
  then show ?case by (simp add: paid_total_def due_indices_def)
next
  case (Cons e es)
  obtain ls1 over1 where step: "apply_event e (ls, over) = (ls1, over1)" by fastforce
  have e: "fits reqs e" "kind_order e = 0 \<Longrightarrow> \<not> lg_due (ls ! ev_index e)"
    using Cons.prems(4,6) by (auto simp: due_indices_def)
  note inv = apply_event_invariant [OF Cons.prems(1-3) e step]
  have len: "length ls = length reqs" "length ls1 = length reqs"
    using Cons.prems(1) inv by (auto dest: list_all2_lengthD)
  have due1: "lg_due (ls1 ! j) \<longleftrightarrow> lg_due (ls ! j) \<or> (kind_order e = 0 \<and> j = ev_index e)" if "j < length reqs" for j
  proof -
    have "lg_due (ls1 ! j) = map lg_due ls1 ! j" using that len by simp
    also have "\<dots> = (if kind_order e = 0 then (map lg_due ls)[ev_index e := True] else map lg_due ls) ! j" using inv by simp
    finally show ?thesis using that len by (cases "kind_order e = 0"; cases "j = ev_index e") simp_all
  qed
  have idx: "i < length reqs" if "i \<in> set (due_indices es)" for i
  proof -
    from that obtain e' where e': "e' \<in> set es" "kind_order e' = 0" "i = ev_index e'" by (auto simp: due_indices_def)
    then have "fits reqs e'" using Cons.prems(4) by (simp add: list_all_iff)
    with e'(2,3) show ?thesis by (simp add: fits_def kind_order_def split: event.splits)
  qed
  have "list_all2 balanced reqs ls' \<and> 0 \<le> over' \<and> (0 < over' \<longrightarrow> list_all settled ls') \<and>
    over' + total_applied ls' = over1 + total_applied ls1 + paid_total es \<and>
    (\<forall>i < length reqs. lg_due (ls' ! i) \<longleftrightarrow> lg_due (ls1 ! i) \<or> i \<in> set (due_indices es))"
  proof (rule Cons.IH)
    show "list_all2 balanced reqs ls1" "0 \<le> over1" "0 < over1 \<longrightarrow> list_all settled ls1" using inv by simp_all
    show "list_all (fits reqs) es" "distinct (due_indices es)"
      using Cons.prems(4,5) by (auto simp: due_indices_def split: if_splits)
    show "\<forall>i \<in> set (due_indices es). \<not> lg_due (ls1 ! i)"
    proof
      fix i assume i: "i \<in> set (due_indices es)"
      have "\<not> lg_due (ls ! i)" using Cons.prems(6) i by (auto simp: due_indices_def)
      moreover have "kind_order e = 0 \<Longrightarrow> ev_index e \<notin> set (due_indices es)"
        using Cons.prems(5) by (simp add: due_indices_def)
      ultimately have "\<not> lg_due (ls ! i)" "\<not> (kind_order e = 0 \<and> i = ev_index e)"
        using i by blast+
      with due1 [OF idx [OF i]] show "\<not> lg_due (ls1 ! i)" by simp
    qed
    show "apply_events es (ls1, over1) = (ls', over')" using Cons.prems(7) step by simp
  qed
  then show ?case using inv due1 by (auto simp: paid_total_def due_indices_def)
qed

lemma perm_filter_map:
  assumes "mset xs = mset ys"
  shows "mset (map f (filter P xs)) = mset (map f (filter P ys))"
  by (simp only: mset_map mset_filter assms)

lemma paid_total_perm:
  assumes "mset xs = mset ys"
  shows "paid_total xs = paid_total ys"
  unfolding paid_total_def sum_mset_sum_list [symmetric] by (simp only: perm_filter_map [OF assms])

lemma due_indices_perm: "mset xs = mset ys \<Longrightarrow> mset (due_indices xs) = mset (due_indices ys)"
  unfolding due_indices_def by (rule perm_filter_map)

lemma due_indices_append: "due_indices (xs @ ys) = due_indices xs @ due_indices ys"
  by (simp add: due_indices_def)

lemma paid_total_append: "paid_total (xs @ ys) = paid_total xs + paid_total ys"
  by (simp add: paid_total_def)

lemma payment_events_totals:
  "due_indices (concat (map (payment_events n) ps)) = []"
  "paid_total (concat (map (payment_events n) ps)) = sum_list (map ep_amount (filter (\<lambda>p. 0 < ep_amount p) ps))"
  "list_all (fits reqs) (concat (map (payment_events n) ps))"
  by (induction ps) (simp_all add: payment_events_def due_indices_def paid_total_def kind_order_def fits_def)

definition events_from :: "nat \<Rightarrow> installment_due list \<Rightarrow> money list \<Rightarrow> event list" where
  "events_from k insts ws = concat (map (\<lambda>(i, inst, wh). installment_events i inst wh)
     (zip [k..<k + length insts] (zip insts ws)))"

lemma events_from_simps:
  "events_from k [] ws = []"
  "events_from k (inst # insts) (w # ws) = installment_events k inst w @ events_from (Suc k) insts ws"
  by (simp_all add: events_from_def upt_conv_Cons del: upt_Suc)

lemma installment_events_one:
  assumes "0 \<le> w"
  shows "due_indices (installment_events k inst w) = [k]" "paid_total (installment_events k inst w) = w"
    "length pre = k \<Longrightarrow> list_all (fits (pre @ id_required inst # rest)) (installment_events k inst w)"
  using assms by (auto simp: installment_events_def due_indices_def paid_total_def kind_order_def fits_def)

lemma installment_events_totals:
  assumes "length ws = length insts" "list_all (\<lambda>w. 0 \<le> w) ws"
  shows "due_indices (events_from k insts ws) = [k..<k + length insts] \<and> paid_total (events_from k insts ws) = sum_list ws \<and>
    (length pre = k \<longrightarrow> list_all (fits (pre @ map id_required insts)) (events_from k insts ws))"
  using assms
proof (induction insts arbitrary: ws k pre)
  case Nil
  then show ?case by (simp add: events_from_simps due_indices_def paid_total_def)
next
  case (Cons inst insts)
  then obtain w ws' where ws: "ws = w # ws'" "0 \<le> w" "length ws' = length insts" "list_all (\<lambda>w. 0 \<le> w) ws'"
    by (cases ws) auto
  note one = installment_events_one(1,2) [OF ws(2), of k inst]
    installment_events_one(3) [OF ws(2), of pre k inst "map id_required insts"]
  note rest = Cons.IH [OF ws(3,4), of "Suc k" "pre @ [id_required inst]"]
  show ?case
    using one rest by (auto simp: ws(1) events_from_simps due_indices_append paid_total_append upt_conv_Cons simp del: upt_Suc)
qed

lemma ledgers_final:
  assumes "length (pi_withholdingShares input) = length (pi_installments input)"
    and "list_all (\<lambda>w. 0 \<le> w) (pi_withholdingShares input)"
    and "list_all (\<lambda>x. 0 \<le> id_required x) (pi_installments input)"
    and "apply_events (sorted_events input) (replicate (length (pi_installments input)) empty_ledger, 0) = (ls, over)"
  shows "list_all2 balanced (map id_required (pi_installments input)) ls" "list_all lg_due ls" "0 \<le> over"
    "0 < over \<longrightarrow> list_all settled ls"
    "over + total_applied ls = sum_list (pi_withholdingShares input) +
       sum_list (map ep_amount (filter (\<lambda>p. 0 < ep_amount p) (pi_payments input)))"
proof -
  let ?reqs = "map id_required (pi_installments input)" and ?n = "length (pi_installments input)"
  have perm: "mset (sorted_events input) = mset (all_events input)" by (simp add: sorted_events_def)
  have first: "all_events input = events_from 0 (pi_installments input) (pi_withholdingShares input) @
      concat (map (payment_events ?n) (pi_payments input))"
    by (simp add: all_events_def events_from_def)
  note tot = installment_events_totals [OF assms(1,2), of 0 "[]"]
  have all: "due_indices (all_events input) = [0..<?n]" "list_all (fits ?reqs) (all_events input)"
    "paid_total (all_events input) = sum_list (pi_withholdingShares input) +
       sum_list (map ep_amount (filter (\<lambda>p. 0 < ep_amount p) (pi_payments input)))"
    using tot payment_events_totals by (simp_all add: first due_indices_append paid_total_append)
  have idx: "distinct (due_indices (sorted_events input))" "set (due_indices (sorted_events input)) = {0..<?n}"
    using due_indices_perm [OF perm] all(1)
    by (metis distinct_upt mset_eq_imp_distinct_iff, metis mset_eq_setD set_upt)
  have fit: "list_all (fits ?reqs) (sorted_events input)"
    using all(2) mset_eq_setD [OF perm] by (simp add: list_all_iff)
  have "list_all2 balanced ?reqs (replicate ?n empty_ledger)"
    using assms(3) by (auto simp: list_all2_conv_all_nth list_all_iff balanced_def empty_ledger_def)
  moreover have "\<forall>i \<in> set (due_indices (sorted_events input)). \<not> lg_due (replicate ?n empty_ledger ! i)"
    using idx(2) by (simp add: empty_ledger_def)
  ultimately have inv: "list_all2 balanced ?reqs ls \<and> 0 \<le> over \<and> (0 < over \<longrightarrow> list_all settled ls) \<and>
      over + total_applied ls = 0 + total_applied (replicate ?n empty_ledger) + paid_total (sorted_events input) \<and>
      (\<forall>i < length ?reqs. lg_due (ls ! i) \<longleftrightarrow> lg_due (replicate ?n empty_ledger ! i) \<or> i \<in> set (due_indices (sorted_events input)))"
    using assms(4) fit idx(1) by (intro apply_events_invariant) simp_all
  then show "list_all2 balanced ?reqs ls" "0 \<le> over" "0 < over \<longrightarrow> list_all settled ls" by simp_all
  then have len: "length ls = ?n" by (auto dest: list_all2_lengthD)
  show "list_all lg_due ls" using inv idx(2) len by (auto simp: list_all_length)
  have "total_applied (replicate ?n empty_ledger) = 0"
    by (simp add: total_applied_def applied_sum_def empty_ledger_def sum_list_replicate)
  with inv all(3) paid_total_perm [OF perm] show "over + total_applied ls = sum_list (pi_withholdingShares input) +
       sum_list (map ep_amount (filter (\<lambda>p. 0 < ep_amount p) (pi_payments input)))" by simp
qed

lemma balanced_sum:
  assumes "list_all2 balanced reqs ls" "list_all lg_due ls"
  shows "sum_list reqs = sum_list (map lg_balance ls) + total_applied ls" "0 \<le> sum_list (map lg_balance ls)"
    "list_all settled ls \<Longrightarrow> sum_list (map lg_balance ls) = 0"
  using assms by (induction rule: list_all2_induct) (auto simp: total_applied_def balanced_def settled_def)

text \<open>
  C19: applying payments conserves money: with non-negative required amounts and withholding shares,
  what was required plus the excess is what is still unpaid plus everything credited, the unpaid total
  is exactly the shortfall of the credits (so nothing stays unpaid while there is an excess, in whatever
  order the payments came), and each installment's required amount is its unpaid balance plus what the
  ledger shows as applied to it.
\<close>

theorem payments_conserved:
  assumes "applyPayments input = Inr r"
    and "list_all (\<lambda>w. 0 \<le> w) (pi_withholdingShares input)" "list_all (\<lambda>x. 0 \<le> id_required x) (pi_installments input)"
  shows "let x = pr_exact r; credited = rx_totalWithholding x + rx_totalEstimates x in
    rx_totalRequired x + rx_excessAfterLast x = rx_totalUnpaidAtEnd x + credited \<and>
    rx_totalUnpaidAtEnd x = floor0 (rx_totalRequired x - credited) \<and>
    rx_excessAfterLast x = floor0 (credited - rx_totalRequired x) \<and>
    (\<forall>a \<in> set (pr_installments r). 0 \<le> ax_unpaidAtEnd (ia_exact a) \<and>
       ax_required (ia_exact a) = ax_unpaidAtEnd (ia_exact a) + sum_list (map ap_amount (ia_applied a)))"
proof -
  let ?n = "length (pi_installments input)"
  obtain ls over where run: "apply_events (sorted_events input) (replicate ?n empty_ledger, 0) = (ls, over)" by fastforce
  have len: "length (pi_withholdingShares input) = ?n" using assms(1) by (auto simp: applyPayments_def Let_def split: if_splits)
  note fin = ledgers_final [OF len assms(2,3) run]
  note sums = balanced_sum [OF fin(1,2)]
  define W E where "W = sum_list (pi_withholdingShares input)"
    and "E = sum_list (map ep_amount (filter (\<lambda>p. 0 < ep_amount p) (pi_payments input)))"
  have x: "pr_exact r = \<lparr>rx_excessAfterLast = over, rx_totalRequired = sum_list (map id_required (pi_installments input)),
      rx_totalWithholding = W, rx_totalEstimates = E, rx_totalUnpaidAtEnd = sum_list (map lg_balance ls)\<rparr>"
    and i: "pr_installments r = map (\<lambda>(i, inst, wh, l). application_of i inst wh l)
      (zip [0..<?n] (zip (pi_installments input) (zip (pi_withholdingShares input) ls)))"
    using assms(1) len run by (auto simp: applyPayments_def Let_def W_def E_def)
  have "sum_list (map id_required (pi_installments input)) + over = sum_list (map lg_balance ls) + (W + E)"
    using fin(5) sums(1) by (simp add: W_def E_def)
  moreover have "0 < over \<longrightarrow> sum_list (map lg_balance ls) = 0" using fin(4) sums(3) by blast
  moreover have "0 \<le> ax_unpaidAtEnd (ia_exact a) \<and>
      ax_required (ia_exact a) = ax_unpaidAtEnd (ia_exact a) + sum_list (map ap_amount (ia_applied a))"
    if "a \<in> set (pr_installments r)" for a
  proof -
    from that obtain j where j: "j < ?n" "j < length ls"
      "a = application_of j (pi_installments input ! j) (pi_withholdingShares input ! j) (ls ! j)"
      using len unfolding i by (auto simp: set_zip)
    have "balanced (id_required (pi_installments input ! j)) (ls ! j)" "lg_due (ls ! j)"
      using list_all2_nthD2 [OF fin(1) j(2)] j(1) fin(2) j(2) by (simp_all add: list_all_length)
    then show ?thesis by (simp add: j(3) application_of_def balanced_def applied_sum_def Let_def)
  qed
  ultimately show ?thesis using fin(3) sums(2) unfolding x by (auto simp: Let_def floor0_def max_def)
qed

definition sample_application :: payment_application_input where
  "sample_application = \<lparr>pi_jurisdiction = ''federal'',
     pi_installments = [\<lparr>id_index = 0, id_dueDate = ''2026-04-15'', id_required = 1000\<rparr>,
       \<lparr>id_index = 1, id_dueDate = ''2026-06-15'', id_required = 1000\<rparr>],
     pi_withholdingShares = [100, 100],
     pi_payments = [\<lparr>ep_id = ''a'', ep_date = ''2026-05-01'', ep_amount = 1200, ep_source = PayGl,
       ep_jurisdiction = ''federal'', ep_transactionId = None\<rparr>],
     pi_endDate = ''2027-04-15''\<rparr>"

lemma payments_conserved_witness:
  "\<exists>r. applyPayments sample_application = Inr r \<and> rx_totalUnpaidAtEnd (pr_exact r) = 600 \<and> rx_excessAfterLast (pr_exact r) = 0"
proof -
  have "(case applyPayments sample_application of Inr r \<Rightarrow> rx_totalRequired (pr_exact r) = 2000 \<and>
      rx_totalWithholding (pr_exact r) = 200 \<and> rx_totalEstimates (pr_exact r) = 1200 | Inl e \<Rightarrow> False)" by code_simp
  then obtain r where r: "applyPayments sample_application = Inr r" "rx_totalRequired (pr_exact r) = 2000"
      "rx_totalWithholding (pr_exact r) = 200" "rx_totalEstimates (pr_exact r) = 1200"
    by (auto split: sum.splits)
  have "list_all (\<lambda>w. 0 \<le> w) (pi_withholdingShares sample_application)"
    "list_all (\<lambda>x. 0 \<le> id_required x) (pi_installments sample_application)" by (simp_all add: sample_application_def)
  from payments_conserved [OF r(1) this] r show ?thesis by (simp add: Let_def)
qed

subsection \<open>Deduplication\<close>

definition tx_key :: "estimate_payment \<Rightarrow> string option" where
  "tx_key p = (case has_tx p of None \<Rightarrow> None | Some t \<Rightarrow> Some (ep_jurisdiction p @ ''|'' @ t))"

lemma dedupeFrom_Cons:
  "dedupeFrom seen (p # ps) = (case tx_key p of None \<Rightarrow> p # dedupeFrom seen ps
     | Some k \<Rightarrow> if k \<in> set seen then dedupeFrom seen ps else p # dedupeFrom (k # seen) ps)"
  by (simp add: dedupeFrom.simps(2) tx_key_def Let_def split: option.split)

declare dedupeFrom.simps(2) [simp del]

lemma dedupeFrom_props:
  "distinct (map tx_key (filter (\<lambda>p. tx_key p \<noteq> None) (dedupeFrom seen ps))) \<and>
   (\<forall>p \<in> set (dedupeFrom seen ps). \<forall>k. tx_key p = Some k \<longrightarrow> k \<notin> set seen) \<and>
   filter (\<lambda>p. tx_key p = None) (dedupeFrom seen ps) = filter (\<lambda>p. tx_key p = None) ps \<and>
   (\<forall>p \<in> set ps. \<forall>k. tx_key p = Some k \<longrightarrow> k \<in> set seen \<or> (\<exists>q \<in> set (dedupeFrom seen ps). tx_key q = Some k))"
proof (induction ps arbitrary: seen)
  case Nil
  show ?case by simp
next
  case (Cons p ps)
  show ?case
  proof (cases "tx_key p")
    case None
    with Cons.IH [of seen] show ?thesis by (auto simp: dedupeFrom_Cons)
  next
    case (Some k)
    show ?thesis
    proof (cases "k \<in> set seen")
      case True
      with Some Cons.IH [of seen] show ?thesis by (auto simp: dedupeFrom_Cons)
    next
      case False
      have "\<forall>q \<in> set (dedupeFrom (k # seen) ps). tx_key q \<noteq> Some k" using Cons.IH [of "k # seen"] by auto
      with Some False Cons.IH [of "k # seen"] show ?thesis by (auto simp: dedupeFrom_Cons)
    qed
  qed
qed

lemma dedupeFrom_sub: "set (dedupeFrom seen ps) \<subseteq> set ps"
  by (induction ps arbitrary: seen) (auto simp: dedupeFrom_Cons split: option.split)

lemma dedupeFrom_id:
  "distinct (map tx_key (filter (\<lambda>p. tx_key p \<noteq> None) ps)) \<Longrightarrow> \<forall>p \<in> set ps. \<forall>k. tx_key p = Some k \<longrightarrow> k \<notin> set seen \<Longrightarrow>
   dedupeFrom seen ps = ps"
proof (induction ps arbitrary: seen)
  case (Cons p ps)
  show ?case
  proof (cases "tx_key p")
    case None
    with Cons show ?thesis by (simp add: dedupeFrom_Cons)
  next
    case (Some k)
    from Some Cons.prems have "\<forall>q \<in> set ps. \<forall>k'. tx_key q = Some k' \<longrightarrow> k' \<notin> set (k # seen)"
      by (auto simp: image_iff)
    with Some Cons.prems Cons.IH [of "k # seen"] show ?thesis by (simp add: dedupeFrom_Cons)
  qed
qed simp

text \<open>
  C20: \<open>dedupePayments\<close> keeps one row for each jurisdiction and transaction id of its input and every
  row without an id, invents none, and applied again changes nothing.
\<close>

theorem dedupe_one_per_transaction:
  "distinct (map tx_key (filter (\<lambda>p. tx_key p \<noteq> None) (dedupePayments ps))) \<and> set (dedupePayments ps) \<subseteq> set ps \<and>
   tx_key ` set (dedupePayments ps) = tx_key ` set ps \<and>
   filter (\<lambda>p. tx_key p = None) (dedupePayments ps) = filter (\<lambda>p. tx_key p = None) ps \<and>
   dedupePayments (dedupePayments ps) = dedupePayments ps"
proof -
  note props = dedupeFrom_props [of "[]" ps] and sub = dedupeFrom_sub [of "[]" ps]
  have "tx_key p \<in> tx_key ` set (dedupeFrom [] ps)" if "p \<in> set ps" for p
  proof (cases "tx_key p")
    case None
    with that have "p \<in> set (filter (\<lambda>p. tx_key p = None) ps)" by simp
    with props have "p \<in> set (dedupeFrom [] ps)" by (metis filter_is_subset subsetD)
    then show ?thesis by simp
  next
    case (Some k)
    with props that obtain q where "q \<in> set (dedupeFrom [] ps)" "tx_key q = Some k" by fastforce
    with Some show ?thesis by (metis image_eqI)
  qed
  then have "tx_key ` set (dedupeFrom [] ps) = tx_key ` set ps" using sub by blast
  moreover have "dedupeFrom [] (dedupeFrom [] ps) = dedupeFrom [] ps" using props by (intro dedupeFrom_id) simp_all
  ultimately show ?thesis using props sub by (simp add: dedupePayments_def)
qed

end
