(* ===== verification/Calendar.thy ===== *)
theory Calendar
  imports Prelude
begin

section \<open>The UTC calendar (JavaScript Date, utils/calendar-date.ts, tax-estimator/dates.ts)\<close>

text \<open>
  The date code of the repository computes on \<open>YYYY-MM-DD\<close> strings through \<open>Date.UTC\<close> and the
  \<open>getUTC\<close> accessors.  A time value that is a whole number of days is modelled by that number of
  days since 1970-01-01; \<open>date_utc\<close> and \<open>civil\<close> follow ECMAScript's MakeDay and YearFromTime /
  MonthFromTime / DateFromTime, with the rule of \<open>Date.UTC\<close> that the years 0 to 99 mean 1900 to
  1999.  Time values beyond the range of Date (about 270,000 years either way) are not modelled: every
  function below stays within a day count of its argument.
\<close>

subsection \<open>Days and civil dates\<close>

definition is_leap :: "int \<Rightarrow> bool" where
  "is_leap y \<longleftrightarrow> (y mod 4 = 0 \<and> y mod 100 \<noteq> 0) \<or> y mod 400 = 0"

definition day_from_year :: "int \<Rightarrow> int" where
  "day_from_year y = 365 * (y - 1970) + (y - 1969) div 4 - (y - 1901) div 100 + (y - 1601) div 400"

definition cum_days :: "bool \<Rightarrow> int \<Rightarrow> int" where
  "cum_days l m =
    (if m \<le> 0 then 0 else if m = 1 then 31
     else (if l then 1 else 0) +
       (if m = 2 then 59 else if m = 3 then 90 else if m = 4 then 120 else if m = 5 then 151
        else if m = 6 then 181 else if m = 7 then 212 else if m = 8 then 243 else if m = 9 then 273
        else if m = 10 then 304 else if m = 11 then 334 else 365))"

text \<open>MakeDay: month \<open>m\<close> counts from 0 and may lie outside 0..11; \<open>d\<close> may be any day.\<close>

definition make_day :: "int \<Rightarrow> int \<Rightarrow> int \<Rightarrow> int" where
  "make_day y m d = (let y' = y + m div 12; m' = m mod 12
     in day_from_year y' + cum_days (is_leap y') m' + d - 1)"

definition full_year :: "int \<Rightarrow> int" where
  "full_year y = (if 0 \<le> y \<and> y \<le> 99 then 1900 + y else y)"

definition date_utc :: "int \<Rightarrow> int \<Rightarrow> int \<Rightarrow> int" where
  "date_utc y m d = make_day (full_year y) m d"

text \<open>The year of a day: the estimate by the mean year length is off by at most one.\<close>

definition year_of_day :: "int \<Rightarrow> int" where
  "year_of_day n = (let g = 1970 + (n * 400) div 146097
     in if day_from_year (g + 1) \<le> n then g + 1 else if n < day_from_year g then g - 1 else g)"

definition month_of :: "bool \<Rightarrow> int \<Rightarrow> int" where
  "month_of l n =
    (let k = (\<lambda>m. cum_days l m) in
     if n < k 1 then 0 else if n < k 2 then 1 else if n < k 3 then 2 else if n < k 4 then 3
     else if n < k 5 then 4 else if n < k 6 then 5 else if n < k 7 then 6 else if n < k 8 then 7
     else if n < k 9 then 8 else if n < k 10 then 9 else if n < k 11 then 10 else 11)"

text \<open>Year, month 1..12 and day of the month of a day number.\<close>

definition civil :: "int \<Rightarrow> int \<times> int \<times> int" where
  "civil n = (let y = year_of_day n; r = n - day_from_year y; m = month_of (is_leap y) r
     in (y, m + 1, r - cum_days (is_leap y) m + 1))"

text \<open>\<open>getUTCDay\<close>: 1970-01-01 was a Thursday.\<close>

definition week_day :: "int \<Rightarrow> int" where
  "week_day n = (n + 4) mod 7"

definition days_in_month :: "int \<Rightarrow> int \<Rightarrow> int" where
  "days_in_month y m = cum_days (is_leap y) m - cum_days (is_leap y) (m - 1)"

definition valid_date :: "int \<Rightarrow> int \<Rightarrow> int \<Rightarrow> bool" where
  "valid_date y m d \<longleftrightarrow> 1 \<le> m \<and> m \<le> 12 \<and> 1 \<le> d \<and> d \<le> days_in_month y m"

lemma day_from_year_Suc: "day_from_year (y + 1) = day_from_year y + (if is_leap y then 366 else 365)"
proof -
  have ma: "(y - 1968) mod 4 = y mod 4" using mod_mult_self1 [of y "-492" 4] by simp
  have mb: "(y - 1900) mod 100 = y mod 100" using mod_mult_self1 [of y "-19" 100] by simp
  have mc: "(y - 1600) mod 400 = y mod 400" using mod_mult_self1 [of y "-4" 400] by simp
  have a: "(y + 1 - 1969) div 4 = (y - 1969) div 4 + (if y mod 4 = 0 then 1 else 0)"
    using div_step [of 4 "y - 1969"] by (simp add: ma)
  have b: "(y + 1 - 1901) div 100 = (y - 1901) div 100 + (if y mod 100 = 0 then 1 else 0)"
    using div_step [of 100 "y - 1901"] by (simp add: mb)
  have c: "(y + 1 - 1601) div 400 = (y - 1601) div 400 + (if y mod 400 = 0 then 1 else 0)"
    using div_step [of 400 "y - 1601"] by (simp add: mc)
  have "y mod 400 = 0 \<Longrightarrow> y mod 100 = 0" "y mod 100 = 0 \<Longrightarrow> y mod 4 = 0"
    by (simp_all add: mod_eq_0_iff_dvd) (auto intro: dvd_trans [of 100 400] dvd_trans [of 4 100])
  then show ?thesis unfolding day_from_year_def a b c is_leap_def by auto
qed

lemma day_from_year_approx:
  "146097 * (y - 1970) - 800 \<le> 400 * day_from_year y" "400 * day_from_year y \<le> 146097 * (y - 1970) + 700"
proof -
  define a b c where "a = (y - 1969) div 4" and "b = (y - 1901) div 100" and "c = (y - 1601) div 400"
  have "4 * a \<le> y - 1969" "y - 1969 < 4 * a + 4" unfolding a_def by (simp_all only: div_bounds)
  moreover have "100 * b \<le> y - 1901" "y - 1901 < 100 * b + 100" unfolding b_def by (simp_all only: div_bounds)
  moreover have "400 * c \<le> y - 1601" "y - 1601 < 400 * c + 400" unfolding c_def by (simp_all only: div_bounds)
  moreover have "day_from_year y = 365 * (y - 1970) + a - b + c"
    by (simp add: day_from_year_def a_def b_def c_def)
  ultimately show "146097 * (y - 1970) - 800 \<le> 400 * day_from_year y"
    "400 * day_from_year y \<le> 146097 * (y - 1970) + 700" by (simp_all add: algebra_simps)
qed

lemma year_of_day_bounds: "day_from_year (year_of_day n) \<le> n" "n < day_from_year (year_of_day n + 1)"
proof -
  define g where "g = 1970 + (n * 400) div 146097"
  have g: "146097 * (g - 1970) \<le> 400 * n" "400 * n < 146097 * (g - 1970) + 146097"
    using div_bounds [of 146097 "n * 400"] unfolding g_def by simp_all
  have lo: "day_from_year (g - 1) \<le> n"
    using day_from_year_approx(2) [of "g - 1"] g by (simp add: algebra_simps)
  have hi: "n < day_from_year (g + 1 + 1)"
    using day_from_year_approx(1) [of "g + 1 + 1"] g by (simp add: algebra_simps)
  show "day_from_year (year_of_day n) \<le> n"
    using lo by (simp add: year_of_day_def Let_def g_def [symmetric])
  show "n < day_from_year (year_of_day n + 1)"
    using hi by (simp add: year_of_day_def Let_def g_def [symmetric])
qed

lemma day_from_year_mono: "y < z \<Longrightarrow> day_from_year y < day_from_year z"
proof (induction "nat (z - y)" arbitrary: z)
  case 0
  then show ?case by simp
next
  case (Suc k)
  have step: "day_from_year (z - 1) < day_from_year z" using day_from_year_Suc [of "z - 1"] by auto
  show ?case
  proof (cases "y = z - 1")
    case True
    with step show ?thesis by simp
  next
    case False
    with Suc.prems Suc.hyps have "day_from_year y < day_from_year (z - 1)" by simp
    with step show ?thesis by linarith
  qed
qed

lemma day_from_year_mono_le: "y \<le> z \<Longrightarrow> day_from_year y \<le> day_from_year z"
  using day_from_year_mono [of y z] by (cases "y = z") simp_all

lemma year_of_day_unique:
  assumes "day_from_year y \<le> n" "n < day_from_year (y + 1)"
  shows "year_of_day n = y"
proof (rule ccontr)
  assume "year_of_day n \<noteq> y"
  then consider "year_of_day n + 1 \<le> y" | "y + 1 \<le> year_of_day n" by linarith
  then show False
  proof cases
    case 1
    then have "day_from_year (year_of_day n + 1) \<le> day_from_year y"
      by (rule day_from_year_mono_le)
    with year_of_day_bounds(2) [of n] assms(1) show False by linarith
  next
    case 2
    then have "day_from_year (y + 1) \<le> day_from_year (year_of_day n)"
      by (rule day_from_year_mono_le)
    with year_of_day_bounds(1) [of n] assms(2) show False by linarith
  qed
qed

lemma month_of_bounds:
  assumes "0 \<le> r" "r < (if l then 366 else 365)"
  shows "0 \<le> month_of l r" "month_of l r \<le> 11"
    "cum_days l (month_of l r) \<le> r" "r < cum_days l (month_of l r + 1)"
proof -
  have "cum_days l 0 = 0" "cum_days l 12 = (if l then 366 else 365)"
    by (simp_all add: cum_days_def)
  with assms have e: "cum_days l 0 \<le> r" "r < cum_days l 12" by auto
  show "0 \<le> month_of l r" "month_of l r \<le> 11" by (simp_all add: month_of_def Let_def)
  show "cum_days l (month_of l r) \<le> r" using e(1) by (simp add: month_of_def Let_def not_less)
  show "r < cum_days l (month_of l r + 1)" using e(2) by (simp add: month_of_def Let_def)
qed

lemma month_of_unique:
  assumes "0 \<le> m" "m \<le> 11" "cum_days l m \<le> r" "r < cum_days l (m + 1)"
  shows "month_of l r = m"
proof -
  have "m = 0 \<or> m = 1 \<or> m = 2 \<or> m = 3 \<or> m = 4 \<or> m = 5 \<or> m = 6 \<or> m = 7 \<or> m = 8 \<or> m = 9 \<or> m = 10 \<or> m = 11"
    using assms(1,2) by presburger
  then show ?thesis using assms(3,4)
    by (elim disjE; cases l; simp add: month_of_def Let_def cum_days_def)
qed

lemma cum_days_mono: "m \<le> m' \<Longrightarrow> cum_days l m \<le> cum_days l m'"
proof (induction "nat (m' - m)" arbitrary: m')
  case 0
  then show ?case by simp
next
  case (Suc k)
  have "cum_days l (m' - 1) \<le> cum_days l m'"
    by (simp add: cum_days_def)
  moreover have "cum_days l m \<le> cum_days l (m' - 1)"
    using Suc.hyps(2) by (intro Suc.hyps(1)) simp_all
  ultimately show ?case by linarith
qed

lemma cum_days_range: "1 \<le> m \<Longrightarrow> m \<le> 12 \<Longrightarrow> 0 \<le> cum_days l (m - 1) \<and> cum_days l m \<le> (if l then 366 else 365)"
  by (auto simp: cum_days_def)

text \<open>\<open>civil\<close> and \<open>make_day\<close> are inverse to each other on the real calendar dates.\<close>

lemma civil_make_day:
  assumes "valid_date y m d"
  shows "civil (make_day y (m - 1) d) = (y, m, d)"
proof -
  let ?l = "is_leap y"
  let ?n = "make_day y (m - 1) d"
  have m: "1 \<le> m" "m \<le> 12" "1 \<le> d" "d \<le> cum_days ?l m - cum_days ?l (m - 1)"
    using assms by (simp_all add: valid_date_def days_in_month_def)
  then have n: "?n = day_from_year y + cum_days ?l (m - 1) + d - 1"
    by (simp add: make_day_def Let_def)
  have "day_from_year y \<le> ?n" "?n < day_from_year (y + 1)"
    using m cum_days_range [of m ?l] by (auto simp: n day_from_year_Suc)
  then have y: "year_of_day ?n = y" by (rule year_of_day_unique)
  have "month_of ?l (?n - day_from_year y) = m - 1"
    using m by (intro month_of_unique) (simp_all add: n)
  with y show ?thesis by (simp add: civil_def Let_def n)
qed

lemma civil_props:
  obtains y m d where "civil n = (y, m, d)" "valid_date y m d" "make_day y (m - 1) d = n"
proof -
  let ?y = "year_of_day n"
  let ?r = "n - day_from_year ?y"
  let ?m = "month_of (is_leap ?y) ?r"
  have r: "0 \<le> ?r" "?r < (if is_leap ?y then 366 else 365)"
    using year_of_day_bounds [of n] by (auto simp: day_from_year_Suc split: if_splits)
  note m = month_of_bounds [OF r]
  have c: "civil n = (?y, ?m + 1, ?r - cum_days (is_leap ?y) ?m + 1)"
    by (simp add: civil_def Let_def)
  have "valid_date ?y (?m + 1) (?r - cum_days (is_leap ?y) ?m + 1)"
    using m by (auto simp: valid_date_def days_in_month_def)
  moreover have "make_day ?y (?m + 1 - 1) (?r - cum_days (is_leap ?y) ?m + 1) = n"
    using m by (simp add: make_day_def Let_def)
  ultimately show ?thesis by (intro that [OF c])
qed

lemma civil_mono:
  assumes "n < k" "civil n = (y, m, d)" "civil k = (y', m', d')"
  shows "y < y' \<or> (y = y' \<and> (m < m' \<or> (m = m' \<and> d < d')))"
proof -
  have valid: "valid_date y m d" "make_day y (m - 1) d = n" "valid_date y' m' d'" "make_day y' (m' - 1) d' = k"
    using civil_props [of n] civil_props [of k] assms(2,3) by (metis prod.inject)+
  then have n: "n = day_from_year y + cum_days (is_leap y) (m - 1) + d - 1"
    and k: "k = day_from_year y' + cum_days (is_leap y') (m' - 1) + d' - 1"
    by (auto simp: make_day_def Let_def valid_date_def)
  have yn: "year_of_day n = y" "year_of_day k = y'"
    using assms(2,3) by (auto simp: civil_def Let_def)
  have "y \<le> y'"
  proof (rule ccontr)
    assume "\<not> y \<le> y'"
    then have "day_from_year (y' + 1) \<le> day_from_year y"
      by (intro day_from_year_mono_le) simp
    then show False
      using year_of_day_bounds(1) [of n] year_of_day_bounds(2) [of k] assms(1) unfolding yn by linarith
  qed
  moreover have "m \<le> m'" if "y = y'"
  proof (rule ccontr)
    assume "\<not> m \<le> m'"
    then have "cum_days (is_leap y) m' \<le> cum_days (is_leap y) (m - 1)"
      by (intro cum_days_mono) simp
    then show False using n k that assms(1) valid(1,3) by (auto simp: valid_date_def days_in_month_def)
  qed
  moreover have "d < d'" if "y = y'" "m = m'" using n k that assms(1) by simp
  ultimately show ?thesis by force
qed

lemma week_day_range: "0 \<le> week_day n" "week_day n \<le> 6"
  using pos_mod_bound [of 7 "n + 4"] pos_mod_sign [of 7 "n + 4"] unfolding week_day_def by linarith+

end
