(* ===== verification/Dates.thy ===== *)
theory Dates
  imports Calendar
begin

section \<open>Date strings (utils/calendar-date.ts, tax-estimator/dates.ts)\<close>

text \<open>
  The functions on \<open>YYYY-MM-DD\<close> strings.  \<open>fmt_day k\<close> is the string of day \<open>k\<close>; on the four-digit
  years from 100 on (\<open>day_ok\<close>) parsing it gives back \<open>k\<close>, and the order of the strings is the order
  of the days, so the string functions compute on day numbers.
\<close>

subsection \<open>Formatting and parsing\<close>

definition pad :: "int \<Rightarrow> nat \<Rightarrow> string" where
  "pad n w = pad_start w (CHR ''0'') (show_int n)"

definition ymd_text :: "int \<Rightarrow> int \<Rightarrow> int \<Rightarrow> string" where
  "ymd_text y m d = pad y 4 @ ''-'' @ pad m 2 @ ''-'' @ pad d 2"

definition fmt_day :: "int \<Rightarrow> string" where
  "fmt_day k = (case civil k of (y, m, d) \<Rightarrow> ymd_text y m d)"

definition parse_iso :: "string \<Rightarrow> (int \<times> int \<times> int) option" where
  "parse_iso s =
    (if length s = 10 \<and> s ! 4 = CHR ''-'' \<and> s ! 7 = CHR ''-'' \<and>
        list_all is_digit (take 4 s) \<and> list_all is_digit (take 2 (drop 5 s)) \<and> list_all is_digit (drop 8 s)
     then Some (int (nat_of_digits (take 4 s)), int (nat_of_digits (take 2 (drop 5 s))), int (nat_of_digits (drop 8 s)))
     else None)"

definition date_parse :: "string \<Rightarrow> (int \<times> int \<times> int) result" where
  "date_parse s = (case parse_iso s of None \<Rightarrow> Inl (JsError ''Invalid date'' [s]) | Some x \<Rightarrow> Inr x)"

definition utc_of :: "string \<Rightarrow> int result" where
  "utc_of s = ebind (date_parse s) (\<lambda>(y, m, d). Inr (date_utc y (m - 1) d))"

definition day_ok :: "int \<Rightarrow> bool" where
  "day_ok k \<longleftrightarrow> day_from_year 100 \<le> k \<and> k < day_from_year 10000"

subsection \<open>Digit strings of one length\<close>

lemma digit_val_less_iff: "is_digit x \<Longrightarrow> is_digit y \<Longrightarrow> x < y \<longleftrightarrow> digit_val x < digit_val y"
  by (auto simp: is_digit_def digit_val_def less_char_def)

lemma digit_val_less_10: "is_digit x \<Longrightarrow> digit_val x < 10"
  by (auto simp: is_digit_def digit_val_def)

lemma nat_of_digits_less: "list_all is_digit xs \<Longrightarrow> nat_of_digits xs < 10 ^ length xs"
proof (induction xs)
  case Nil
  show ?case by simp
next
  case (Cons x xs)
  then have "digit_val x * 10 ^ length xs + nat_of_digits xs < digit_val x * 10 ^ length xs + 10 ^ length xs"
    by simp
  also have "\<dots> = (digit_val x + 1) * 10 ^ length xs" by simp
  also have "\<dots> \<le> 10 * 10 ^ length xs"
    using Cons.prems digit_val_less_10 by (intro mult_le_mono1) (simp add: Suc_le_eq)
  finally show ?case by (simp add: nat_of_digits_Cons)
qed

lemma digits_less_iff:
  assumes "length xs = length ys" "list_all is_digit xs" "list_all is_digit ys"
  shows "xs < ys \<longleftrightarrow> nat_of_digits xs < nat_of_digits ys"
  using assms
proof (induction xs ys rule: list_induct2)
  case Nil
  show ?case by simp
next
  case (Cons x xs y ys)
  let ?p = "10 ^ length xs :: nat"
  have b: "nat_of_digits xs < ?p" "nat_of_digits ys < ?p"
    using Cons.prems Cons.hyps nat_of_digits_less [of xs] nat_of_digits_less [of ys] by simp_all
  have dx: "x < y \<longleftrightarrow> digit_val x < digit_val y" "y < x \<longleftrightarrow> digit_val y < digit_val x"
    using Cons.prems digit_val_less_iff by simp_all
  consider "x < y" | "x = y" | "y < x" by fastforce
  then show ?case
  proof cases
    case 1
    then have "Suc (digit_val x) \<le> digit_val y" using dx by simp
    then have "Suc (digit_val x) * ?p \<le> digit_val y * ?p" by (rule mult_le_mono1)
    with 1 b show ?thesis using Cons.hyps by (simp add: nat_of_digits_Cons)
  next
    case 2
    with Cons show ?thesis by (simp add: nat_of_digits_Cons)
  next
    case 3
    then have "Suc (digit_val y) \<le> digit_val x" using dx by simp
    then have "Suc (digit_val y) * ?p \<le> digit_val x * ?p" by (rule mult_le_mono1)
    with 3 b show ?thesis using Cons.hyps by (auto simp: nat_of_digits_Cons)
  qed
qed

lemma digits_eqI:
  assumes "length xs = length ys" "list_all is_digit xs" "list_all is_digit ys" "nat_of_digits xs = nat_of_digits ys"
  shows "xs = ys"
  using assms digits_less_iff [of xs ys] digits_less_iff [of ys xs] by (metis less_irrefl linorder_neqE)

lemma append_less_append_iff:
  assumes "length a = length b"
  shows "a @ c < b @ (d :: string) \<longleftrightarrow> a < b \<or> (a = b \<and> c < d)"
  using assms by (induction a b rule: list_induct2) auto

lemma length_show_nat: "n < 10 ^ w \<Longrightarrow> 0 < w \<Longrightarrow> length (show_nat n) \<le> w"
proof (induction n arbitrary: w rule: show_nat.induct)
  case (1 n)
  show ?case
  proof (cases "n < 10")
    case True
    with 1 show ?thesis by (simp add: show_nat_small)
  next
    case False
    then obtain v where w: "w = Suc v" "0 < v" using 1 by (cases w; cases "w = 1") auto
    have "n div 10 < 10 ^ v" using 1(2) w by (simp add: less_mult_imp_div_less)
    with 1(1) False w have "length (show_nat (n div 10)) \<le> v" by blast
    with False w show ?thesis by (simp add: show_nat_step)
  qed
qed

lemma pad_props:
  assumes "0 \<le> n" "n < 10 ^ w" "0 < w"
  shows "length (pad n w) = w" "list_all is_digit (pad n w)" "nat_of_digits (pad n w) = nat n"
proof -
  have "nat n < 10 ^ w" using assms by (simp add: nat_less_iff)
  then show "length (pad n w) = w"
    using assms length_show_nat [of "nat n" w] by (simp add: pad_def pad_start_def show_int_def)
  show "list_all is_digit (pad n w)"
    using assms show_nat_digits [of "nat n"]
    by (auto simp: pad_def pad_start_def show_int_def list_all_iff is_digit_def)
  show "nat_of_digits (pad n w) = nat n"
    using assms by (simp add: pad_def pad_start_def show_int_def nat_of_digits_append)
qed

lemma pad_less_iff:
  "0 \<le> a \<Longrightarrow> a < 10 ^ w \<Longrightarrow> 0 \<le> b \<Longrightarrow> b < 10 ^ w \<Longrightarrow> 0 < w \<Longrightarrow> pad a w < pad b w \<longleftrightarrow> a < b"
  by (subst digits_less_iff) (auto simp: pad_props)

lemma pad_digits: "list_all is_digit xs \<Longrightarrow> xs \<noteq> [] \<Longrightarrow> pad (int (nat_of_digits xs)) (length xs) = xs"
proof -
  assume xs: "list_all is_digit xs" "xs \<noteq> []"
  then have "int (nat_of_digits xs) < 10 ^ length xs"
    using nat_of_digits_less [of xs] by (metis of_nat_less_iff of_nat_numeral of_nat_power)
  with xs pad_props [of "int (nat_of_digits xs)" "length xs"] show ?thesis
    by (intro digits_eqI) simp_all
qed

lemma ymd_text_parts:
  assumes "0 \<le> y" "y < 10000" "0 \<le> m" "m < 100" "0 \<le> d" "d < 100"
  shows "take 4 (ymd_text y m d) = pad y 4" "take 2 (drop 5 (ymd_text y m d)) = pad m 2"
    "drop 8 (ymd_text y m d) = pad d 2" "ymd_text y m d ! 4 = CHR ''-''" "ymd_text y m d ! 7 = CHR ''-''"
    "length (ymd_text y m d) = 10"
  using assms pad_props(1) [of y 4] pad_props(1) [of m 2] pad_props(1) [of d 2]
  by (simp_all add: ymd_text_def nth_append)

lemma parse_ymd_text:
  assumes "0 \<le> y" "y < 10000" "0 \<le> m" "m < 100" "0 \<le> d" "d < 100"
  shows "parse_iso (ymd_text y m d) = Some (y, m, d)"
  unfolding parse_iso_def ymd_text_parts [OF assms]
  using assms by (simp add: pad_props)

lemma parse_iso_SomeD:
  assumes "parse_iso s = Some (y, m, d)"
  shows "s = ymd_text y m d" "0 \<le> y" "y < 10000" "0 \<le> m" "m < 100" "0 \<le> d" "d < 100"
proof -
  let ?a = "take 4 s" and ?b = "take 2 (drop 5 s)" and ?c = "drop 8 s"
  have len: "length s = 10" "s ! 4 = CHR ''-''" "s ! 7 = CHR ''-''"
    and dg: "list_all is_digit ?a" "list_all is_digit ?b" "list_all is_digit ?c"
    and v: "y = int (nat_of_digits ?a)" "m = int (nat_of_digits ?b)" "d = int (nat_of_digits ?c)"
    using assms by (auto simp: parse_iso_def split: if_splits)
  have ne: "s \<noteq> []" using len(1) by auto
  have "s = ?a @ [s ! 4] @ ?b @ [s ! 7] @ ?c"
    using len(1) by (intro nth_equalityI) (auto simp: nth_append nth_Cons' numeral_eq_Suc less_Suc_eq)
  moreover have "pad y 4 = ?a" "pad m 2 = ?b" "pad d 2 = ?c"
    using pad_digits [OF dg(1)] pad_digits [OF dg(2)] pad_digits [OF dg(3)] len(1) ne v by auto
  ultimately show "s = ymd_text y m d" using len by (simp add: ymd_text_def)
  show "0 \<le> y" "0 \<le> m" "0 \<le> d" using v by simp_all
  show "y < 10000" "m < 100" "d < 100"
    using nat_of_digits_less [OF dg(1)] nat_of_digits_less [OF dg(2)] nat_of_digits_less [OF dg(3)] len(1) v
    by simp_all
qed

subsection \<open>Strings of days\<close>

lemma civil_ranges:
  assumes "day_ok k" "civil k = (y, m, d)"
  shows "100 \<le> y" "y \<le> 9999" "1 \<le> m" "m \<le> 12" "1 \<le> d" "d \<le> 31" "make_day y (m - 1) d = k"
proof -
  have v: "valid_date y m d" "make_day y (m - 1) d = k"
    using civil_props [of k] assms(2) by (metis prod.inject)+
  have y: "y = year_of_day k" using assms(2) by (simp add: civil_def Let_def)
  show "100 \<le> y"
  proof (rule ccontr)
    assume "\<not> 100 \<le> y"
    then have "day_from_year (y + 1) \<le> day_from_year 100" by (intro day_from_year_mono_le) simp
    then show False using assms(1) year_of_day_bounds(2) [of k] y by (simp add: day_ok_def)
  qed
  show "y \<le> 9999"
  proof (rule ccontr)
    assume "\<not> y \<le> 9999"
    then have "day_from_year 10000 \<le> day_from_year y" by (intro day_from_year_mono_le) simp
    then show False using assms(1) year_of_day_bounds(1) [of k] y by (simp add: day_ok_def)
  qed
  show "1 \<le> m" "m \<le> 12" "1 \<le> d" "make_day y (m - 1) d = k" using v by (simp_all add: valid_date_def)
  have "m = 1 \<or> m = 2 \<or> m = 3 \<or> m = 4 \<or> m = 5 \<or> m = 6 \<or> m = 7 \<or> m = 8 \<or> m = 9 \<or> m = 10 \<or> m = 11 \<or> m = 12"
    using \<open>1 \<le> m\<close> \<open>m \<le> 12\<close> by presburger
  then have "days_in_month y m \<le> 31"
    by (elim disjE) (simp_all add: days_in_month_def cum_days_def)
  then show "d \<le> 31" using v by (simp add: valid_date_def)
qed

lemma parse_fmt_day: "day_ok k \<Longrightarrow> parse_iso (fmt_day k) = Some (civil k)"
proof -
  assume ok: "day_ok k"
  obtain y m d where c: "civil k = (y, m, d)" by (cases "civil k") auto
  note r = civil_ranges [OF ok c]
  then show ?thesis by (simp add: fmt_day_def c parse_ymd_text)
qed

lemma utc_of_fmt_day [simp, exec_simps]: "day_ok k \<Longrightarrow> utc_of (fmt_day k) = Inr k"
proof -
  assume ok: "day_ok k"
  obtain y m d where c: "civil k = (y, m, d)" by (cases "civil k") auto
  note r = civil_ranges [OF ok c]
  then show ?thesis
    using ok by (simp add: utc_of_def date_parse_def parse_fmt_day c date_utc_def full_year_def)
qed

lemma fmt_day_less_iff:
  assumes "day_ok a" "day_ok b"
  shows "fmt_day a < fmt_day b \<longleftrightarrow> a < b"
proof -
  have mono: "fmt_day a < fmt_day b" if ok: "day_ok a" "day_ok b" and "a < b" for a b
  proof -
    obtain y m d y' m' d' where c: "civil a = (y, m, d)" "civil b = (y', m', d')"
      by (cases "civil a", cases "civil b") auto
    note r = civil_ranges [OF ok(1) c(1)] civil_ranges [OF ok(2) c(2)]
    have len: "length (pad y 4) = length (pad y' 4)" "length (pad m 2) = length (pad m' 2)"
      using r by (simp_all add: pad_props)
    have cmp: "pad y 4 < pad y' 4 \<longleftrightarrow> y < y'" "pad m 2 < pad m' 2 \<longleftrightarrow> m < m'" "pad d 2 < pad d' 2 \<longleftrightarrow> d < d'"
      using r by (simp_all add: pad_less_iff)
    show ?thesis
      using civil_mono [OF \<open>a < b\<close> c] len
      by (auto simp: fmt_day_def c ymd_text_def append_less_append_iff cmp)
  qed
  show ?thesis
    using mono [OF assms] mono [OF assms(2,1)] by (cases a b rule: linorder_cases) auto
qed

lemma fmt_day_le_iff: "day_ok a \<Longrightarrow> day_ok b \<Longrightarrow> fmt_day a \<le> fmt_day b \<longleftrightarrow> a \<le> b"
  using fmt_day_less_iff [of b a] by (simp add: not_less [symmetric])

lemma fmt_day_eq_iff: "day_ok a \<Longrightarrow> day_ok b \<Longrightarrow> fmt_day a = fmt_day b \<longleftrightarrow> a = b"
  by (metis fmt_day_less_iff less_irrefl linorder_neqE)

subsection \<open>The exported operations\<close>

text \<open>\<open>rollDateToYear\<close>, \<open>isoDateUtc\<close>, \<open>lastDayOfMonthUtc\<close>, \<open>yearOf\<close>, \<open>daysInYear\<close>.\<close>

definition rollDateToYear :: "string \<Rightarrow> int \<Rightarrow> int \<Rightarrow> string result" where
  "rollDateToYear s fromYear toYear = ebind (date_parse s) (\<lambda>(y, m, d).
     let ny = y + (toYear - fromYear);
         nd = (if m = 2 \<and> d = 29 \<and> \<not> is_leap ny then 28 else d)
     in Inr (ymd_text ny m nd))"

definition isoDateUtc :: "int \<Rightarrow> int \<Rightarrow> int \<Rightarrow> string" where
  "isoDateUtc y m0 d = fmt_day (date_utc y m0 d)"

definition lastDayOfMonthUtc :: "int \<Rightarrow> int \<Rightarrow> string" where
  "lastDayOfMonthUtc y m0 = isoDateUtc y (m0 + 1) 0"

definition isIsoDate :: "string \<Rightarrow> bool" where
  "isIsoDate s = (case parse_iso s of None \<Rightarrow> False
     | Some (y, m, d) \<Rightarrow> civil (date_utc y (m - 1) d) = (y, m, d))"

definition yearOf :: "string \<Rightarrow> int result" where
  "yearOf s = ebind (date_parse s) (\<lambda>(y, m, d). Inr y)"

definition daysInYear :: "int \<Rightarrow> int" where
  "daysInYear y = (if is_leap y then 366 else 365)"

definition daysBetween :: "string \<Rightarrow> string \<Rightarrow> int result" where
  "daysBetween a b = ebind (utc_of a) (\<lambda>ta. ebind (utc_of b) (\<lambda>tb. Inr (tb - ta)))"

definition addDays :: "string \<Rightarrow> int \<Rightarrow> string result" where
  "addDays s n = ebind (utc_of s) (\<lambda>t. Inr (fmt_day (t + n)))"

definition parse_md :: "string \<Rightarrow> (int \<times> int) result" where
  "parse_md s = (if length s = 5 \<and> s ! 2 = CHR ''-'' \<and> list_all is_digit (take 2 s) \<and> list_all is_digit (drop 3 s)
     then Inr (int (nat_of_digits (take 2 s)), int (nat_of_digits (drop 3 s)))
     else Inl (JsError ''Invalid month-day'' [s]))"

definition monthDayInYear :: "string \<Rightarrow> int \<Rightarrow> string result" where
  "monthDayInYear md year = ebind (parse_md md) (\<lambda>(m, d0).
     let d = (if m = 2 \<and> d0 = 29 \<and> \<not> is_leap year then 28 else d0)
     in Inr (ymd_text year m d))"

definition monthsOrFraction :: "string \<Rightarrow> string \<Rightarrow> int result" where
  "monthsOrFraction a b =
    (if b \<le> a then Inr 0 else
     ebind (date_parse a) (\<lambda>(ay, am, ad). ebind (date_parse b) (\<lambda>(b_y, bm, bd).
       let spanMonths = (b_y - ay) * 12 + (bm - am);
           wholeMonths = (if bd < ad then spanMonths - 1 else spanMonths);
           partial = (if bd = ad then 0 else 1)
       in Inr (max (wholeMonths + partial) 1))))"

text \<open>
  \<open>toISOString().slice(0, 10)\<close> of utils/calendar-date.ts: four digits for the years 0 to 9999, a sign
  and six digits otherwise, of which the slice keeps the first ten characters.
\<close>

definition iso_slice :: "int \<Rightarrow> string" where
  "iso_slice k = (case civil k of (y, m, d) \<Rightarrow>
     if 0 \<le> y \<and> y \<le> 9999 then ymd_text y m d
     else take 10 ((if y < 0 then CHR ''-'' else CHR ''+'') # pad \<bar>y\<bar> 6 @ ''-'' @ pad m 2 @ ''-'' @ pad d 2))"

definition isCalendarDate :: "string \<Rightarrow> bool" where
  "isCalendarDate s = (case parse_iso s of None \<Rightarrow> False
     | Some (y, m, d) \<Rightarrow> iso_slice (date_utc y (m - 1) d) = s)"

definition addCalendarDays :: "string \<Rightarrow> int \<Rightarrow> string result" where
  "addCalendarDays s n = (case parse_iso s of None \<Rightarrow> Inl (JsError ''Not a YYYY-MM-DD date'' [s])
     | Some (y, m, d) \<Rightarrow>
         if isCalendarDate s then Inr (iso_slice (date_utc y (m - 1) (d + n)))
         else Inl (JsError ''Not a YYYY-MM-DD date'' [s]))"

text \<open>\<open>dow\<close> and \<open>isWeekend\<close>.\<close>

definition dow :: "string \<Rightarrow> int result" where
  "dow s = ebind (utc_of s) (\<lambda>t. Inr (week_day t))"

definition weekend_day :: "int \<Rightarrow> bool" where
  "weekend_day k \<longleftrightarrow> week_day k = 6 \<or> week_day k = 0"

definition isWeekend :: "string \<Rightarrow> bool result" where
  "isWeekend s = ebind (dow s) (\<lambda>w. Inr (w = 6 \<or> w = 0))"

subsection \<open>Next business day\<close>

text \<open>
  The loop of \<open>nextBusinessDay\<close> stops: the text of a day of the year \<open>10 ^ L\<close> or later is longer
  than \<open>L\<close> characters, so no listed holiday is the text of a late enough day, and past it only
  Saturday and Sunday are skipped.
\<close>

definition max_len :: "string list \<Rightarrow> nat" where
  "max_len hol = foldr (\<lambda>s n. max (length s) n) hol 0"

lemma max_len: "s \<in> set hol \<Longrightarrow> length s \<le> max_len hol"
  by (induction hol) (auto simp: max_len_def)

lemma show_nat_length: "10 ^ w \<le> n \<Longrightarrow> w < length (show_nat n)"
proof -
  assume le: "10 ^ w \<le> n"
  have "n < 10 ^ length (show_nat n)"
    using nat_of_digits_less [OF show_nat_digits [of n]] by simp
  with le have "(10 :: nat) ^ w < 10 ^ length (show_nat n)" by linarith
  then show ?thesis by (rule power_less_imp_less_exp [rotated]) simp
qed

lemma fmt_day_long:
  assumes "day_from_year (10 ^ w) \<le> k"
  shows "w < length (fmt_day k)"
proof -
  obtain y m d where c: "civil k = (y, m, d)" by (cases "civil k") auto
  then have y: "y = year_of_day k" by (simp add: civil_def Let_def)
  have "10 ^ w \<le> y"
  proof (rule ccontr)
    assume "\<not> 10 ^ w \<le> y"
    then have "day_from_year (y + 1) \<le> day_from_year (10 ^ w)" by (intro day_from_year_mono_le) simp
    with assms year_of_day_bounds(2) [of k] y show False by simp
  qed
  moreover have "(0 :: int) < 10 ^ w" by simp
  ultimately have "0 \<le> y" "10 ^ w \<le> nat y" by (linarith, simp add: le_nat_iff)
  then have "w < length (show_int y)" by (simp add: show_int_def show_nat_length)
  then show ?thesis by (simp add: fmt_day_def c ymd_text_def pad_def pad_start_def)
qed

lemma weekend_progress:
  "weekend_day t \<Longrightarrow> weekend_day (t + 1) \<Longrightarrow> week_day t = 6 \<and> week_day (t + 1) = 0"
  unfolding weekend_day_def week_day_def by presburger

function nextBusinessDayFrom :: "string list \<Rightarrow> int \<Rightarrow> string" where
  "nextBusinessDayFrom hol t =
    (let s = fmt_day t; w = week_day t
     in if w \<noteq> 6 \<and> w \<noteq> 0 \<and> s \<notin> set hol then s else nextBusinessDayFrom hol (t + 1))"
  by pat_completeness auto

termination
proof (relation "measures [\<lambda>(hol, t). nat (day_from_year (10 ^ max_len hol) - t),
    \<lambda>(hol, t). if week_day t = 6 then 2 else if week_day t = 0 then 1 else 0]", goal_cases)
  case 1
  show ?case by simp
next
  case (2 hol t x xa)
  show ?case
  proof (cases "t < day_from_year (10 ^ max_len hol)")
    case True
    then show ?thesis by simp
  next
    case False
    then have "fmt_day t \<notin> set hol" using fmt_day_long [of "max_len hol" t] max_len by force
    with 2 have "week_day t = 6 \<or> week_day t = 0" by metis
    moreover have "week_day t = 6 \<Longrightarrow> week_day (t + 1) = 0" "week_day t = 0 \<Longrightarrow> week_day (t + 1) = 1"
      unfolding week_day_def by presburger+
    ultimately show ?thesis using False by auto
  qed
qed

declare nextBusinessDayFrom.simps [simp del]

definition nextBusinessDay :: "string \<Rightarrow> string list \<Rightarrow> string result" where
  "nextBusinessDay s hol = ebind (utc_of s) (\<lambda>t. Inr (nextBusinessDayFrom hol t))"

definition business_day :: "string list \<Rightarrow> int \<Rightarrow> bool" where
  "business_day hol k \<longleftrightarrow> \<not> weekend_day k \<and> fmt_day k \<notin> set hol"

lemma nextBusinessDayFrom_least:
  "\<exists>b. t \<le> b \<and> nextBusinessDayFrom hol t = fmt_day b \<and> business_day hol b \<and>
     (\<forall>k. t \<le> k \<and> k < b \<longrightarrow> \<not> business_day hol k)"
proof (induction hol t rule: nextBusinessDayFrom.induct)
  case (1 hol t)
  show ?case
  proof (cases "business_day hol t")
    case True
    then have "nextBusinessDayFrom hol t = fmt_day t"
      by (subst nextBusinessDayFrom.simps) (simp add: business_day_def weekend_day_def Let_def)
    with True show ?thesis by (intro exI [of _ t]) auto
  next
    case False
    then have step: "nextBusinessDayFrom hol t = nextBusinessDayFrom hol (t + 1)"
      by (subst nextBusinessDayFrom.simps) (auto simp: business_day_def weekend_day_def Let_def)
    have "\<not> (week_day t \<noteq> 6 \<and> week_day t \<noteq> 0 \<and> fmt_day t \<notin> set hol)"
      using False by (simp add: business_day_def weekend_day_def)
    from 1 [OF refl refl this] obtain b where
      b: "t + 1 \<le> b" "nextBusinessDayFrom hol (t + 1) = fmt_day b" "business_day hol b"
        "\<And>k. t + 1 \<le> k \<Longrightarrow> k < b \<Longrightarrow> \<not> business_day hol k" by blast
    have "\<not> business_day hol k" if "t \<le> k" "k < b" for k
      using that b(4) [of k] False by (cases "k = t") simp_all
    with b step show ?thesis by (intro exI [of _ b]) auto
  qed
qed

subsection \<open>Calendar dates as strings\<close>

lemma utc_of_ymd_text:
  assumes "0 \<le> y" "y < 10000" "0 \<le> m" "m < 100" "0 \<le> d" "d < 100"
  shows "utc_of (ymd_text y m d) = Inr (date_utc y (m - 1) d)"
  by (simp add: utc_of_def date_parse_def parse_ymd_text assms)

lemma valid_date_ranges:
  assumes "valid_date y m d"
  shows "0 \<le> m" "m < 100" "0 \<le> d" "d < 100"
proof -
  have m: "1 \<le> m" "m \<le> 12" and d: "1 \<le> d" "d \<le> days_in_month y m"
    using assms by (simp_all add: valid_date_def)
  have "days_in_month y m \<le> 366"
    using cum_days_range [of m "is_leap y"] m by (auto simp: days_in_month_def split: if_splits)
  have "m = 1 \<or> m = 2 \<or> m = 3 \<or> m = 4 \<or> m = 5 \<or> m = 6 \<or> m = 7 \<or> m = 8 \<or> m = 9 \<or> m = 10 \<or> m = 11 \<or> m = 12"
    using m by presburger
  then have "days_in_month y m \<le> 31"
    by (elim disjE) (simp_all add: days_in_month_def cum_days_def)
  with m d show "0 \<le> m" "m < 100" "0 \<le> d" "d < 100" by simp_all
qed

lemma make_day_day_ok:
  assumes "valid_date y m d" "100 \<le> y" "y < 10000"
  shows "day_ok (make_day y (m - 1) d)"
proof -
  let ?k = "make_day y (m - 1) d"
  have "year_of_day ?k = y" using civil_make_day [OF assms(1)] by (simp add: civil_def Let_def)
  then have "day_from_year y \<le> ?k" "?k < day_from_year (y + 1)" using year_of_day_bounds [of ?k] by simp_all
  moreover have "day_from_year 100 \<le> day_from_year y" "day_from_year (y + 1) \<le> day_from_year 10000"
    using assms(2,3) by (auto intro: day_from_year_mono_le)
  ultimately show ?thesis by (simp add: day_ok_def)
qed

lemma isIsoDate_day:
  "isIsoDate s \<longleftrightarrow> (\<exists>k. day_ok k \<and> s = fmt_day k)"
proof
  assume "isIsoDate s"
  then obtain y m d where p: "parse_iso s = Some (y, m, d)" and c: "civil (date_utc y (m - 1) d) = (y, m, d)"
    by (auto simp: isIsoDate_def split: option.splits)
  note r = parse_iso_SomeD [OF p]
  have v: "valid_date y m d" "make_day y (m - 1) d = date_utc y (m - 1) d"
    using civil_props [of "date_utc y (m - 1) d"] c by (metis prod.inject)+
  have "100 \<le> y"
  proof (rule ccontr)
    assume "\<not> 100 \<le> y"
    then have "full_year y = 1900 + y" using r(2) by (simp add: full_year_def)
    then have e: "make_day (1900 + y) (m - 1) d = make_day y (m - 1) d" using v(2) by (simp add: date_utc_def)
    have m: "1 \<le> m" "m \<le> 12" using v(1) by (simp_all add: valid_date_def)
    then have q: "(m - 1) div 12 = 0" "(m - 1) mod 12 = m - 1" by simp_all
    have "day_from_year (y + 1 + 1) \<le> day_from_year (1900 + y)" by (intro day_from_year_mono_le) simp
    moreover have "day_from_year (y + 1 + 1) \<ge> day_from_year y + 730"
      using day_from_year_Suc [of y] day_from_year_Suc [of "y + 1"] by (simp split: if_splits)
    moreover have "0 \<le> cum_days (is_leap (1900 + y)) (m - 1)" "cum_days (is_leap y) (m - 1) \<le> 366"
      using cum_days_range [of m "is_leap (1900 + y)"] cum_days_range [of m "is_leap y"]
        cum_days_mono [of "m - 1" m "is_leap y"] m by (auto split: if_splits)
    ultimately show False using e by (simp add: make_day_def Let_def q)
  qed
  then have "day_ok (make_day y (m - 1) d)" using make_day_day_ok [OF v(1)] r(3) by simp
  moreover have "s = fmt_day (make_day y (m - 1) d)"
    using r(1) civil_make_day [OF v(1)] by (simp add: fmt_day_def)
  ultimately show "\<exists>k. day_ok k \<and> s = fmt_day k" by blast
next
  assume "\<exists>k. day_ok k \<and> s = fmt_day k"
  then obtain k where k: "day_ok k" "s = fmt_day k" by blast
  obtain y m d where c: "civil k = (y, m, d)" by (cases "civil k") auto
  note r = civil_ranges [OF k(1) c]
  have "date_utc y (m - 1) d = k" using r by (simp add: date_utc_def full_year_def)
  then show "isIsoDate s" using c by (simp add: isIsoDate_def k(2) parse_fmt_day [OF k(1)])
qed

lemma isIsoDateI: "parse_iso s = Some (y, m, d) \<Longrightarrow> valid_date y m d \<Longrightarrow> 100 \<le> y \<Longrightarrow> isIsoDate s"
  by (simp add: isIsoDate_def date_utc_def full_year_def civil_make_day)

lemmas iso_eval = parse_iso_def nat_of_digits_def digit_val_def is_digit_def valid_date_def days_in_month_def
  cum_days_def is_leap_def

lemma isIsoDate_fmt [simp]: "day_ok k \<Longrightarrow> isIsoDate (fmt_day k)"
  using isIsoDate_day by blast

lemma isIsoDateE:
  assumes "isIsoDate s"
  obtains k where "day_ok k" "s = fmt_day k" "utc_of s = Inr k"
proof -
  from assms obtain k where k: "day_ok k" "s = fmt_day k" unfolding isIsoDate_day by blast
  then show ?thesis using utc_of_fmt_day [OF k(1)] by (intro that [OF k]) simp
qed

lemma parse_fmt_dayD:
  assumes "parse_iso (fmt_day k) = Some (y, m, d)"
  shows "k < day_from_year 10000" "k \<le> date_utc y (m - 1) d"
proof -
  obtain cy cm cd where c: "civil k = (cy, cm, cd)" "valid_date cy cm cd" "make_day cy (cm - 1) cd = k"
    by (rule civil_props)
  note v = valid_date_ranges [OF c(2)]
  have l: "length (pad cm 2) = 2" "length (pad cd 2) = 2" using v pad_props(1) [of cm 2] pad_props(1) [of cd 2] by simp_all
  have s: "length (fmt_day k) = 10" "list_all is_digit (take 4 (fmt_day k))"
    using assms by (auto simp: parse_iso_def split: if_splits)
  then have len: "length (pad cy 4) = 4" using l by (simp add: fmt_day_def c(1) ymd_text_def)
  with s have dg: "list_all is_digit (pad cy 4)" by (simp add: fmt_day_def c(1) ymd_text_def)
  have nn: "0 \<le> cy"
  proof (rule ccontr)
    assume "\<not> 0 \<le> cy"
    then have "CHR ''-'' \<in> set (pad cy 4)" by (simp add: pad_def pad_start_def show_int_def)
    with dg have "is_digit (CHR ''-'')" by (auto simp: list_all_iff)
    then show False by (simp add: is_digit_def)
  qed
  have lt: "cy < 10000"
  proof (rule ccontr)
    assume "\<not> cy < 10000"
    then have "10 ^ 4 \<le> nat cy" by simp
    then have "4 < length (show_nat (nat cy))" by (rule show_nat_length)
    with len nn show False by (simp add: pad_def pad_start_def show_int_def)
  qed
  have y: "year_of_day k = cy" using c(1) by (simp add: civil_def Let_def)
  have "day_from_year (cy + 1) \<le> day_from_year 10000" using lt by (intro day_from_year_mono_le) simp
  then show "k < day_from_year 10000" using year_of_day_bounds(2) [of k] y by simp
  have e: "y = cy" "m = cm" "d = cd"
    using assms parse_ymd_text [OF nn lt v] by (simp_all add: fmt_day_def c(1))
  show "k \<le> date_utc y (m - 1) d"
  proof (cases "cy \<le> 99")
    case True
    then have "day_from_year (cy + 1) \<le> day_from_year (1900 + cy)" by (intro day_from_year_mono_le) simp
    moreover have "k < day_from_year (cy + 1)" using year_of_day_bounds(2) [of k] y by simp
    moreover have "day_from_year (1900 + cy) \<le> make_day (1900 + cy) (cm - 1) cd"
      using c(2) cum_days_range [of cm "is_leap (1900 + cy)"] by (simp add: make_day_def valid_date_def Let_def)
    ultimately show ?thesis using True nn by (simp add: e date_utc_def full_year_def)
  next
    case False
    with c(3) show ?thesis by (simp add: e date_utc_def full_year_def)
  qed
qed

lemma daysBetween_fmt: "day_ok a \<Longrightarrow> day_ok b \<Longrightarrow> daysBetween (fmt_day a) (fmt_day b) = Inr (b - a)"
  by (simp add: daysBetween_def)

lemma yearOf_fmt: "day_ok k \<Longrightarrow> yearOf (fmt_day k) = Inr (year_of_day k)"
  by (simp add: yearOf_def date_parse_def parse_fmt_day civil_def Let_def split: prod.split)

lemma day_ok_between: "day_ok a \<Longrightarrow> day_ok b \<Longrightarrow> a \<le> x \<Longrightarrow> x \<le> b \<Longrightarrow> day_ok x"
  by (simp add: day_ok_def)

lemma addDays_fmt: "day_ok k \<Longrightarrow> addDays (fmt_day k) n = Inr (fmt_day (k + n))"
  by (simp add: addDays_def)

lemma isWeekend_fmt: "day_ok k \<Longrightarrow> isWeekend (fmt_day k) = Inr (weekend_day k)"
  by (simp add: isWeekend_def dow_def weekend_day_def)

lemma monthsOrFraction_total:
  assumes "isIsoDate a" "isIsoDate b"
  shows "\<exists>n. monthsOrFraction a b = Inr n \<and> 0 \<le> n"
proof -
  obtain x where x: "day_ok x" "a = fmt_day x" using assms(1) by (rule isIsoDateE)
  obtain y where y: "day_ok y" "b = fmt_day y" using assms(2) by (rule isIsoDateE)
  show ?thesis
    by (cases "civil x"; cases "civil y")
      (simp add: monthsOrFraction_def x y date_parse_def parse_fmt_day Let_def max_def)
qed

lemma fmt_dayI: "valid_date y m d \<Longrightarrow> make_day y (m - 1) d = k \<Longrightarrow> fmt_day k = ymd_text y m d"
  using civil_make_day [of y m d] by (auto simp: fmt_day_def)

lemmas utc_eval = date_utc_def full_year_def make_day_def day_from_year_def cum_days_def is_leap_def Let_def

lemma date_utc_add: "date_utc y m0 (d + n) = date_utc y m0 d + n"
  by (simp add: date_utc_def make_day_def Let_def)

lemma iso_slice_fmt:
  assumes "day_ok k"
  shows "iso_slice k = fmt_day k"
proof -
  obtain y m d where c: "civil k = (y, m, d)" by (cases "civil k") auto
  with civil_ranges [OF assms c] show ?thesis by (simp add: iso_slice_def fmt_day_def)
qed

lemma ymd_text_inj:
  assumes "0 \<le> y" "y < 10000" "0 \<le> m" "m < 100" "0 \<le> d" "d < 100"
    and "0 \<le> y'" "y' < 10000" "0 \<le> m'" "m' < 100" "0 \<le> d'" "d' < 100"
  shows "ymd_text y m d = ymd_text y' m' d' \<longleftrightarrow> (y, m, d) = (y', m', d')"
proof
  assume "ymd_text y m d = ymd_text y' m' d'"
  then show "(y, m, d) = (y', m', d')"
    using parse_ymd_text [OF assms(1-6)] parse_ymd_text [OF assms(7-12)] by (simp only: option.inject)
qed simp

lemma iso_slice_eq_iff:
  assumes "0 \<le> y" "y < 10000" "0 \<le> m" "m < 100" "0 \<le> d" "d < 100"
  shows "iso_slice k = ymd_text y m d \<longleftrightarrow> civil k = (y, m, d)"
proof -
  obtain y' m' d' where c: "civil k = (y', m', d')" "valid_date y' m' d'"
    by (rule civil_props [of k]) blast
  note r = valid_date_ranges [OF c(2)]
  show ?thesis
  proof (cases "0 \<le> y' \<and> y' \<le> 9999")
    case True
    then have "ymd_text y' m' d' = ymd_text y m d \<longleftrightarrow> (y', m', d') = (y, m, d)"
      using r assms by (intro ymd_text_inj) simp_all
    with True show ?thesis by (simp add: iso_slice_def c(1))
  next
    case False
    have "list_all is_digit (pad y 4)" "length (pad y 4) = 4" using assms by (simp_all add: pad_props)
    then have hd: "is_digit (hd (ymd_text y m d))" by (cases "pad y 4") (simp_all add: ymd_text_def)
    have "\<not> is_digit (hd (iso_slice k))" using False by (auto simp: iso_slice_def c(1) is_digit_def)
    with hd have "iso_slice k \<noteq> ymd_text y m d" by metis
    with False assms show ?thesis by (auto simp: c(1))
  qed
qed

lemma isCalendarDate_eq: "isCalendarDate s = isIsoDate s"
proof (cases "parse_iso s")
  case None
  then show ?thesis by (simp add: isCalendarDate_def isIsoDate_def)
next
  case (Some p)
  obtain y m d where p: "p = (y, m, d)" by (cases p) auto
  note r = parse_iso_SomeD [OF Some [unfolded p]]
  show ?thesis
    using iso_slice_eq_iff [OF r(2-), of "date_utc y (m - 1) d"]
    by (simp add: isCalendarDate_def isIsoDate_def Some p r(1) [symmetric])
qed

subsection \<open>Properties\<close>

text \<open>
  C9: the two date validators of the repository agree: \<open>isIsoDate\<close> of the estimator and
  \<open>isCalendarDate\<close> of the ledger accept the same strings, exactly the texts of the real calendar days
  of the years 100 to 9999 (a \<open>Date.UTC\<close> year below 100 means 1900 + year, so 0001-01-01 is refused).
\<close>

theorem date_validators:
  "isCalendarDate s = isIsoDate s \<and>
   (isIsoDate s \<longleftrightarrow> (\<exists>y m d. 100 \<le> y \<and> y \<le> 9999 \<and> valid_date y m d \<and> s = ymd_text y m d))"
proof
  show "isCalendarDate s = isIsoDate s" by (rule isCalendarDate_eq)
  show "isIsoDate s \<longleftrightarrow> (\<exists>y m d. 100 \<le> y \<and> y \<le> 9999 \<and> valid_date y m d \<and> s = ymd_text y m d)"
  proof
    assume "isIsoDate s"
    then obtain k where k: "day_ok k" "s = fmt_day k" by (rule isIsoDateE)
    obtain y m d where c: "civil k = (y, m, d)" "valid_date y m d" by (rule civil_props [of k]) blast
    with k civil_ranges [OF k(1) c(1)]
    show "\<exists>y m d. 100 \<le> y \<and> y \<le> 9999 \<and> valid_date y m d \<and> s = ymd_text y m d"
      by (auto simp: fmt_day_def)
  next
    assume "\<exists>y m d. 100 \<le> y \<and> y \<le> 9999 \<and> valid_date y m d \<and> s = ymd_text y m d"
    then obtain y m d where d: "100 \<le> y" "y \<le> 9999" "valid_date y m d" "s = ymd_text y m d" by blast
    then have "day_ok (make_day y (m - 1) d)" by (intro make_day_day_ok) simp_all
    moreover have "s = fmt_day (make_day y (m - 1) d)" using d by (simp add: fmt_day_def civil_make_day)
    ultimately show "isIsoDate s" by simp
  qed
qed

text \<open>
  C10: \<open>daysBetween\<close> measures and \<open>addDays\<close> moves: between two valid dates the signed day count leads
  from the first to the second, negated back again, is positive exactly when the first string is
  smaller, and the ledger's \<open>addCalendarDays\<close> makes the same step.
\<close>

theorem date_group:
  assumes "isIsoDate s" "isIsoDate t"
  shows "\<exists>n. daysBetween s t = Inr n \<and> addDays s n = Inr t \<and> addCalendarDays s n = Inr t \<and>
    daysBetween t s = Inr (- n) \<and> addDays t (- n) = Inr s \<and> (s < t \<longleftrightarrow> 0 < n) \<and> (s = t \<longleftrightarrow> n = 0)"
proof -
  obtain a where a: "day_ok a" "s = fmt_day a" "utc_of s = Inr a" using assms(1) by (rule isIsoDateE)
  obtain b where b: "day_ok b" "t = fmt_day b" "utc_of t = Inr b" using assms(2) by (rule isIsoDateE)
  obtain y m d where c: "civil a = (y, m, d)" by (cases "civil a") auto
  note r = civil_ranges [OF a(1) c]
  have "date_utc y (m - 1) d = a" using r by (simp add: date_utc_def full_year_def)
  then have "addCalendarDays s (b - a) = Inr (iso_slice b)"
    using a assms(1) by (simp add: addCalendarDays_def parse_fmt_day c isCalendarDate_eq date_utc_add)
  then have ac: "addCalendarDays s (b - a) = Inr t" using b by (simp add: iso_slice_fmt)
  show ?thesis
    using a b ac fmt_day_less_iff [OF a(1) b(1)] fmt_day_eq_iff [OF a(1) b(1)]
    by (intro exI [of _ "b - a"]) (auto simp: daysBetween_def addDays_def)
qed

lemma date_group_witness:
  "addDays ''2024-02-28'' 367 = Inr ''2025-03-01'' \<and> addDays ''2025-03-01'' (- 367) = Inr ''2024-02-28''"
proof -
  have "isIsoDate ''2024-02-28''" "isIsoDate ''2025-03-01''" by code_simp+
  from date_group [OF this]
  obtain n where "daysBetween ''2024-02-28'' ''2025-03-01'' = Inr n"
    and n: "addDays ''2024-02-28'' n = Inr ''2025-03-01''" "addDays ''2025-03-01'' (- n) = Inr ''2024-02-28''"
    by blast
  moreover have "daysBetween ''2024-02-28'' ''2025-03-01'' = Inr 367" by code_simp
  ultimately have "n = 367" by simp
  with n show ?thesis by simp
qed

text \<open>
  C11: \<open>nextBusinessDay\<close> always returns, whatever the holiday list holds: the first day at or after
  the given one that is no Saturday, no Sunday and not listed.
\<close>

theorem nextBusinessDay_least:
  assumes "utc_of s = Inr t"
  shows "\<exists>b. t \<le> b \<and> nextBusinessDay s hol = Inr (fmt_day b) \<and> business_day hol b \<and>
    (\<forall>k. t \<le> k \<and> k < b \<longrightarrow> \<not> business_day hol k)"
  using nextBusinessDayFrom_least [of t hol] assms by (simp add: nextBusinessDay_def)

lemma nextBusinessDay_least_witness:
  "\<exists>b. (20638 :: int) \<le> b \<and> nextBusinessDay ''2026-07-04'' [''2026-07-06''] = Inr (fmt_day b) \<and>
     business_day [''2026-07-06''] b \<and> fmt_day b = ''2026-07-07''"
proof -
  have "utc_of ''2026-07-04'' = Inr 20638" by code_simp
  from nextBusinessDay_least [OF this, of "[''2026-07-06'']"]
  obtain b where b: "20638 \<le> b" "nextBusinessDay ''2026-07-04'' [''2026-07-06''] = Inr (fmt_day b)"
    "business_day [''2026-07-06''] b" by blast
  moreover have "nextBusinessDay ''2026-07-04'' [''2026-07-06''] = Inr ''2026-07-07''" by code_simp
  ultimately show ?thesis by (metis sum.inject(2))
qed

end
