(* ===== verification/EstimateBase.thy ===== *)
theory EstimateBase
  imports EngineBase
begin

section \<open>Estimate context (engine/estimate-types.ts)\<close>

text \<open>
  The safe-harbor, Schedule AI, penalty and voucher modules thread an \<open>EstimateContext\<close>: the engine
  context for parameters and warnings, and a trace of its own.  \<open>'a est\<close> is a computation on it;
  \<open>on_base\<close> runs an engine computation on the part it wraps.
\<close>

record est_row_input =
  er_step :: string
  er_id :: string
  er_jurisdiction :: string
  er_exact :: money
  er_source :: trace_source
  er_parameterKeys :: "string list option"
  er_ruleKeys :: "string list option"

record est_row = est_row_input +
  er_amount :: money

record est_ctx =
  es_base :: ectx
  es_trace :: "est_row list"

type_synonym 'a est = "(est_ctx, 'a) comp"

definition new_est :: "(string \<times> resolved) list \<Rightarrow> int \<Rightarrow> filing_status \<Rightarrow> est_ctx" where
  "new_est ps y fs = \<lparr>es_base = new_ctx ps y fs, es_trace = []\<rparr>"

definition on_base :: "'a eng \<Rightarrow> 'a est" where
  "on_base m = (\<lambda>c. ebind (m (es_base c)) (\<lambda>(x, b). Inr (x, c\<lparr>es_base := b\<rparr>)))"

definition est_add :: "est_row_input \<Rightarrow> unit est" where
  "est_add r = cmod (\<lambda>c. c\<lparr>es_trace := es_trace c @ [\<lparr>er_step = er_step r, er_id = er_id r,
     er_jurisdiction = er_jurisdiction r, er_exact = er_exact r, er_source = er_source r,
     er_parameterKeys = er_parameterKeys r, er_ruleKeys = er_ruleKeys r, er_amount = rnd 0 (er_exact r)\<rparr>]\<rparr>)"

definition est_warn :: "string \<Rightarrow> (string \<times> dval) list option \<Rightarrow> unit est" where
  "est_warn code details = on_base (warn code details)"

definition est_info :: "string \<Rightarrow> (string \<times> dval) list option \<Rightarrow> unit est" where
  "est_info code details = on_base (info code details)"

definition est_row_of :: "string \<Rightarrow> string \<Rightarrow> string \<Rightarrow> money \<Rightarrow> trace_source \<Rightarrow> est_row_input" where
  "est_row_of step jurisdiction ident x src = \<lparr>er_step = step, er_id = ident, er_jurisdiction = jurisdiction,
     er_exact = x, er_source = src, er_parameterKeys = None, er_ruleKeys = None\<rparr>"

subsection \<open>What an estimate step keeps\<close>

text \<open>
  \<open>est_sound\<close> is \<open>sound\<close> on the base and the trace invariant on the estimate trace; \<open>emits\<close> says that
  a computation always returns, with a value known beforehand, and only appends to the records.
\<close>

definition est_ok :: "est_ctx \<Rightarrow> bool" where
  "est_ok c \<longleftrightarrow> ctx_ok (es_base c) \<and> (\<forall>r \<in> set (es_trace c). er_amount r = rnd 0 (er_exact r))"

definition est_grows :: "est_ctx \<Rightarrow> est_ctx \<Rightarrow> bool" where
  "est_grows c c' \<longleftrightarrow> grows (es_base c) (es_base c') \<and> (\<exists>ts. es_trace c' = es_trace c @ ts)"

definition est_sound :: "'a est \<Rightarrow> bool" where
  "est_sound m \<longleftrightarrow> (\<forall>c x c'. m c = Inr (x, c') \<longrightarrow> est_ok c \<longrightarrow> est_ok c' \<and> est_grows c c')"

named_theorems est_sounds "estimate computations that keep the context well formed"

lemma est_soundI:
  assumes "\<And>c x c'. m c = Inr (x, c') \<Longrightarrow> est_ok c \<Longrightarrow> est_ok c' \<and> est_grows c c'"
  shows "est_sound m"
  using assms by (simp add: est_sound_def)

lemma est_soundD: "est_sound m \<Longrightarrow> m c = Inr (x, c') \<Longrightarrow> est_ok c \<Longrightarrow> est_ok c' \<and> est_grows c c'"
  by (simp add: est_sound_def)

lemma est_grows_refl: "est_grows c c"
  by (simp add: est_grows_def grows_refl)

lemma est_grows_trans: "est_grows a b \<Longrightarrow> est_grows b c \<Longrightarrow> est_grows a c"
  by (auto simp: est_grows_def intro: grows_trans)

lemma est_ok_new: "est_ok (new_est ps y fs)"
  by (simp add: est_ok_def new_est_def ctx_ok_new)

lemma est_sound_cret [est_sounds]: "est_sound (cret x)"
  by (auto intro!: est_soundI simp: est_grows_refl)

lemma est_sound_cthrow [est_sounds]: "est_sound (cthrow e)"
  by (auto intro!: est_soundI)

lemma est_sound_cget [est_sounds]: "est_sound (cget f)"
  by (auto intro!: est_soundI simp: est_grows_refl)

lemma est_sound_clift [est_sounds]: "est_sound (clift r)"
  by (auto intro!: est_soundI simp: est_grows_refl)

lemma est_sound_cbind [est_sounds]:
  assumes "est_sound m" "\<And>x. est_sound (f x)"
  shows "est_sound (cbind m f)"
proof (rule est_soundI)
  fix c y c''
  assume run: "cbind m f c = Inr (y, c'')" and ok: "est_ok c"
  from run obtain x c' where m: "m c = Inr (x, c')" and f: "f x c' = Inr (y, c'')" by blast
  from est_soundD [OF assms(1) m ok] have "est_ok c'" "est_grows c c'" by simp_all
  with est_soundD [OF assms(2) f] show "est_ok c'' \<and> est_grows c c''" by (blast intro: est_grows_trans)
qed

lemma est_sound_cwhen [est_sounds]: "est_sound m \<Longrightarrow> est_sound (cwhen b m)"
  by (simp add: cwhen_def est_sound_cret)

lemma est_sound_if [est_sounds]: "est_sound m \<Longrightarrow> est_sound n \<Longrightarrow> est_sound (if b then m else n)"
  by simp

lemma est_sound_case_option [est_sounds]:
  "est_sound m \<Longrightarrow> (\<And>x. est_sound (f x)) \<Longrightarrow> est_sound (case x of None \<Rightarrow> m | Some x \<Rightarrow> f x)"
  by (simp split: option.split)

lemma est_sound_case_prod [est_sounds]: "(\<And>a b. est_sound (f a b)) \<Longrightarrow> est_sound (case p of (a, b) \<Rightarrow> f a b)"
  by (cases p) simp

lemma est_sound_Let [est_sounds]: "(\<And>x. est_sound (f x)) \<Longrightarrow> est_sound (let x = e in f x)"
  by simp

lemma est_sound_cfold [est_sounds]: "(\<And>x s. est_sound (f x s)) \<Longrightarrow> est_sound (cfold f xs s)"
  by (induction xs arbitrary: s) (auto intro: est_sounds)

lemma est_sound_cmap [est_sounds]: "(\<And>x. est_sound (f x)) \<Longrightarrow> est_sound (cmap f xs)"
  by (induction xs) (auto intro!: est_sounds)

lemma est_sound_cdo [est_sounds]: "(\<And>x. est_sound (f x)) \<Longrightarrow> est_sound (cdo f xs)"
  by (simp add: cdo_def est_sound_cfold)

lemma est_sound_on_base [est_sounds]: "sound m \<Longrightarrow> est_sound (on_base m)"
proof (rule est_soundI)
  fix c x c'
  assume m: "sound m" and run: "on_base m c = Inr (x, c')" and ok: "est_ok c"
  from run obtain b where b: "m (es_base c) = Inr (x, b)" and c': "c' = c\<lparr>es_base := b\<rparr>"
    by (auto simp: on_base_def)
  from soundD [OF m b] ok show "est_ok c' \<and> est_grows c c'" by (simp add: est_ok_def est_grows_def c')
qed

lemma est_sound_add [est_sounds]: "est_sound (est_add r)"
  by (rule est_soundI) (auto simp: est_add_def est_ok_def est_grows_def grows_refl)

lemma est_sound_warn [est_sounds]: "est_sound (est_warn code details)" "est_sound (est_info code details)"
  by (simp_all add: est_warn_def est_info_def est_sound_on_base sound_warn sound_info)

text \<open>A row or a warning never throws, and leaves the parameters as they are.\<close>

lemma est_add_total: "\<exists>c'. est_add r c = Inr ((), c')"
  by (simp add: est_add_def)

lemma est_warn_total: "\<exists>c'. est_warn code d c = Inr ((), c')" "\<exists>c'. est_info code d c = Inr ((), c')"
  by (simp_all add: est_warn_def est_info_def on_base_def warn_def info_def warn_sev_def)

definition emits :: "'a \<Rightarrow> 'a est \<Rightarrow> bool" where
  "emits x m \<longleftrightarrow> (\<forall>c. \<exists>c'. m c = Inr (x, c'))"

named_theorems emitting "computations that return a known value"

lemma emitsD: "emits x m \<Longrightarrow> \<exists>c'. m c = Inr (x, c')"
  by (simp add: emits_def)

lemma emits_basic [emitting]:
  "emits x (cret x)" "emits () (est_add r)" "emits () (est_warn k d)" "emits () (est_info k d)"
  by (simp_all add: emits_def est_add_total est_warn_total)

lemma emits_cwhen [emitting]: "emits () m \<Longrightarrow> emits () (cwhen b m)"
  by (simp add: cwhen_def emits_def)

lemma emits_cbind [emitting]:
  assumes "emits x m" "emits y (f x)"
  shows "emits y (cbind m f)"
  unfolding emits_def
proof
  fix c
  from emitsD [OF assms(1)] obtain c1 where "m c = Inr (x, c1)" by blast
  moreover from emitsD [OF assms(2)] obtain c2 where "f x c1 = Inr (y, c2)" by blast
  ultimately show "\<exists>c'. cbind m f c = Inr (y, c')" by (simp add: cbind_def)
qed

lemma emits_Let [emitting]: "emits y (f e) \<Longrightarrow> emits y (let x = e in f x)"
  by simp

lemma emits_clift [emitting]: "r = Inr x \<Longrightarrow> emits x (clift r)"
  by (simp add: emits_def)

lemma emits_cmap:
  "(\<And>x. x \<in> set xs \<Longrightarrow> emits (g x) (f x)) \<Longrightarrow> emits (map g xs) (cmap f xs)"
  by (induction xs) (auto intro!: emitting)

end
