(* ===== verification/Penalty.thy ===== *)
theory Penalty
  imports EstimateBase Dates Payments
begin

section \<open>Underpayment penalty (engine/penalty.ts)\<close>

text \<open>
  The accrual of the penalty on the balance timelines of \<open>Payments\<close>.  A rate lookup is a function from
  the date to the rate in force; \<open>scheduleRateLookup\<close> and \<open>flatRateLookup\<close> build one.  The notes of the
  result are the constructors of \<open>penalty_note\<close> in place of their English text.
\<close>

subsection \<open>Rate lookup\<close>

record rate_on_date =
  ro_rate :: "money option"
  ro_covered :: bool
  ro_keys :: "string list"

type_synonym rate_lookup_fn = "string \<Rightarrow> rate_on_date"

definition scheduleRateLookup :: "rate_period list \<Rightarrow> string list \<Rightarrow> rate_lookup_fn" where
  "scheduleRateLookup periods ks = (let sorted = sort_key rt_from periods in (\<lambda>isoDate.
     case find (\<lambda>p. rt_from p \<le> isoDate \<and> isoDate \<le> rt_to p) sorted of
       Some leg \<Rightarrow> \<lparr>ro_rate = Some (rt_rate leg), ro_covered = True, ro_keys = ks\<rparr>
     | None \<Rightarrow>
         if sorted = [] then \<lparr>ro_rate = None, ro_covered = False, ro_keys = ks\<rparr>
         else \<lparr>ro_rate = Some (if isoDate < rt_from (hd sorted) then rt_rate (hd sorted) else rt_rate (last sorted)),
           ro_covered = False, ro_keys = ks\<rparr>))"

definition flatRateLookup :: "money \<Rightarrow> string list \<Rightarrow> rate_lookup_fn" where
  "flatRateLookup rate ks = (\<lambda>_. \<lparr>ro_rate = Some rate, ro_covered = True, ro_keys = ks\<rparr>)"

subsection \<open>Policy and results\<close>

datatype penalty_method = DailySimple | MonthlyOrFraction | MonthlyCompound | TieredFlat

datatype waiver_reason = PriorYearZeroTax | BelowMinBalance | EstimatesNotRequired | NoEstimateRegime | OtherReason

record penalty_waiver =
  pw_reason :: waiver_reason
  pw_detail :: string

datatype penalty_note = NoteGiven string | NoteTiered | NoteWaived string | NoteRelief string | NoteHorizon string

record penalty_policy =
  pp_jurisdiction :: string
  pp_method :: penalty_method
  pp_rateOn :: rate_lookup_fn
  pp_returnDueDate :: string
  pp_waiver :: "penalty_waiver option"
  pp_reliefDate :: "string option"
  pp_verify :: bool
  pp_notes :: "string list"

record penalty_segment =
  sg_from :: string
  sg_to :: string
  sg_units :: int
  sg_balance :: money
  sg_rate :: money
  sg_daysInYear :: "int option"
  sg_rateUncovered :: bool
  sg_amount :: money

record installment_penalty =
  ip_index :: nat
  ip_dueDate :: string
  ip_accruedTo :: "string option"
  ip_segments :: "penalty_segment list"
  ip_penalty :: money
  ip_exact :: money
  ip_verify :: bool

record penalty_exact =
  px_total :: money
  px_totalBeforeWaiver :: money

record penalty_result =
  pn_jurisdiction :: string
  pn_method :: penalty_method
  pn_computed :: bool
  pn_installments :: "installment_penalty list"
  pn_total :: money
  pn_totalBeforeWaiver :: money
  pn_waiver :: "penalty_waiver option"
  pn_verify :: bool
  pn_notes :: "penalty_note list"
  pn_exact :: penalty_exact

subsection \<open>Accrual\<close>

definition compoundGrowth :: "money \<Rightarrow> int \<Rightarrow> money result" where
  "compoundGrowth rate months = ebind (quo rate 12) (\<lambda>m. Inr ((1 + m) ^ nat months - 1))"

text \<open>The variables of the loop over the days.\<close>

record daily_state =
  ds_segments :: "penalty_segment list"
  ds_verify :: bool
  ds_runStart :: string
  ds_runRate :: "rate_on_date option"
  ds_runYearDays :: int

definition flush_run :: "money \<Rightarrow> string \<Rightarrow> daily_state \<Rightarrow> daily_state result" where
  "flush_run balance en st = (case ds_runRate st of None \<Rightarrow> Inr st
     | Some r \<Rightarrow> if en \<le> ds_runStart st then Inr st else
         ebind (daysBetween (ds_runStart st) en) (\<lambda>units.
         let rate = (case ro_rate r of None \<Rightarrow> 0 | Some q \<Rightarrow> q) in
         ebind (quo (balance * rate * of_int units) (of_int (ds_runYearDays st))) (\<lambda>amount.
         Inr (st\<lparr>ds_segments := ds_segments st @ [\<lparr>sg_from = ds_runStart st, sg_to = en, sg_units = units,
           sg_balance = balance, sg_rate = rate, sg_daysInYear = Some (ds_runYearDays st),
           sg_rateUncovered = (\<not> ro_covered r), sg_amount = amount\<rparr>]\<rparr>))))"

definition same_run :: "rate_on_date \<Rightarrow> int \<Rightarrow> daily_state \<Rightarrow> bool" where
  "same_run r yearDays st = (case ds_runRate st of None \<Rightarrow> False
     | Some q \<Rightarrow> ro_rate r = ro_rate q \<and> ro_covered r = ro_covered q \<and> yearDays = ds_runYearDays st)"

definition daily_step :: "rate_lookup_fn \<Rightarrow> money \<Rightarrow> string \<Rightarrow> string \<Rightarrow> daily_state \<Rightarrow> daily_state result" where
  "daily_step rateOn balance day priced st =
    (let r = rateOn priced in
     ebind (yearOf priced) (\<lambda>y.
     let yearDays = daysInYear y;
         st1 = st\<lparr>ds_verify := (ds_verify st \<or> ro_rate r = None \<or> \<not> ro_covered r)\<rparr> in
     if same_run r yearDays st1 then Inr st1
     else ebind (flush_run balance day st1) (\<lambda>st2.
       Inr (st2\<lparr>ds_runStart := day, ds_runRate := Some r, ds_runYearDays := yearDays\<rparr>))))"

definition day_measure :: "string \<Rightarrow> nat" where
  "day_measure s = (case utc_of s of Inl _ \<Rightarrow> 0 | Inr t \<Rightarrow> nat (day_from_year 10000 - t))"

lemma day_measure_decreases:
  assumes "addDays day 1 = Inr priced" "yearOf priced = Inr y"
  shows "day_measure priced < day_measure day"
proof -
  from assms(1) obtain t where t: "utc_of day = Inr t" "priced = fmt_day (t + 1)"
    unfolding addDays_def ebind_Inr_iff by auto
  from assms(2) obtain y m d where p: "parse_iso (fmt_day (t + 1)) = Some (y, m, d)"
    by (auto simp: yearOf_def date_parse_def t(2) split: option.splits)
  then have "utc_of priced = Inr (date_utc y (m - 1) d)" by (simp add: utc_of_def date_parse_def t(2))
  with parse_fmt_dayD [OF p] t(1) show ?thesis by (simp add: day_measure_def)
qed

function accrueDailyFrom :: "rate_lookup_fn \<Rightarrow> money \<Rightarrow> string \<Rightarrow> string \<Rightarrow> daily_state \<Rightarrow> daily_state result" where
  "accrueDailyFrom rateOn balance to day st =
    (if \<not> day < to then Inr st
     else ebind (addDays day 1) (\<lambda>priced.
       ebind (daily_step rateOn balance day priced st) (\<lambda>st'.
       accrueDailyFrom rateOn balance to priced st')))"
  by pat_completeness auto

termination
proof (relation "measure (\<lambda>(rateOn, balance, to, day, st). day_measure day)", goal_cases)
  case 1
  show ?case by simp
next
  case (2 rateOn balance to day st priced st')
  then obtain y where "yearOf priced = Inr y" by (auto simp: daily_step_def Let_def)
  with 2(2) show ?case by (simp add: day_measure_decreases)
qed

declare accrueDailyFrom.simps [simp del]

type_synonym accrual_piece = "penalty_segment list \<times> bool"

definition accrueDaily :: "money \<Rightarrow> string \<Rightarrow> string \<Rightarrow> rate_lookup_fn \<Rightarrow> accrual_piece result" where
  "accrueDaily balance from to rateOn =
    ebind (accrueDailyFrom rateOn balance to from
      \<lparr>ds_segments = [], ds_verify = False, ds_runStart = from, ds_runRate = None, ds_runYearDays = 0\<rparr>) (\<lambda>st.
    ebind (flush_run balance to st) (\<lambda>st'. Inr (ds_segments st', ds_verify st')))"

definition accrueMonthly :: "money \<Rightarrow> string \<Rightarrow> string \<Rightarrow> rate_lookup_fn \<Rightarrow> bool \<Rightarrow> accrual_piece result" where
  "accrueMonthly balance from to rateOn compound =
    (let r = rateOn from in
     ebind (monthsOrFraction from to) (\<lambda>months.
     let rate = (case ro_rate r of None \<Rightarrow> 0 | Some q \<Rightarrow> q) in
     ebind (if compound then ebind (compoundGrowth rate months) (\<lambda>g. Inr (balance * g))
            else ebind (quo rate 12) (\<lambda>m. Inr (balance * m * of_int months))) (\<lambda>amount.
     Inr ([\<lparr>sg_from = from, sg_to = to, sg_units = months, sg_balance = balance, sg_rate = rate, sg_daysInYear = None,
       sg_rateUncovered = (\<not> ro_covered r), sg_amount = amount\<rparr>], ro_rate r = None \<or> \<not> ro_covered r))))"

text \<open>The balance points of one installment, in order.\<close>

definition accrual_end :: "penalty_policy \<Rightarrow> balance_point list \<Rightarrow> string" where
  "accrual_end policy ps =
    (let rawEnd = (case ps of [] \<Rightarrow> pp_returnDueDate policy | q # _ \<Rightarrow> bp_date q) in
     if rawEnd < pp_returnDueDate policy then rawEnd else pp_returnDueDate policy)"

definition accrue_balance :: "penalty_policy \<Rightarrow> balance_point \<Rightarrow> string \<Rightarrow> accrual_piece result" where
  "accrue_balance policy p en =
    (if pp_method policy = DailySimple then accrueDaily (bp_balance p) (bp_date p) en (pp_rateOn policy)
     else accrueMonthly (bp_balance p) (bp_date p) en (pp_rateOn policy) (pp_method policy = MonthlyCompound))"

fun accrue_points :: "penalty_policy \<Rightarrow> balance_point list \<Rightarrow> penalty_segment list \<times> bool \<times> string option \<Rightarrow>
    (penalty_segment list \<times> bool \<times> string option) result" where
  "accrue_points policy [] acc = Inr acc"
| "accrue_points policy (p # ps) (segs, verify, accruedTo) =
    (let en = accrual_end policy ps in
     if \<not> 0 < bp_balance p \<or> en \<le> bp_date p then accrue_points policy ps (segs, verify, accruedTo)
     else ebind (accrue_balance policy p en)
       (\<lambda>(segs', verify'). accrue_points policy ps (segs @ segs', verify \<or> verify', Some en)))"

definition truthy :: "string option \<Rightarrow> string option" where
  "truthy s = (case s of None \<Rightarrow> None | Some t \<Rightarrow> if t = [] then None else Some t)"

definition installmentPenalty :: "penalty_policy \<Rightarrow> installment_application \<Rightarrow> installment_penalty result" where
  "installmentPenalty policy inst =
    ebind (if pp_method policy = TieredFlat then Inr ([], False, None)
           else ebind (accrue_points policy (ia_timeline inst) ([], False, None)) (\<lambda>(segs, verify, accruedTo).
             Inr (segs, verify, if truthy accruedTo = None \<and> truthy (ia_paidInFullOn inst) \<noteq> None
               then ia_paidInFullOn inst else accruedTo))) (\<lambda>(segs, verify, accruedTo).
    let exact = sum_list (map sg_amount segs) in
    Inr \<lparr>ip_index = ia_index inst, ip_dueDate = ia_dueDate inst, ip_accruedTo = accruedTo, ip_segments = segs,
      ip_penalty = rnd 0 exact, ip_exact = exact, ip_verify = verify\<rparr>)"

definition installment_report :: "penalty_policy \<Rightarrow> installment_application \<Rightarrow> installment_penalty \<Rightarrow> unit est" where
  "installment_report policy inst p =
    cbind (cwhen (0 < ip_exact p) (est_add ((est_row_of ''penalty'' (pp_jurisdiction policy)
        (pp_jurisdiction policy @ ''.penalty.'' @ show_nat (ia_index inst + 1)) (ip_exact p) SrcParameter)
        \<lparr>er_parameterKeys := Some (ro_keys (pp_rateOn policy (ia_dueDate inst)))\<rparr>))) (\<lambda>_.
    cwhen (list_ex sg_rateUncovered (ip_segments p)) (est_warn ''TE_PENALTY_RATE_UNCOVERED''
      (Some [(''jurisdiction'', DText (pp_jurisdiction policy)), (''installment'', DInt (int (ia_index inst) + 1))])))"

definition method_text :: "penalty_method \<Rightarrow> string" where
  "method_text m = (case m of DailySimple \<Rightarrow> ''daily_simple'' | MonthlyOrFraction \<Rightarrow> ''monthly_or_fraction''
     | MonthlyCompound \<Rightarrow> ''monthly_compound'' | TieredFlat \<Rightarrow> ''tiered_flat'')"

definition reason_text :: "waiver_reason \<Rightarrow> string" where
  "reason_text r = (case r of PriorYearZeroTax \<Rightarrow> ''prior_year_zero_tax'' | BelowMinBalance \<Rightarrow> ''below_min_balance''
     | EstimatesNotRequired \<Rightarrow> ''estimates_not_required'' | NoEstimateRegime \<Rightarrow> ''no_estimate_regime'' | OtherReason \<Rightarrow> ''other'')"

definition penalty_notes :: "penalty_policy \<Rightarrow> penalty_note list" where
  "penalty_notes policy = map NoteGiven (pp_notes policy) @
     (if pp_method policy = TieredFlat then [NoteTiered] else []) @
     (case pp_waiver policy of None \<Rightarrow> [] | Some w \<Rightarrow> [NoteWaived (pw_detail w)]) @
     (case truthy (pp_reliefDate policy) of None \<Rightarrow> [] | Some d \<Rightarrow> [NoteRelief d]) @
     [NoteHorizon (pp_returnDueDate policy)]"

definition accruePenalty :: "payment_application_result \<Rightarrow> penalty_policy \<Rightarrow> penalty_result est" where
  "accruePenalty applied policy =
    (let computed = (pp_method policy \<noteq> TieredFlat); j = pp_jurisdiction policy in
     cbind (cwhen (\<not> computed) (est_warn ''TE_PENALTY_METHOD_NOT_COMPUTED''
       (Some [(''jurisdiction'', DText j), (''method'', DText (method_text (pp_method policy)))]))) (\<lambda>_.
     cbind (cmap (\<lambda>inst. cbind (clift (installmentPenalty policy inst)) (\<lambda>p.
       cbind (installment_report policy inst p) (\<lambda>_. cret p))) (pr_installments applied)) (\<lambda>installments.
     let totalBeforeWaiver = sum_list (map ip_exact installments);
         total = (case pp_waiver policy of None \<Rightarrow> totalBeforeWaiver | Some w \<Rightarrow> 0) in
     cbind (case pp_waiver policy of None \<Rightarrow> cret ()
       | Some w \<Rightarrow> cwhen (0 < totalBeforeWaiver) (est_info ''TE_PENALTY_WAIVED''
           (Some [(''jurisdiction'', DText j), (''reason'', DText (reason_text (pw_reason w)))]))) (\<lambda>_.
     cbind (est_add (est_row_of ''penalty'' j (j @ ''.penalty.total'') total SrcParameter)) (\<lambda>_.
     cret \<lparr>pn_jurisdiction = j, pn_method = pp_method policy, pn_computed = computed, pn_installments = installments,
       pn_total = rnd 0 total, pn_totalBeforeWaiver = rnd 0 totalBeforeWaiver, pn_waiver = pp_waiver policy,
       pn_verify = (pp_verify policy \<or> \<not> computed \<or> list_ex ip_verify installments), pn_notes = penalty_notes policy,
       pn_exact = \<lparr>px_total = total, px_totalBeforeWaiver = totalBeforeWaiver\<rparr>\<rparr>)))))"

subsection \<open>Daily accrual is interest day by day\<close>

text \<open>
  The reference: day \<open>k\<close> to \<open>k + 1\<close> carries the rate and the year length of day \<open>k + 1\<close>.
  \<open>day_runs\<close> says that segments follow each other from one day to another without gap or overlap, and
  that every day of a segment has the segment's rate, coverage and year length.
\<close>

definition rate_value :: "rate_on_date \<Rightarrow> money" where
  "rate_value r = (case ro_rate r of None \<Rightarrow> 0 | Some q \<Rightarrow> q)"

definition year_days :: "int \<Rightarrow> int" where
  "year_days k = daysInYear (year_of_day k)"

definition day_interest :: "rate_lookup_fn \<Rightarrow> money \<Rightarrow> int \<Rightarrow> money" where
  "day_interest f b k = b * rate_value (f (fmt_day (k + 1))) / of_int (year_days (k + 1))"

definition run_day :: "rate_lookup_fn \<Rightarrow> money \<Rightarrow> bool \<Rightarrow> int \<Rightarrow> int \<Rightarrow> bool" where
  "run_day f rate covered yearDays k \<longleftrightarrow> rate_value (f (fmt_day (k + 1))) = rate \<and>
     ro_covered (f (fmt_day (k + 1))) = covered \<and> year_days (k + 1) = yearDays"

fun day_runs :: "rate_lookup_fn \<Rightarrow> money \<Rightarrow> int \<Rightarrow> int \<Rightarrow> penalty_segment list \<Rightarrow> bool" where
  "day_runs f b x y [] \<longleftrightarrow> x = y"
| "day_runs f b x y (s # ss) \<longleftrightarrow>
     0 < sg_units s \<and> sg_from s = fmt_day x \<and> sg_to s = fmt_day (x + sg_units s) \<and> sg_balance s = b \<and>
     (\<exists>yd. sg_daysInYear s = Some yd \<and> quo (b * sg_rate s * of_int (sg_units s)) (of_int yd) = Inr (sg_amount s) \<and>
       (\<forall>k. x \<le> k \<and> k < x + sg_units s \<longrightarrow> run_day f (sg_rate s) (\<not> sg_rateUncovered s) yd k)) \<and>
     day_runs f b (x + sg_units s) y ss"

lemma day_runs_append: "day_runs f b x z (ss @ ts) \<longleftrightarrow> (\<exists>y. day_runs f b x y ss \<and> day_runs f b y z ts)"
  by (induction ss arbitrary: x) auto

lemma day_runs_units: "day_runs f b x y ss \<Longrightarrow> x \<le> y \<and> sum_list (map sg_units ss) = y - x"
  by (induction ss arbitrary: x) fastforce+

lemma quo_error: "quo a d = Inr q \<Longrightarrow> \<bar>q - a / d\<bar> \<le> 1 / (2 * 10 ^ 12)"
  using rnd_bound [of 12 "a / d"] by (auto simp: quo_def split: if_splits)

lemma year_days_pos: "0 < year_days k"
  by (simp add: year_days_def daysInYear_def)

lemma sum_day_split:
  fixes g :: "int \<Rightarrow> rat"
  assumes "x \<le> z" "z \<le> y"
  shows "sum g {x..<y} = sum g {x..<z} + sum g {z..<y}"
  using assms by (subst sum.union_disjoint [symmetric]) (auto simp: ivl_disj_un)

lemma day_runs_interest:
  "day_runs f b x y ss \<Longrightarrow>
   \<bar>sum_list (map sg_amount ss) - sum (day_interest f b) {x..<y}\<bar> \<le> of_nat (length ss) / (2 * 10 ^ 12)"
proof (induction ss arbitrary: x)
  case (Cons s ss)
  let ?z = "x + sg_units s"
  from Cons.prems obtain yd where s: "0 < sg_units s" "quo (b * sg_rate s * of_int (sg_units s)) (of_int yd) = Inr (sg_amount s)"
      "\<And>k. x \<le> k \<Longrightarrow> k < ?z \<Longrightarrow> run_day f (sg_rate s) (\<not> sg_rateUncovered s) yd k" "day_runs f b ?z y ss" by auto
  have "sum (day_interest f b) {x..<?z} = sum (\<lambda>k. b * sg_rate s / of_int yd) {x..<?z}"
    using s(3) by (intro sum.cong) (auto simp: day_interest_def run_day_def)
  also have "\<dots> = b * sg_rate s * of_int (sg_units s) / of_int yd" using s(1) by simp
  finally have first: "\<bar>sg_amount s - sum (day_interest f b) {x..<?z}\<bar> \<le> 1 / (2 * 10 ^ 12)"
    using quo_error [OF s(2)] by simp
  have "sum (day_interest f b) {x..<y} = sum (day_interest f b) {x..<?z} + sum (day_interest f b) {?z..<y}"
    using s(1) day_runs_units [OF s(4)] by (intro sum_day_split) auto
  then have "\<bar>sum_list (map sg_amount (s # ss)) - sum (day_interest f b) {x..<y}\<bar> \<le>
      \<bar>sg_amount s - sum (day_interest f b) {x..<?z}\<bar> + \<bar>sum_list (map sg_amount ss) - sum (day_interest f b) {?z..<y}\<bar>"
    by simp
  also have "\<dots> \<le> 1 / (2 * 10 ^ 12) + of_nat (length ss) / (2 * 10 ^ 12)"
    using first Cons.IH [OF s(4)] by (rule add_mono)
  also have "\<dots> = of_nat (length (s # ss)) / (2 * 10 ^ 12)" by (simp add: add_divide_distrib)
  finally show ?case .
qed simp

text \<open>The loop invariant at day \<open>x\<close>: the finished segments reach the start of the open run.\<close>

definition daily_inv :: "rate_lookup_fn \<Rightarrow> money \<Rightarrow> int \<Rightarrow> int \<Rightarrow> daily_state \<Rightarrow> bool" where
  "daily_inv f b a x st \<longleftrightarrow> (\<exists>s. a \<le> s \<and> s \<le> x \<and> ds_runStart st = fmt_day s \<and> day_runs f b a s (ds_segments st) \<and>
     (case ds_runRate st of None \<Rightarrow> s = x
      | Some r \<Rightarrow> 0 < ds_runYearDays st \<and> (\<forall>k. s \<le> k \<and> k < x \<longrightarrow> run_day f (rate_value r) (ro_covered r) (ds_runYearDays st) k)))"

lemma flush_run_inv:
  assumes "daily_inv f b a x st" "day_ok a" "day_ok x"
  shows "\<exists>st'. flush_run b (fmt_day x) st = Inr st' \<and> day_runs f b a x (ds_segments st') \<and>
    ds_verify st' = ds_verify st"
proof -
  from assms(1) obtain s where s: "a \<le> s" "s \<le> x" "ds_runStart st = fmt_day s" "day_runs f b a s (ds_segments st)"
    and r: "case ds_runRate st of None \<Rightarrow> s = x
      | Some r \<Rightarrow> 0 < ds_runYearDays st \<and> (\<forall>k. s \<le> k \<and> k < x \<longrightarrow> run_day f (rate_value r) (ro_covered r) (ds_runYearDays st) k)"
    by (auto simp: daily_inv_def)
  have ok: "day_ok s" using assms(2,3) s by (blast intro: day_ok_between)
  have le: "fmt_day x \<le> fmt_day s \<longleftrightarrow> x \<le> s" by (rule fmt_day_le_iff [OF assms(3) ok])
  show ?thesis
  proof (cases "ds_runRate st")
    case None
    with s r show ?thesis by (simp add: flush_run_def)
  next
    case (Some q)
    show ?thesis
    proof (cases "x \<le> s")
      case True
      with s Some le show ?thesis by (auto simp: flush_run_def)
    next
      case False
      with Some r have "ds_runYearDays st \<noteq> 0" by simp
      with False Some s r le ok assms(3) show ?thesis
        by (auto simp: flush_run_def daysBetween_fmt quo_def day_runs_append rate_value_def Let_def)
    qed
  qed
qed

lemma daily_step_inv:
  assumes "daily_inv f b a x st" "day_ok a" "day_ok x" "day_ok (x + 1)"
  shows "\<exists>st'. daily_step f b (fmt_day x) (fmt_day (x + 1)) st = Inr st' \<and> daily_inv f b a (x + 1) st'"
proof -
  let ?r = "f (fmt_day (x + 1))"
  let ?st = "st\<lparr>ds_verify := (ds_verify st \<or> ro_rate ?r = None \<or> \<not> ro_covered ?r)\<rparr>"
  have now: "run_day f (rate_value ?r) (ro_covered ?r) (year_days (x + 1)) x" by (simp add: run_day_def)
  have inv: "daily_inv f b a x ?st" using assms(1) by (cases "ds_runRate st") (simp_all add: daily_inv_def)
  note eq = yearOf_fmt [OF assms(4)] year_days_def [symmetric]
  show ?thesis
  proof (cases "same_run ?r (year_days (x + 1)) ?st")
    case True
    then obtain q where q: "ds_runRate st = Some q" "ro_rate ?r = ro_rate q" "ro_covered ?r = ro_covered q"
        "year_days (x + 1) = ds_runYearDays st"
      by (auto simp: same_run_def split: option.splits)
    then have "run_day f (rate_value q) (ro_covered q) (ds_runYearDays st) x" using now by (simp add: rate_value_def)
    then have "\<And>k s. \<forall>k. s \<le> k \<and> k < x \<longrightarrow> run_day f (rate_value q) (ro_covered q) (ds_runYearDays st) k \<Longrightarrow>
        s \<le> k \<Longrightarrow> k < x + 1 \<Longrightarrow> run_day f (rate_value q) (ro_covered q) (ds_runYearDays st) k"
      by (metis zless_add1_eq)
    with inv q have "daily_inv f b a (x + 1) ?st" unfolding daily_inv_def by fastforce
    with True show ?thesis by (simp add: daily_step_def Let_def eq)
  next
    case False
    obtain st2 where st2: "flush_run b (fmt_day x) ?st = Inr st2" "day_runs f b a x (ds_segments st2)"
      using flush_run_inv [OF inv assms(2,3)] by blast
    have "a \<le> x" using st2(2) day_runs_units by blast
    moreover have "\<forall>k. x \<le> k \<and> k < x + 1 \<longrightarrow> run_day f (rate_value ?r) (ro_covered ?r) (year_days (x + 1)) k"
    proof (intro allI impI)
      fix k
      assume "x \<le> k \<and> k < x + 1"
      then have "k = x" by linarith
      with now show "run_day f (rate_value ?r) (ro_covered ?r) (year_days (x + 1)) k" by simp
    qed
    ultimately have "daily_inv f b a (x + 1) (st2\<lparr>ds_runStart := fmt_day x, ds_runRate := Some ?r, ds_runYearDays := year_days (x + 1)\<rparr>)"
      unfolding daily_inv_def using st2(2) year_days_pos [of "x + 1"] by (intro exI [of _ x]) simp
    with False st2(1) show ?thesis by (simp add: daily_step_def Let_def eq)
  qed
qed

lemma accrueDailyFrom_inv:
  assumes "daily_inv f b a x st" "day_ok a" "day_ok x" "day_ok y" "x \<le> y"
  shows "\<exists>st'. accrueDailyFrom f b (fmt_day y) (fmt_day x) st = Inr st' \<and> daily_inv f b a y st'"
  using assms
proof (induction "nat (y - x)" arbitrary: x st)
  case 0
  then show ?case by (subst accrueDailyFrom.simps) simp
next
  case (Suc n)
  from Suc.hyps(2) have lt: "x < y" by linarith
  then have ok: "day_ok (x + 1)" using Suc.prems(3,4) by (simp add: day_ok_def)
  obtain st1 where st1: "daily_step f b (fmt_day x) (fmt_day (x + 1)) st = Inr st1" "daily_inv f b a (x + 1) st1"
    using daily_step_inv [OF Suc.prems(1-3) ok] by blast
  have "\<exists>st'. accrueDailyFrom f b (fmt_day y) (fmt_day (x + 1)) st1 = Inr st' \<and> daily_inv f b a y st'"
    using Suc.hyps lt by (intro Suc.hyps(1) st1 Suc.prems(2) ok Suc.prems(4)) simp_all
  moreover have "addDays (fmt_day x) 1 = Inr (fmt_day (x + 1))" using Suc.prems(3) by (simp add: addDays_def)
  moreover have "fmt_day x < fmt_day y" using lt fmt_day_less_iff [OF Suc.prems(3,4)] by simp
  ultimately show ?case using st1 by (subst accrueDailyFrom.simps) simp
qed

lemma accrueDaily_runs:
  assumes "day_ok a" "day_ok y" "a \<le> y"
  shows "\<exists>segs v. accrueDaily b (fmt_day a) (fmt_day y) f = Inr (segs, v) \<and> day_runs f b a y segs"
proof -
  have "daily_inv f b a a \<lparr>ds_segments = [], ds_verify = False, ds_runStart = fmt_day a, ds_runRate = None, ds_runYearDays = 0\<rparr>"
    by (simp add: daily_inv_def)
  from accrueDailyFrom_inv [OF this assms(1,1,2,3)] obtain st where
    st: "accrueDailyFrom f b (fmt_day y) (fmt_day a) \<lparr>ds_segments = [], ds_verify = False, ds_runStart = fmt_day a,
      ds_runRate = None, ds_runYearDays = 0\<rparr> = Inr st" "daily_inv f b a y st" by blast
  from flush_run_inv [OF st(2) assms(1,2)] obtain st' where
    "flush_run b (fmt_day y) st = Inr st'" "day_runs f b a y (ds_segments st')" by blast
  with st(1) show ?thesis by (simp add: accrueDaily_def)
qed

text \<open>
  C24: the daily accrual of a balance between two dates is simple interest day by day, without
  compounding: its segments follow each other from the first date to the second, their units are the days
  between, and their amounts add up to the sum over the days of the unchanged balance times the rate in
  force on the next day over that day's year length, within half of \<open>10 ^ - 12\<close> for each segment.
\<close>

theorem accrueDaily_interest:
  assumes "isIsoDate from" "isIsoDate to" "from \<le> to"
  shows "\<exists>a y segs v. utc_of from = Inr a \<and> utc_of to = Inr y \<and> accrueDaily b from to f = Inr (segs, v) \<and>
    day_runs f b a y segs \<and> sum_list (map sg_units segs) = y - a \<and>
    \<bar>sum_list (map sg_amount segs) - sum (day_interest f b) {a..<y}\<bar> \<le> of_nat (length segs) / (2 * 10 ^ 12)"
proof -
  obtain a where a: "day_ok a" "from = fmt_day a" "utc_of from = Inr a" using assms(1) by (rule isIsoDateE)
  obtain y where y: "day_ok y" "to = fmt_day y" "utc_of to = Inr y" using assms(2) by (rule isIsoDateE)
  have "a \<le> y" using assms(3) a y by (simp add: fmt_day_le_iff)
  from accrueDaily_runs [OF a(1) y(1) this, of b f] obtain segs v where
    "accrueDaily b from to f = Inr (segs, v)" "day_runs f b a y segs" by (auto simp: a(2) y(2))
  with day_runs_units [OF this(2)] day_runs_interest [OF this(2)] a(3) y(3) show ?thesis by auto
qed

lemma accrueDaily_interest_witness:
  "\<exists>segs v. accrueDaily 1000 ''2025-12-30'' ''2026-01-03'' (flatRateLookup (7 / 100) []) = Inr (segs, v) \<and>
     sum_list (map sg_units segs) = 4"
proof -
  have iso: "isIsoDate ''2025-12-30''" "isIsoDate ''2026-01-03''"
    by (rule isIsoDateI, simp add: iso_eval, simp add: iso_eval, simp)+
  have "''2025-12-30'' \<le> ''2026-01-03''" by (simp add: less_char_def)
  from accrueDaily_interest [OF iso this, of 1000 "flatRateLookup (7 / 100) []"]
  obtain a y segs v where "utc_of ''2025-12-30'' = Inr a" "utc_of ''2026-01-03'' = Inr y"
    "accrueDaily 1000 ''2025-12-30'' ''2026-01-03'' (flatRateLookup (7 / 100) []) = Inr (segs, v)" "sum_list (map sg_units segs) = y - a"
    by blast
  moreover have "utc_of ''2025-12-30'' = Inr 20452" "utc_of ''2026-01-03'' = Inr 20456"
    by (simp_all add: utc_of_def date_parse_def iso_eval date_utc_def full_year_def make_day_def day_from_year_def Let_def)
  ultimately show ?thesis by auto
qed

subsection \<open>Rate sources\<close>

text \<open>
  What the accrual needs from a lookup built from some source: no negative rate.  \<open>wf\<close> is the condition
  on the source.
\<close>

definition penalty_nonneg :: "installment_penalty \<Rightarrow> bool" where
  "penalty_nonneg x \<longleftrightarrow> list_all (\<lambda>s. 0 \<le> sg_amount s) (ip_segments x) \<and>
     ip_exact x = sum_list (map sg_amount (ip_segments x)) \<and> ip_penalty x = rnd 0 (ip_exact x)"

lemma penalty_nonneg_exact: "penalty_nonneg x \<Longrightarrow> 0 \<le> ip_exact x \<and> 0 \<le> ip_penalty x"
  by (auto simp: penalty_nonneg_def list_all_iff intro!: sum_list_nonneg rnd_nonneg)

locale rate_source =
  fixes lookup :: "'p \<Rightarrow> rate_lookup_fn" and wf :: "'p \<Rightarrow> bool"
  assumes rate_nonneg: "wf p \<Longrightarrow> 0 \<le> rate_value (lookup p d)"
begin

lemma runs_nonneg:
  "wf p \<Longrightarrow> 0 \<le> b \<Longrightarrow> day_runs (lookup p) b x y ss \<Longrightarrow> list_all (\<lambda>s. 0 \<le> sg_amount s) ss"
proof (induction ss arbitrary: x)
  case (Cons s ss)
  from Cons.prems(3) obtain yd where s: "0 < sg_units s" "quo (b * sg_rate s * of_int (sg_units s)) (of_int yd) = Inr (sg_amount s)"
      "run_day (lookup p) (sg_rate s) (\<not> sg_rateUncovered s) yd x" "day_runs (lookup p) b (x + sg_units s) y ss" by auto
  from s(3) have "sg_rate s = rate_value (lookup p (fmt_day (x + 1)))" "yd = year_days (x + 1)" by (simp_all add: run_day_def)
  then have rate: "0 \<le> sg_rate s" "0 < yd" using rate_nonneg [OF Cons.prems(1)] year_days_pos by simp_all
  then have "0 \<le> b * sg_rate s * of_int (sg_units s) / of_int yd" using s(1) Cons.prems(2) by simp
  then have "0 \<le> rnd 12 (b * sg_rate s * of_int (sg_units s) / of_int yd)" by (rule rnd_nonneg)
  then have "0 \<le> sg_amount s" using s(2) rate(2) by (simp add: quo_def)
  with Cons s(4) show ?case by auto
qed simp

lemma daily_nonneg:
  assumes "wf p" "0 \<le> b" "isIsoDate from" "isIsoDate to" "from \<le> to"
  shows "\<exists>segs v. accrueDaily b from to (lookup p) = Inr (segs, v) \<and> list_all (\<lambda>s. 0 \<le> sg_amount s) segs"
proof -
  obtain a where a: "day_ok a" "from = fmt_day a" "utc_of from = Inr a" using assms(3) by (rule isIsoDateE)
  obtain y where y: "day_ok y" "to = fmt_day y" "utc_of to = Inr y" using assms(4) by (rule isIsoDateE)
  have "a \<le> y" using assms(5) a y by (simp add: fmt_day_le_iff)
  from accrueDaily_runs [OF a(1) y(1) this, of b "lookup p"] runs_nonneg [OF assms(1,2)] show ?thesis
    by (auto simp: a(2) y(2))
qed

lemma monthly_nonneg:
  assumes "wf p" "0 \<le> b" "isIsoDate from" "isIsoDate to"
  shows "\<exists>segs v. accrueMonthly b from to (lookup p) compound = Inr (segs, v) \<and> list_all (\<lambda>s. 0 \<le> sg_amount s) segs"
proof -
  obtain months where m: "monthsOrFraction from to = Inr months" "0 \<le> months"
    using monthsOrFraction_total [OF assms(3,4)] by blast
  let ?r = "rate_value (lookup p from)"
  have q: "quo ?r 12 = Inr (rnd 12 (?r / 12))" "0 \<le> rnd 12 (?r / 12)"
    using rate_nonneg [OF assms(1), of "from"] by (simp_all add: quo_def rnd_nonneg)
  then have "1 \<le> (1 + rnd 12 (?r / 12)) ^ nat months" by (intro one_le_power) simp
  with q m assms(2) show ?thesis
    by (cases compound) (simp_all add: accrueMonthly_def compoundGrowth_def rate_value_def [symmetric] Let_def)
qed

lemma points_nonneg:
  assumes "wf p" "pp_rateOn pol = lookup p" "isIsoDate (pp_returnDueDate pol)"
    "list_all (\<lambda>q. isIsoDate (bp_date q)) ps" "list_all (\<lambda>s. 0 \<le> sg_amount s) segs"
  shows "\<exists>segs' v' a'. accrue_points pol ps (segs, v, a) = Inr (segs', v', a') \<and> list_all (\<lambda>s. 0 \<le> sg_amount s) segs'"
  using assms(4,5)
proof (induction ps arbitrary: segs v a)
  case (Cons q ps)
  define en where "en = accrual_end pol ps"
  have iso: "isIsoDate en" "isIsoDate (bp_date q)"
    using assms(3) Cons.prems(1) by (cases ps; simp add: en_def accrual_end_def Let_def)+
  show ?case
  proof (cases "\<not> 0 < bp_balance q \<or> en \<le> bp_date q")
    case True
    with Cons show ?thesis by (auto simp: Let_def en_def)
  next
    case False
    then have b: "0 \<le> bp_balance q" "bp_date q \<le> en" by auto
    have "\<exists>ss w. accrue_balance pol q en = Inr (ss, w) \<and> list_all (\<lambda>s. 0 \<le> sg_amount s) ss"
      unfolding accrue_balance_def assms(2)
      using daily_nonneg [OF assms(1) b(1) iso(2,1) b(2)] monthly_nonneg [OF assms(1) b(1) iso(2,1)] by auto
    then obtain ss w where s: "accrue_balance pol q en = Inr (ss, w)" "list_all (\<lambda>s. 0 \<le> sg_amount s) ss" by blast
    have "\<exists>segs' v' a'. accrue_points pol ps (segs @ ss, v \<or> w, Some en) = Inr (segs', v', a') \<and>
        list_all (\<lambda>s. 0 \<le> sg_amount s) segs'"
      using Cons.prems s(2) by (intro Cons.IH) auto
    with False s(1) show ?thesis by (auto simp: Let_def en_def)
  qed
qed simp

lemma installment_nonneg:
  assumes "wf p" "pp_rateOn pol = lookup p" "isIsoDate (pp_returnDueDate pol)"
    "list_all (\<lambda>q. isIsoDate (bp_date q)) (ia_timeline inst)"
  shows "\<exists>r. installmentPenalty pol inst = Inr r \<and> penalty_nonneg r"
proof (cases "pp_method pol = TieredFlat")
  case True
  then show ?thesis by (simp add: installmentPenalty_def penalty_nonneg_def Let_def)
next
  case False
  obtain segs v a where "accrue_points pol (ia_timeline inst) ([], False, None) = Inr (segs, v, a)"
      "list_all (\<lambda>s. 0 \<le> sg_amount s) segs"
    using points_nonneg [OF assms, of "[]" False None] by auto
  with False show ?thesis
    by (simp add: installmentPenalty_def penalty_nonneg_def Let_def)
qed

text \<open>The whole accrual, with the value of every installment known.\<close>

lemma emits_report: "emits () (installment_report pol inst x)"
  unfolding installment_report_def by (rule emits_cbind, (rule emits_cwhen, rule emits_basic)+)

lemma accruePenalty_runs:
  assumes "wf p" "pp_rateOn pol = lookup p" "isIsoDate (pp_returnDueDate pol)"
    "\<forall>inst \<in> set (pr_installments applied). list_all (\<lambda>q. isIsoDate (bp_date q)) (ia_timeline inst)"
  shows "\<exists>r c'. accruePenalty applied pol c = Inr (r, c') \<and>
    px_totalBeforeWaiver (pn_exact r) = sum_list (map ip_exact (pn_installments r)) \<and>
    (\<forall>x \<in> set (pn_installments r). penalty_nonneg x) \<and>
    pn_total r = rnd 0 (px_total (pn_exact r)) \<and> pn_totalBeforeWaiver r = rnd 0 (px_totalBeforeWaiver (pn_exact r)) \<and>
    px_total (pn_exact r) = (if pp_waiver pol = None then px_totalBeforeWaiver (pn_exact r) else 0) \<and>
    list_all2 (\<lambda>inst x. installmentPenalty pol inst = Inr x) (pr_installments applied) (pn_installments r)"
proof -
  have "\<forall>inst \<in> set (pr_installments applied). \<exists>x. installmentPenalty pol inst = Inr x \<and> penalty_nonneg x"
    using installment_nonneg [OF assms(1-3)] assms(4) by blast
  then obtain g where g: "\<And>inst. inst \<in> set (pr_installments applied) \<Longrightarrow> installmentPenalty pol inst = Inr (g inst)"
      "\<And>inst. inst \<in> set (pr_installments applied) \<Longrightarrow> penalty_nonneg (g inst)"
    by metis
  define xs where "xs = map g (pr_installments applied)"
  have run: "emits xs (cmap (\<lambda>inst. cbind (clift (installmentPenalty policy inst)) (\<lambda>p.
       cbind (installment_report policy inst p) (\<lambda>_. cret p))) (pr_installments applied))" if "policy = pol" for policy
    unfolding xs_def that
    by (rule emits_cmap, rule emits_cbind, rule emits_clift, erule g(1), rule emits_cbind, rule emits_report,
      rule emits_basic(1))
  have waived: "emits () (case pp_waiver pol of None \<Rightarrow> cret () | Some w \<Rightarrow> cwhen b (est_info k (d w)))" for b k d
    by (cases "pp_waiver pol") (simp_all add: emitting)
  let ?before = "sum_list (map ip_exact xs)"
  define r where "r = \<lparr>pn_jurisdiction = pp_jurisdiction pol, pn_method = pp_method pol, pn_computed = (pp_method pol \<noteq> TieredFlat),
       pn_installments = xs, pn_total = rnd 0 (case pp_waiver pol of None \<Rightarrow> ?before | Some w \<Rightarrow> 0),
       pn_totalBeforeWaiver = rnd 0 ?before, pn_waiver = pp_waiver pol,
       pn_verify = (pp_verify pol \<or> \<not> (pp_method pol \<noteq> TieredFlat) \<or> list_ex ip_verify xs), pn_notes = penalty_notes pol,
       pn_exact = \<lparr>px_total = (case pp_waiver pol of None \<Rightarrow> ?before | Some w \<Rightarrow> 0), px_totalBeforeWaiver = ?before\<rparr>\<rparr>"
  have "emits r (accruePenalty applied pol)"
    unfolding accruePenalty_def Let_def r_def
    by (rule emits_cbind, rule emits_cwhen, rule emits_basic, rule emits_cbind, rule run [OF refl], rule emits_cbind,
      rule waived, rule emits_cbind, rule emits_basic, rule emits_basic)
  then obtain c' where "accruePenalty applied pol c = Inr (r, c')" by (auto simp: emits_def)
  moreover have "\<forall>x \<in> set xs. penalty_nonneg x" using g(2) by (simp add: xs_def)
  moreover have "list_all2 (\<lambda>inst x. installmentPenalty pol inst = Inr x) (pr_installments applied) xs"
    using g(1) by (auto simp: xs_def list_all2_map2 intro: list_all2_all_nthI)
  ultimately show ?thesis by (auto simp: r_def split: option.splits intro!: exI [of _ r])
qed

end

interpretation sched: rate_source "\<lambda>(ps, ks). scheduleRateLookup ps ks" "\<lambda>(ps, ks). list_all (\<lambda>p. 0 \<le> rt_rate p) ps"
proof (unfold_locales, clarify)
  fix ps :: "rate_period list" and ks :: "string list" and d
  assume nn: "list_all (\<lambda>p. 0 \<le> rt_rate p) ps"
  let ?s = "sort_key rt_from ps"
  have s: "0 \<le> rt_rate q" if "q \<in> set ?s" for q using that nn by (simp add: list_all_iff)
  show "0 \<le> rate_value (scheduleRateLookup ps ks d)"
  proof (cases "find (\<lambda>p. rt_from p \<le> d \<and> d \<le> rt_to p) ?s")
    case None
    then show ?thesis
      using s [OF hd_in_set] s [OF last_in_set] by (simp add: scheduleRateLookup_def rate_value_def Let_def)
  next
    case (Some q)
    then have "q \<in> set ?s" by (auto simp: find_Some_iff simp del: set_sort)
    with Some s show ?thesis by (simp add: scheduleRateLookup_def rate_value_def Let_def)
  qed
qed

interpretation flat: rate_source "\<lambda>(r, ks). flatRateLookup r ks" "\<lambda>(r, ks). 0 \<le> r"
  by unfold_locales (auto simp: flatRateLookup_def rate_value_def)

subsection \<open>The penalty\<close>

lemma list_all2_in_set2: "list_all2 P xs ys \<Longrightarrow> y \<in> set ys \<Longrightarrow> \<exists>x \<in> set xs. P x y"
  by (induction rule: list_all2_induct) auto

lemma accrue_points_settled:
  "list_all (\<lambda>q. \<not> 0 < bp_balance q) ps \<Longrightarrow> accrue_points pol ps (segs, v, a) = Inr (segs, v, a)"
  by (induction ps) (simp_all add: Let_def)

lemma installmentPenalty_settled:
  "list_all (\<lambda>q. \<not> 0 < bp_balance q) (ia_timeline inst) \<Longrightarrow> installmentPenalty pol inst = Inr x \<Longrightarrow> ip_exact x = 0"
  by (auto simp: installmentPenalty_def accrue_points_settled Let_def split: if_splits)

lemma sum_list_zero: "\<forall>x \<in> set xs. f x = 0 \<Longrightarrow> sum_list (map f xs) = (0 :: rat)"
  by (induction xs) simp_all

text \<open>
  C25: with a schedule of non-negative rates and real dates the accrual always returns, and nothing in
  its result is negative: no segment amount, no penalty of an installment, exact or in whole dollars,
  and no total.  Every installment's penalty is the sum of its segments, the total before the waiver is
  the sum of the installments' penalties, the total is the same unless there is a waiver, and then it
  is zero; an installment that never has an unpaid balance carries no penalty.
\<close>

theorem accruePenalty_safe:
  assumes "list_all (\<lambda>p. 0 \<le> rt_rate p) periods" "pp_rateOn pol = scheduleRateLookup periods ks"
    "isIsoDate (pp_returnDueDate pol)"
    "\<forall>inst \<in> set (pr_installments applied). list_all (\<lambda>q. isIsoDate (bp_date q)) (ia_timeline inst)"
  shows "\<exists>r c'. accruePenalty applied pol c = Inr (r, c') \<and>
    (\<forall>x \<in> set (pn_installments r). (\<forall>s \<in> set (ip_segments x). 0 \<le> sg_amount s) \<and>
      ip_exact x = sum_list (map sg_amount (ip_segments x)) \<and> 0 \<le> ip_exact x \<and> 0 \<le> ip_penalty x) \<and>
    0 \<le> px_total (pn_exact r) \<and> 0 \<le> pn_total r \<and> 0 \<le> pn_totalBeforeWaiver r \<and>
    px_totalBeforeWaiver (pn_exact r) = sum_list (map ip_exact (pn_installments r)) \<and>
    px_total (pn_exact r) = (if pp_waiver pol = None then px_totalBeforeWaiver (pn_exact r) else 0) \<and>
    list_all2 (\<lambda>inst x. list_all (\<lambda>q. \<not> 0 < bp_balance q) (ia_timeline inst) \<longrightarrow> ip_exact x = 0)
      (pr_installments applied) (pn_installments r) \<and>
    ((\<forall>inst \<in> set (pr_installments applied). list_all (\<lambda>q. \<not> 0 < bp_balance q) (ia_timeline inst)) \<longrightarrow>
      px_totalBeforeWaiver (pn_exact r) = 0)"
proof -
  from sched.accruePenalty_runs [of "(periods, ks)" pol applied c] assms obtain r c' where
    r: "accruePenalty applied pol c = Inr (r, c')"
      "px_totalBeforeWaiver (pn_exact r) = sum_list (map ip_exact (pn_installments r))"
      "\<forall>x \<in> set (pn_installments r). penalty_nonneg x"
      "pn_total r = rnd 0 (px_total (pn_exact r))" "pn_totalBeforeWaiver r = rnd 0 (px_totalBeforeWaiver (pn_exact r))"
      "px_total (pn_exact r) = (if pp_waiver pol = None then px_totalBeforeWaiver (pn_exact r) else 0)"
      "list_all2 (\<lambda>inst x. installmentPenalty pol inst = Inr x) (pr_installments applied) (pn_installments r)"
    by auto
  have before: "0 \<le> px_totalBeforeWaiver (pn_exact r)"
    using r(2,3) penalty_nonneg_exact by (auto intro!: sum_list_nonneg)
  then have "0 \<le> px_total (pn_exact r)" using r(6) by simp
  moreover from this before have "0 \<le> pn_total r" "0 \<le> pn_totalBeforeWaiver r"
    unfolding r(4,5) by (auto intro: rnd_nonneg)
  moreover have settled: "list_all2 (\<lambda>inst x. list_all (\<lambda>q. \<not> 0 < bp_balance q) (ia_timeline inst) \<longrightarrow> ip_exact x = 0)
      (pr_installments applied) (pn_installments r)"
    using r(7) by (rule list_all2_mono) (blast intro: installmentPenalty_settled)
  moreover have "px_totalBeforeWaiver (pn_exact r) = 0"
    if "\<forall>inst \<in> set (pr_installments applied). list_all (\<lambda>q. \<not> 0 < bp_balance q) (ia_timeline inst)"
    unfolding r(2) using that list_all2_in_set2 [OF settled] by (intro sum_list_zero) blast
  moreover have "\<forall>x \<in> set (pn_installments r). (\<forall>s \<in> set (ip_segments x). 0 \<le> sg_amount s) \<and>
      ip_exact x = sum_list (map sg_amount (ip_segments x)) \<and> 0 \<le> ip_exact x \<and> 0 \<le> ip_penalty x"
    using r(3) penalty_nonneg_exact by (auto simp: penalty_nonneg_def list_all_iff)
  ultimately show ?thesis
    using r(1,2,6) by blast
qed

definition sample_applied :: payment_application_result where
  "sample_applied = \<lparr>pr_jurisdiction = ''federal'', pr_installments = [\<lparr>ia_index = 0, ia_dueDate = ''2026-01-15'',
     ia_required = 1000, ia_withholdingCredited = 0, ia_carriedIn = 0, ia_netRequired = 1000, ia_applied = [],
     ia_paidInFullOn = None, ia_unpaidAtEnd = 1000, ia_timeline = [\<lparr>bp_date = ''2026-01-15'', bp_balance = 1000\<rparr>],
     ia_exact = \<lparr>ax_required = 1000, ax_withholdingCredited = 0, ax_carriedIn = 0, ax_netRequired = 1000, ax_unpaidAtEnd = 1000\<rparr>\<rparr>],
     pr_excessAfterLast = 0, pr_totalRequired = 1000, pr_totalWithholding = 0, pr_totalEstimates = 0, pr_totalUnpaidAtEnd = 1000,
     pr_exact = \<lparr>rx_excessAfterLast = 0, rx_totalRequired = 1000, rx_totalWithholding = 0, rx_totalEstimates = 0, rx_totalUnpaidAtEnd = 1000\<rparr>\<rparr>"

definition sample_policy :: penalty_policy where
  "sample_policy = \<lparr>pp_jurisdiction = ''federal'', pp_method = DailySimple,
     pp_rateOn = scheduleRateLookup [\<lparr>rt_from = ''2026-01-01'', rt_to = ''2026-03-31'', rt_rate = 7 / 100\<rparr>] [],
     pp_returnDueDate = ''2026-04-15'', pp_waiver = Some \<lparr>pw_reason = BelowMinBalance, pw_detail = []\<rparr>,
     pp_reliefDate = None, pp_verify = False, pp_notes = []\<rparr>"

lemma accruePenalty_safe_witness:
  "\<exists>r c'. accruePenalty sample_applied sample_policy (new_est [] 2026 Single) = Inr (r, c') \<and> px_total (pn_exact r) = 0 \<and>
    0 \<le> px_totalBeforeWaiver (pn_exact r) \<and> (\<forall>x \<in> set (pn_installments r). \<forall>s \<in> set (ip_segments x). 0 \<le> sg_amount s)"
proof -
  have "isIsoDate ''2026-01-15''" "isIsoDate ''2026-04-15''"
    by (rule isIsoDateI, simp add: iso_eval, simp add: iso_eval, simp)+
  from accruePenalty_safe [of "[\<lparr>rt_from = ''2026-01-01'', rt_to = ''2026-03-31'', rt_rate = 7 / 100\<rparr>]" sample_policy "[]"
      sample_applied "new_est [] 2026 Single"] this
  obtain r c' where r: "accruePenalty sample_applied sample_policy (new_est [] 2026 Single) = Inr (r, c')"
      "\<forall>x \<in> set (pn_installments r). (\<forall>s \<in> set (ip_segments x). 0 \<le> sg_amount s) \<and> 0 \<le> ip_exact x"
      "px_totalBeforeWaiver (pn_exact r) = sum_list (map ip_exact (pn_installments r))" "px_total (pn_exact r) = 0"
    by (auto simp: sample_policy_def sample_applied_def)
  then have "0 \<le> px_totalBeforeWaiver (pn_exact r)" by (auto intro!: sum_list_nonneg)
  with r show ?thesis by blast
qed

end
