(* ===== verification/Holidays.thy ===== *)
theory Holidays
  imports Dates Registry
begin

section \<open>Legal holidays and the year roll of statutory dates (tax-estimator/dates.ts)\<close>

text \<open>
  The legal-holiday calendar, the federal dates of a tax year derived from it, and the state dates
  inferred from the stored, observed ones.  A JavaScript \<open>Set\<close> that is sorted on return is a sorted
  list without repetition; a \<open>Map\<close> is an association list in insertion order.
\<close>

subsection \<open>Loops that may throw and return early\<close>

fun efind :: "('a \<Rightarrow> bool result) \<Rightarrow> 'a list \<Rightarrow> 'a option result" where
  "efind P [] = Inr None"
| "efind P (x # xs) = ebind (P x) (\<lambda>b. if b then Inr (Some x) else efind P xs)"

definition eany :: "('a \<Rightarrow> bool result) \<Rightarrow> 'a list \<Rightarrow> bool result" where
  "eany P xs = ebind (efind P xs) (\<lambda>r. Inr (r \<noteq> None))"

subsection \<open>Holiday rules\<close>

datatype observance = ObsFederal | ObsSundayToMonday | ObsNone

datatype holiday_kind = Fixed string | NthWeekday int int int | Inauguration

record holiday_rule =
  hr_id :: string
  hr_kind :: holiday_kind

definition LAST :: int where "LAST = -1"

definition HR :: "string \<Rightarrow> holiday_kind \<Rightarrow> holiday_rule" where
  "HR i k = \<lparr>hr_id = i, hr_kind = k\<rparr>"

definition FEDERAL_HOLIDAY_RULES :: "holiday_rule list" where
  "FEDERAL_HOLIDAY_RULES = [
     HR ''new_years_day'' (Fixed ''01-01''),
     HR ''mlk_day'' (NthWeekday 1 1 3),
     HR ''inauguration_day'' Inauguration,
     HR ''washingtons_birthday'' (NthWeekday 2 1 3),
     HR ''dc_emancipation_day'' (Fixed ''04-16''),
     HR ''memorial_day'' (NthWeekday 5 1 LAST),
     HR ''juneteenth'' (Fixed ''06-19''),
     HR ''independence_day'' (Fixed ''07-04''),
     HR ''labor_day'' (NthWeekday 9 1 1),
     HR ''columbus_day'' (NthWeekday 10 1 2),
     HR ''veterans_day'' (Fixed ''11-11''),
     HR ''thanksgiving'' (NthWeekday 11 4 4),
     HR ''christmas'' (Fixed ''12-25'')]"

definition is_fixed :: "holiday_rule \<Rightarrow> string option" where
  "is_fixed r = (case hr_kind r of Fixed md \<Rightarrow> Some md | _ \<Rightarrow> None)"

text \<open>
  The operands of \<open>%\<close> are not negative here (\<open>dow\<close> is 0 to 6), so the remainder of JavaScript is
  \<open>mod\<close>; for the inauguration year only the test for zero matters.
\<close>

definition nthWeekdayOfMonth :: "int \<Rightarrow> int \<Rightarrow> int \<Rightarrow> int \<Rightarrow> string result" where
  "nthWeekdayOfMonth year month weekday n =
    (if n = LAST then
       (let l = lastDayOfMonthUtc year (month - 1) in
        ebind (dow l) (\<lambda>w. addDays l (- ((w - weekday + 7) mod 7))))
     else
       (let first = ymd_text year month 1 in
        ebind (dow first) (\<lambda>w. addDays first ((weekday - w + 7) mod 7 + (n - 1) * 7))))"

definition observedHoliday :: "string \<Rightarrow> observance \<Rightarrow> string result" where
  "observedHoliday s policy = ebind (dow s) (\<lambda>w.
     if w = 0 \<and> policy \<noteq> ObsNone then addDays s 1
     else if w = 6 \<and> policy = ObsFederal then addDays s (- 1)
     else Inr s)"

definition isInaugurationYear :: "int \<Rightarrow> bool" where
  "isInaugurationYear year \<longleftrightarrow> (year - 1965) mod 4 = 0"

definition ruleDate :: "holiday_rule \<Rightarrow> int \<Rightarrow> observance \<Rightarrow> string option result" where
  "ruleDate rule year policy = (case hr_kind rule of
      Fixed md \<Rightarrow> ebind (monthDayInYear md year) (\<lambda>raw. ebind (observedHoliday raw policy) (\<lambda>d. Inr (Some d)))
    | NthWeekday month weekday n \<Rightarrow> ebind (nthWeekdayOfMonth year month weekday n) (\<lambda>d. Inr (Some d))
    | Inauguration \<Rightarrow>
        if \<not> isInaugurationYear year then Inr None
        else ebind (observedHoliday (pad year 4 @ ''-01-20'') ObsSundayToMonday) (\<lambda>d. Inr (Some d)))"

definition calendar_step :: "int \<Rightarrow> int \<Rightarrow> observance \<Rightarrow> int \<times> holiday_rule \<Rightarrow> string list \<Rightarrow> string list result" where
  "calendar_step fromYear toYear policy = (\<lambda>(y, r) out.
     ebind (ruleDate r y policy) (\<lambda>d. case d of None \<Rightarrow> Inr out
       | Some d \<Rightarrow> ebind (yearOf d) (\<lambda>yy.
           if fromYear \<le> yy \<and> yy \<le> toYear then Inr (List.insert d out) else Inr out)))"

definition holidayCalendar :: "holiday_rule list \<Rightarrow> int \<Rightarrow> int \<Rightarrow> observance \<Rightarrow> string list result" where
  "holidayCalendar rules fromYear toYear policy =
    ebind (efold (calendar_step fromYear toYear policy)
      (concat (map (\<lambda>y. map (\<lambda>r. (y, r)) rules) [fromYear..toYear + 1])) []) (\<lambda>out. Inr (sort out))"

definition federalLegalHolidays :: "int \<Rightarrow> string list result" where
  "federalLegalHolidays year = holidayCalendar FEDERAL_HOLIDAY_RULES year year ObsFederal"

definition legalHolidaysForTaxYear :: "int \<Rightarrow> string list result" where
  "legalHolidaysForTaxYear taxYear = holidayCalendar FEDERAL_HOLIDAY_RULES taxYear (taxYear + 1) ObsFederal"

definition statutoryDatesForYear :: "statutory_date list \<Rightarrow> int \<Rightarrow> string list \<Rightarrow> string list result" where
  "statutoryDatesForYear dates taxYear holidays =
    emap (\<lambda>d. ebind (monthDayInYear (sd_monthDay d) (taxYear + sd_yearOffset d)) (\<lambda>s. nextBusinessDay s holidays)) dates"

text \<open>\<open>dates[0]\<close> of an empty list is \<open>undefined\<close>, here \<open>None\<close>.\<close>

datatype derived_date = OneDate "string option" | ManyDates "string list"

definition derive_one :: "int \<Rightarrow> string list \<Rightarrow> parameter_def \<Rightarrow> (string \<times> derived_date) list \<Rightarrow> (string \<times> derived_date) list result" where
  "derive_one taxYear holidays d out = (case pd_roll d of
      None \<Rightarrow> Inr out
    | Some LegalHolidays \<Rightarrow> Inr (out @ [(pd_key d, ManyDates holidays)])
    | Some (Statutory dates) \<Rightarrow> ebind (statutoryDatesForYear dates taxYear holidays) (\<lambda>ds.
        Inr (out @ [(pd_key d, if pd_ty d = PDate then OneDate (case ds of [] \<Rightarrow> None | x # _ \<Rightarrow> Some x) else ManyDates ds)])))"

definition deriveFederalDates :: "int \<Rightarrow> (string \<times> derived_date) list result" where
  "deriveFederalDates taxYear = ebind (legalHolidaysForTaxYear taxYear) (\<lambda>holidays.
     efold (derive_one taxYear holidays) PARAMETER_REGISTRY [])"

definition federalStatutoryMonthDays :: "string \<Rightarrow> string list" where
  "federalStatutoryMonthDays k = (case find (\<lambda>d. pd_key d = k) PARAMETER_REGISTRY of
      None \<Rightarrow> []
    | Some d \<Rightarrow> (case pd_roll d of Some (Statutory dates) \<Rightarrow> map sd_monthDay dates | _ \<Rightarrow> []))"

subsection \<open>State dates, inferred from the stored list\<close>

record shifts =
  sh_satShifted :: bool
  sh_sunShifted :: bool
  sh_sunKept :: bool

definition note_shift :: "string \<Rightarrow> string \<Rightarrow> shifts \<Rightarrow> shifts result" where
  "note_shift d raw st =
    ebind (dow raw) (\<lambda>w.
    ebind (if w = 6 then ebind (addDays raw (- 1)) (\<lambda>x. Inr (d = x)) else Inr False) (\<lambda>sat.
    ebind (if w = 0 then ebind (addDays raw 1) (\<lambda>x. Inr (d = x)) else Inr False) (\<lambda>sun.
    Inr (st\<lparr>sh_satShifted := (sh_satShifted st \<or> sat), sh_sunShifted := (sh_sunShifted st \<or> sun)\<rparr>))))"

definition note_date :: "string \<Rightarrow> shifts \<Rightarrow> shifts result" where
  "note_date d st =
    ebind (yearOf d) (\<lambda>y.
    ebind (efold (\<lambda>(r, yy) st. case is_fixed r of None \<Rightarrow> Inr st
        | Some md \<Rightarrow> ebind (monthDayInYear md yy) (\<lambda>raw. note_shift d raw st))
      (concat (map (\<lambda>r. [(r, y), (r, y + 1)]) FEDERAL_HOLIDAY_RULES)) st) (\<lambda>st.
    ebind (dow d) (\<lambda>w. Inr (st\<lparr>sh_sunKept := (sh_sunKept st \<or> w = 0)\<rparr>))))"

definition inferHolidayObservance :: "string list \<Rightarrow> observance result" where
  "inferHolidayObservance dates =
    ebind (efold note_date dates \<lparr>sh_satShifted = False, sh_sunShifted = False, sh_sunKept = False\<rparr>) (\<lambda>st.
    Inr (if sh_satShifted st then ObsFederal
         else if sh_sunKept st \<and> \<not> sh_sunShifted st then ObsNone else ObsSundayToMonday))"

definition matches_floating :: "string \<Rightarrow> int \<Rightarrow> holiday_rule \<Rightarrow> bool result" where
  "matches_floating d y r =
    (if is_fixed r \<noteq> None then Inr False
     else eany (\<lambda>(yy, policy). ebind (ruleDate r yy policy) (\<lambda>x. Inr (x = Some d)))
       [(y - 1, ObsFederal), (y - 1, ObsNone), (y, ObsFederal), (y, ObsNone), (y + 1, ObsFederal), (y + 1, ObsNone)])"

definition matches_fixed :: "string \<Rightarrow> int \<Rightarrow> holiday_rule \<Rightarrow> bool result" where
  "matches_fixed d y r = (case is_fixed r of None \<Rightarrow> Inr False
     | Some md \<Rightarrow> eany (\<lambda>yy. ebind (monthDayInYear md yy) (\<lambda>raw.
         if d = raw then Inr True
         else ebind (observedHoliday raw ObsFederal) (\<lambda>x. if d = x then Inr True
         else ebind (observedHoliday raw ObsSundayToMonday) (\<lambda>x. Inr (d = x))))) [y, y + 1])"

definition matchHolidayRule :: "string \<Rightarrow> holiday_rule result" where
  "matchHolidayRule d =
    ebind (yearOf d) (\<lambda>y.
    ebind (efind (matches_floating d y) FEDERAL_HOLIDAY_RULES) (\<lambda>fl. case fl of Some r \<Rightarrow> Inr r
    | None \<Rightarrow> ebind (efind (matches_fixed d y) FEDERAL_HOLIDAY_RULES) (\<lambda>fx. case fx of Some r \<Rightarrow> Inr r
    | None \<Rightarrow> ebind (date_parse d) (\<lambda>(_, m, day).
        let md = pad m 2 @ ''-'' @ pad day 2 in Inr (HR (''fixed:'' @ md) (Fixed md))))))"

definition inferHolidayRules :: "string list \<Rightarrow> holiday_rule list result" where
  "inferHolidayRules dates = efold (\<lambda>d out. ebind (matchHolidayRule d) (\<lambda>r.
     Inr (if hr_id r \<in> set (map hr_id out) then out else out @ [r]))) dates []"

definition rollHolidayList :: "string list \<Rightarrow> int \<Rightarrow> string list result" where
  "rollHolidayList priorDates toYear =
    (if priorDates = [] then Inr []
     else ebind (inferHolidayRules priorDates) (\<lambda>rules. ebind (inferHolidayObservance priorDates) (\<lambda>policy.
       holidayCalendar rules toYear (toYear + 1) policy)))"

definition isLastDayOfMonth :: "string \<Rightarrow> bool result" where
  "isLastDayOfMonth s = ebind (date_parse s) (\<lambda>(y, m, d). Inr (s = lastDayOfMonthUtc y (m - 1)))"

definition monthDayOf :: "string \<Rightarrow> string" where
  "monthDayOf s = drop 5 s"

definition MAX_UNBUMP_DAYS :: nat where "MAX_UNBUMP_DAYS = 10"

definition STATUTORY_DAYS_OF_MONTH :: "int list" where "STATUTORY_DAYS_OF_MONTH = [1, 15, 20, 30]"

fun unbump :: "string list \<Rightarrow> nat \<Rightarrow> string \<Rightarrow> string list result" where
  "unbump hol 0 d = Inr []"
| "unbump hol (Suc n) d =
    ebind (addDays d (- 1)) (\<lambda>prev. ebind (isWeekend prev) (\<lambda>w.
      if \<not> w \<and> prev \<notin> set hol then Inr []
      else ebind (unbump hol n prev) (\<lambda>ps. Inr (prev # ps))))"

definition is_statutory_day :: "string \<Rightarrow> bool result" where
  "is_statutory_day c = ebind (date_parse c) (\<lambda>(_, _, d).
     if d \<in> set STATUTORY_DAYS_OF_MONTH then Inr True else isLastDayOfMonth c)"

fun efilter :: "('a \<Rightarrow> bool result) \<Rightarrow> 'a list \<Rightarrow> 'a list result" where
  "efilter P [] = Inr []"
| "efilter P (x # xs) = ebind (P x) (\<lambda>b. ebind (efilter P xs) (\<lambda>ys. Inr (if b then x # ys else ys)))"

definition inferStatutoryDate :: "string \<Rightarrow> string list \<Rightarrow> string list \<Rightarrow> string result" where
  "inferStatutoryDate observed priorHolidays hints =
    ebind (unbump priorHolidays MAX_UNBUMP_DAYS observed) (\<lambda>back.
    let candidates = observed # back in
    if length candidates = 1 then Inr observed
    else (case filter (\<lambda>c. monthDayOf c \<in> set hints) candidates of
        [c] \<Rightarrow> Inr c
      | _ \<Rightarrow> ebind (efilter is_statutory_day candidates) (\<lambda>sd. case sd of [c] \<Rightarrow> Inr c | _ \<Rightarrow> Inr observed)))"

definition rollObservedDate :: "string \<Rightarrow> string list \<Rightarrow> int \<Rightarrow> int \<Rightarrow> string list \<Rightarrow> string list \<Rightarrow> string result" where
  "rollObservedDate observed priorHolidays fromYear toYear newHolidays hints =
    ebind (inferStatutoryDate observed priorHolidays hints) (\<lambda>statutory.
    ebind (yearOf statutory) (\<lambda>sy.
    ebind (monthDayInYear (monthDayOf statutory) (toYear + (sy - fromYear))) (\<lambda>target.
    nextBusinessDay target newHolidays)))"

subsection \<open>The date-valued rules of a state\<close>

text \<open>
  \<open>rollStateRuleDates\<close> works on unvalidated JSON.  \<open>js_text\<close> is \<open>String(v)\<close>, with the text of a number
  as the argument \<open>nt\<close>; a field whose value would be \<open>undefined\<close> is absent, as it is in JSON.
\<close>

fun join_comma :: "string list \<Rightarrow> string" where
  "join_comma [] = []"
| "join_comma [s] = s"
| "join_comma (s # ss) = s @ '','' @ join_comma ss"

fun js_text :: "(rat \<Rightarrow> string) \<Rightarrow> json \<Rightarrow> string" where
  "js_text nt JNull = ''null''"
| "js_text nt (JBool b) = (if b then ''true'' else ''false'')"
| "js_text nt (JNum q) = nt q"
| "js_text nt (JStr s) = s"
| "js_text nt (JArr xs) = join_comma (map (\<lambda>x. if x = JNull then [] else js_text nt x) xs)"
| "js_text nt (JObj fs) = ''[object Object]''"

definition field_text :: "(rat \<Rightarrow> string) \<Rightarrow> string \<Rightarrow> json \<Rightarrow> string" where
  "field_text nt k v = (case jfield k v of None \<Rightarrow> ''undefined'' | Some x \<Rightarrow> js_text nt x)"

definition STATE_HINT_KEYS :: "string \<Rightarrow> string" where
  "STATE_HINT_KEYS k =
    (if k = ''installments.due_dates'' then ''installments.due_dates''
     else if k = ''installments.q4_file_and_pay_date'' then ''installments.q4_file_and_pay_date''
     else if k = ''return_due_date'' then ''return_due_date''
     else if k = ''farmer.rule.due_date'' then ''farmer.single_due_date''
     else if k = ''farmer.rule.file_by'' then ''farmer.file_by_date''
     else [])"

definition roll_json :: "string list \<Rightarrow> int \<Rightarrow> int \<Rightarrow> string list \<Rightarrow> json \<Rightarrow> string \<Rightarrow> json result" where
  "roll_json priorHolidays fromYear toYear holidays d hintKey = (case d of
      JStr s \<Rightarrow> ebind (rollObservedDate s priorHolidays fromYear toYear holidays
        (federalStatutoryMonthDays (STATE_HINT_KEYS hintKey))) (\<lambda>r. Inr (JStr r))
    | _ \<Rightarrow> Inr d)"

definition roll_rate_leg :: "(rat \<Rightarrow> string) \<Rightarrow> int \<Rightarrow> int \<Rightarrow> json \<Rightarrow> json result" where
  "roll_rate_leg nt fromYear toYear p =
    (if p = JNull then Inl (JsError ''TypeError'' [])
     else ebind (rollDateToYear (field_text nt ''from'' p) fromYear toYear) (\<lambda>a.
       ebind (rollDateToYear (field_text nt ''to'' p) fromYear toYear) (\<lambda>b.
       Inr (JObj ([(''from'', JStr a), (''to'', JStr b)] @
         (case jfield ''rate'' p of None \<Rightarrow> [] | Some r \<Rightarrow> [(''rate'', r)]))))))"

definition object_fields :: "json \<Rightarrow> (string \<times> json) list" where
  "object_fields v = (case v of JObj fs \<Rightarrow> fs
     | JArr xs \<Rightarrow> zip (map show_nat [0..<length xs]) xs | _ \<Rightarrow> [])"

fun set_field :: "string \<Rightarrow> json \<Rightarrow> (string \<times> json) list \<Rightarrow> (string \<times> json) list" where
  "set_field k v [] = [(k, v)]"
| "set_field k v ((l, w) # fs) = (if l = k then (k, v) # fs else (l, w) # set_field k v fs)"

definition roll_field :: "(json \<Rightarrow> string \<Rightarrow> json result) \<Rightarrow> json \<Rightarrow> string \<Rightarrow> string \<Rightarrow> (string \<times> json) list \<Rightarrow>
    (string \<times> json) list result" where
  "roll_field roll f k hintKey fs = (case jfield k f of None \<Rightarrow> Inr fs
     | Some v \<Rightarrow> ebind (roll v hintKey) (\<lambda>v'. Inr (set_field k v' fs)))"

definition roll_rule_value :: "(rat \<Rightarrow> string) \<Rightarrow> string list \<Rightarrow> int \<Rightarrow> int \<Rightarrow> string list \<Rightarrow> string \<Rightarrow> json \<Rightarrow> json option result" where
  "roll_rule_value nt priorHolidays fromYear toYear holidays key v =
    (let roll = roll_json priorHolidays fromYear toYear holidays in
     case v of
       JArr xs \<Rightarrow>
         if key = ''holidays'' then Inr (Some (JArr (map JStr holidays)))
         else if key = ''installments.due_dates'' then ebind (emap (\<lambda>d. roll d key) xs) (\<lambda>ys. Inr (Some (JArr ys)))
         else if key = ''penalty.rate_schedule'' then ebind (emap (roll_rate_leg nt fromYear toYear) xs) (\<lambda>ys. Inr (Some (JArr ys)))
         else if key = ''farmer.rule'' then Inr (Some (JObj (object_fields v)))
         else Inr None
     | JStr s \<Rightarrow>
         if key = ''installments.q4_file_and_pay_date'' \<or> key = ''return_due_date''
         then ebind (roll v key) (\<lambda>w. Inr (Some w)) else Inr None
     | JObj fs \<Rightarrow>
         if key = ''farmer.rule'' then
           ebind (roll_field roll v ''due_date'' ''farmer.rule.due_date'' fs) (\<lambda>fs1.
           ebind (roll_field roll v ''file_by'' ''farmer.rule.file_by'' fs1) (\<lambda>fs2. Inr (Some (JObj fs2))))
         else Inr None
     | _ \<Rightarrow> Inr None)"

definition rollStateRuleDates :: "(rat \<Rightarrow> string) \<Rightarrow> (string \<times> json) list \<Rightarrow> int \<Rightarrow> int \<Rightarrow> (string \<times> json) list result" where
  "rollStateRuleDates nt values fromYear toYear =
    (let priorHolidays = (case map_of values ''holidays'' of Some (JArr xs) \<Rightarrow> map (js_text nt) xs | _ \<Rightarrow> []) in
     ebind (rollHolidayList priorHolidays toYear) (\<lambda>holidays.
     efold (\<lambda>(key, v) out. ebind (roll_rule_value nt priorHolidays fromYear toYear holidays key v) (\<lambda>r.
       Inr (case r of None \<Rightarrow> out | Some w \<Rightarrow> out @ [(key, w)]))) values []))"

subsection \<open>The n-th weekday\<close>

lemma days_in_month_range: "1 \<le> m \<Longrightarrow> m \<le> 12 \<Longrightarrow> 28 \<le> days_in_month y m \<and> days_in_month y m \<le> 31"
proof -
  assume "1 \<le> m" "m \<le> 12"
  then have "m = 1 \<or> m = 2 \<or> m = 3 \<or> m = 4 \<or> m = 5 \<or> m = 6 \<or> m = 7 \<or> m = 8 \<or> m = 9 \<or> m = 10 \<or> m = 11 \<or> m = 12"
    by presburger
  then show ?thesis by (elim disjE) (simp_all add: days_in_month_def cum_days_def)
qed

lemma make_day_shift: "make_day y m0 (d + n) = make_day y m0 d + n"
  by (simp add: make_day_def Let_def)

lemma make_day_last: "1 \<le> m \<Longrightarrow> m \<le> 12 \<Longrightarrow> make_day y m 0 = make_day y (m - 1) (days_in_month y m)"
proof (cases "m = 12")
  case True
  then show ?thesis
    by (simp add: make_day_def days_in_month_def day_from_year_Suc cum_days_def Let_def)
next
  case False
  assume "1 \<le> m" "m \<le> 12"
  with False show ?thesis by (simp add: make_day_def days_in_month_def Let_def)
qed

lemma week_day_split: "\<exists>q. k + 4 = 7 * q + week_day k"
  unfolding week_day_def by (metis mult_div_mod_eq)

lemma weekday_back:
  assumes "0 \<le> wd" "wd \<le> 6"
  shows "week_day (k - (week_day k - wd + 7) mod 7) = wd"
proof -
  obtain q where q: "k + 4 = 7 * q + week_day k" using week_day_split by blast
  have "(k + 4 - (week_day k - wd + 7) mod 7) mod 7 = (k + 4 - (week_day k - wd + 7)) mod 7" by (rule mod_diff_right_eq)
  also have "k + 4 - (week_day k - wd + 7) = wd + 7 * (q - 1)" using q by simp
  also have "\<dots> mod 7 = wd" using assms by (simp only: mod_mult_self2 mod_pos_pos_trivial)
  finally show ?thesis by (simp add: week_day_def algebra_simps)
qed

lemma weekday_forward:
  assumes "0 \<le> wd" "wd \<le> 6"
  shows "week_day (k + ((wd - week_day k + 7) mod 7 + j * 7)) = wd"
proof -
  obtain q where q: "k + 4 = 7 * q + week_day k" using week_day_split by blast
  have "(k + 4 + j * 7 + (wd - week_day k + 7) mod 7) mod 7 = (k + 4 + j * 7 + (wd - week_day k + 7)) mod 7"
    by (rule mod_add_right_eq)
  also have "k + 4 + j * 7 + (wd - week_day k + 7) = wd + 7 * (q + j + 1)" using q by simp
  also have "\<dots> mod 7 = wd" using assms by (simp only: mod_mult_self2 mod_pos_pos_trivial)
  finally show ?thesis by (simp add: week_day_def algebra_simps)
qed

lemma nthWeekdayOfMonth_day:
  assumes "100 \<le> y" "y \<le> 9999" "1 \<le> m" "m \<le> 12" "0 \<le> wd" "wd \<le> 6" "n = LAST \<or> (1 \<le> n \<and> n \<le> 4)"
  shows "\<exists>k d. nthWeekdayOfMonth y m wd n = Inr (fmt_day k) \<and> civil k = (y, m, d) \<and> week_day k = wd \<and>
    (if n = LAST then days_in_month y m - 7 < d else 7 * (n - 1) < d \<and> d \<le> 7 * n)"
proof (cases "n = LAST")
  case True
  let ?l = "make_day y (m - 1) (days_in_month y m)"
  define b where "b = (week_day ?l - wd + 7) mod 7"
  have b: "0 \<le> b" "b < 7" unfolding b_def by simp_all
  note dim = days_in_month_range [OF assms(3,4), of y]
  have ok: "day_ok ?l" using dim assms by (intro make_day_day_ok) (simp_all add: valid_date_def)
  have "date_utc y m 0 = ?l" using assms make_day_last [OF assms(3,4)] by (simp add: date_utc_def full_year_def)
  then have "lastDayOfMonthUtc y (m - 1) = fmt_day ?l" by (simp add: lastDayOfMonthUtc_def isoDateUtc_def)
  with True ok have "nthWeekdayOfMonth y m wd n = Inr (fmt_day (?l - b))"
    by (simp add: nthWeekdayOfMonth_def dow_def addDays_def b_def Let_def)
  moreover have "?l - b = make_day y (m - 1) (days_in_month y m - b)"
    using make_day_shift [of y "m - 1" "days_in_month y m" "- b"] by simp
  moreover have "valid_date y m (days_in_month y m - b)" using dim b assms by (simp add: valid_date_def)
  moreover have "week_day (?l - b) = wd" unfolding b_def using assms by (intro weekday_back)
  ultimately show ?thesis using True b civil_make_day by fastforce
next
  case False
  let ?f = "make_day y (m - 1) 1"
  define t where "t = (wd - week_day ?f + 7) mod 7 + (n - 1) * 7"
  have t: "7 * (n - 1) \<le> t" "t < 7 * n" unfolding t_def by simp_all
  note dim = days_in_month_range [OF assms(3,4), of y]
  have n: "1 \<le> n" "n \<le> 4" using False assms(7) by simp_all
  have "utc_of (ymd_text y m 1) = Inr ?f"
    using assms by (simp add: utc_of_ymd_text date_utc_def full_year_def)
  then have "nthWeekdayOfMonth y m wd n = Inr (fmt_day (?f + t))"
    using False by (simp add: nthWeekdayOfMonth_def dow_def addDays_def t_def Let_def)
  moreover have "?f + t = make_day y (m - 1) (1 + t)" by (simp add: make_day_shift)
  moreover have "valid_date y m (1 + t)" using dim t n assms by (simp add: valid_date_def)
  moreover have "week_day (?f + t) = wd" unfolding t_def using assms by (intro weekday_forward)
  ultimately show ?thesis using False t civil_make_day by fastforce
qed

text \<open>
  C22: \<open>nthWeekdayOfMonth\<close> gives the day of the month asked for: it lies in the month and falls on the
  weekday, in the n-th week of seven days from the first, or for \<open>LAST\<close> within the last seven days.
\<close>

theorem nthWeekdayOfMonth_correct:
  assumes "100 \<le> y" "y \<le> 9999" "1 \<le> m" "m \<le> 12" "0 \<le> wd" "wd \<le> 6" "n = LAST \<or> (1 \<le> n \<and> n \<le> 4)"
  shows "\<exists>k d. nthWeekdayOfMonth y m wd n = Inr (fmt_day k) \<and> civil k = (y, m, d) \<and> week_day k = wd \<and>
    (if n = LAST then days_in_month y m - 7 < d else 7 * (n - 1) < d \<and> d \<le> 7 * n)"
  using assms by (rule nthWeekdayOfMonth_day)

lemma nthWeekdayOfMonth_correct_witness:
  "\<exists>k d. nthWeekdayOfMonth 2026 11 4 4 = Inr (fmt_day k) \<and> civil k = (2026, 11, d) \<and> 21 < d \<and> d \<le> 28"
  using nthWeekdayOfMonth_correct [of 2026 11 4 4] by (auto simp: LAST_def)

subsection \<open>The calendar\<close>

lemma efold_invariant:
  assumes "efold f xs s = Inr s'" "P [] s"
    and "\<And>ys x s s'. P ys s \<Longrightarrow> f x s = Inr s' \<Longrightarrow> P (ys @ [x]) s'"
  shows "P xs s'"
proof -
  have "efold f zs s = Inr s' \<Longrightarrow> P ys s \<Longrightarrow> P (ys @ zs) s'" for ys zs s
  proof (induction zs arbitrary: ys s)
    case (Cons z zs)
    then obtain s1 where "f z s = Inr s1" "efold f zs s1 = Inr s'" by auto
    with Cons.IH [of s1 "ys @ [z]"] Cons.prems(2) assms(3) show ?case by simp
  qed simp
  from this [of xs s "[]"] assms(1,2) show ?thesis by simp
qed

definition falls_in :: "int \<Rightarrow> int \<Rightarrow> observance \<Rightarrow> int \<times> holiday_rule \<Rightarrow> string \<Rightarrow> bool" where
  "falls_in fromYear toYear policy = (\<lambda>(y, r) d. ruleDate r y policy = Inr (Some d) \<and>
     (\<exists>yy. yearOf d = Inr yy \<and> fromYear \<le> yy \<and> yy \<le> toYear))"

text \<open>What the loop collects, with its own bounds on the rule years.\<close>

lemma holidayCalendar_loop:
  assumes "holidayCalendar rules fromYear toYear policy = Inr out"
  shows "sorted out \<and> distinct out \<and> set out = {d. \<exists>y r. fromYear \<le> y \<and> y \<le> toYear + 1 \<and> r \<in> set rules \<and>
    ruleDate r y policy = Inr (Some d) \<and> (\<exists>yy. yearOf d = Inr yy \<and> fromYear \<le> yy \<and> yy \<le> toYear)}"
proof -
  let ?xs = "concat (map (\<lambda>y. map (\<lambda>r. (y, r)) rules) [fromYear..toYear + 1])"
  obtain l where l: "efold (calendar_step fromYear toYear policy) ?xs [] = Inr l" "out = sort l"
    using assms by (auto simp: holidayCalendar_def)
  have "distinct l \<and> set l = {d. \<exists>x \<in> set ?xs. falls_in fromYear toYear policy x d}"
  proof (rule efold_invariant [OF l(1)])
    fix ys x s s'
    assume inv: "distinct s \<and> set s = {d. \<exists>x \<in> set ys. falls_in fromYear toYear policy x d}"
      and step: "calendar_step fromYear toYear policy x s = Inr s'"
    obtain y r where x: "x = (y, r)" by (cases x)
    from step obtain d where d: "ruleDate r y policy = Inr d" by (auto simp: calendar_step_def x)
    show "distinct s' \<and> set s' = {d. \<exists>x \<in> set (ys @ [x]). falls_in fromYear toYear policy x d}"
    proof (cases d)
      case None
      with step d have "s' = s" by (simp add: calendar_step_def x)
      with inv None d show ?thesis by (auto simp: falls_in_def x)
    next
      case (Some e)
      with step d obtain yy where yy: "yearOf e = Inr yy" "s' = (if fromYear \<le> yy \<and> yy \<le> toYear then List.insert e s else s)"
        by (auto simp: calendar_step_def x split: if_splits)
      then have "falls_in fromYear toYear policy x z \<longleftrightarrow> z = e \<and> fromYear \<le> yy \<and> yy \<le> toYear" for z
        using Some d by (auto simp: falls_in_def x)
      with inv yy show ?thesis by auto
    qed
  qed simp
  then have "distinct l" "set l = {d. \<exists>x \<in> set ?xs. falls_in fromYear toYear policy x d}" by blast+
  moreover have "(\<exists>x \<in> set ?xs. falls_in fromYear toYear policy x d) \<longleftrightarrow>
      (\<exists>y r. fromYear \<le> y \<and> y \<le> toYear + 1 \<and> r \<in> set rules \<and> ruleDate r y policy = Inr (Some d) \<and>
        (\<exists>yy. yearOf d = Inr yy \<and> fromYear \<le> yy \<and> yy \<le> toYear))" for d
    by (auto simp: falls_in_def) blast
  ultimately show ?thesis by (simp only: l(2) sorted_sort distinct_sort set_sort simp_thms)
qed

text \<open>
  The days on which a rule occurs, in the civil calendar: \<open>occurs k y j\<close> is that day number \<open>j\<close> is the
  holiday of the year \<open>y\<close>, before it is moved off a weekend; \<open>observed_day\<close> is the day it is observed.
\<close>

fun occurs :: "holiday_kind \<Rightarrow> int \<Rightarrow> int \<Rightarrow> bool" where
  "occurs (Fixed md) y j = (case parse_md md of Inl e \<Rightarrow> False
    | Inr (m, d) \<Rightarrow> civil j = (y, m, if m = 2 \<and> d = 29 \<and> \<not> is_leap y then 28 else d))"
| "occurs (NthWeekday m wd n) y j = (case civil j of (y', m', d) \<Rightarrow> y' = y \<and> m' = m \<and> week_day j = wd \<and>
    (if n = LAST then days_in_month y m - 7 < d else 7 * (n - 1) < d \<and> d \<le> 7 * n))"
| "occurs Inauguration y j = (4 dvd y - 1965 \<and> civil j = (y, 1, 20))"

fun weekend_policy :: "holiday_kind \<Rightarrow> observance \<Rightarrow> observance" where
  "weekend_policy (Fixed md) p = p"
| "weekend_policy (NthWeekday m wd n) p = ObsNone"
| "weekend_policy Inauguration p = ObsSundayToMonday"

definition observed_day :: "holiday_kind \<Rightarrow> observance \<Rightarrow> int \<Rightarrow> int" where
  "observed_day k p j =
    (if week_day j = 0 \<and> weekend_policy k p \<noteq> ObsNone then j + 1
     else if week_day j = 6 \<and> weekend_policy k p = ObsFederal then j - 1 else j)"

text \<open>A well-formed rule: a day of some year, or a weekday from the first to the fourth or the last of its month.\<close>

fun kind_ok :: "holiday_kind \<Rightarrow> bool" where
  "kind_ok (Fixed md) = (case parse_md md of Inl e \<Rightarrow> False | Inr (m, d) \<Rightarrow> valid_date 2024 m d)"
| "kind_ok (NthWeekday m wd n) = (1 \<le> m \<and> m \<le> 12 \<and> 0 \<le> wd \<and> wd \<le> 6 \<and> (n = LAST \<or> (1 \<le> n \<and> n \<le> 4)))"
| "kind_ok Inauguration = True"

definition year_end_rule :: "holiday_kind \<Rightarrow> bool" where
  "year_end_rule k \<longleftrightarrow> (case k of Fixed md \<Rightarrow> parse_md md = Inr (12, 31) | _ \<Rightarrow> False)"

lemma valid_date_any_year:
  assumes "valid_date 2024 m d"
  shows "valid_date y m (if m = 2 \<and> d = 29 \<and> \<not> is_leap y then 28 else d)"
proof -
  have m: "1 \<le> m" "m \<le> 12" and d: "1 \<le> d" "d \<le> days_in_month 2024 m" using assms by (simp_all add: valid_date_def)
  have "is_leap 2024" by (simp add: is_leap_def)
  from m have "m = 1 \<or> m = 2 \<or> m = 3 \<or> m = 4 \<or> m = 5 \<or> m = 6 \<or> m = 7 \<or> m = 8 \<or> m = 9 \<or> m = 10 \<or> m = 11 \<or> m = 12"
    by presburger
  then show ?thesis
    using d \<open>is_leap 2024\<close> by (elim disjE) (simp_all add: valid_date_def days_in_month_def cum_days_def)
qed

lemma civil_year: "civil j = (y, m, d) \<Longrightarrow> year_of_day j = y"
  by (simp add: civil_def Let_def)

lemma civil_make: "civil j = (y, m, d) \<Longrightarrow> make_day y (m - 1) d = j \<and> valid_date y m d"
  using civil_props [of j] by (metis prod.inject)

lemma occurs_year: "occurs k y j \<Longrightarrow> year_of_day j = y"
  by (cases k) (auto intro: civil_year split: sum.splits)

lemma same_weekday_close: "week_day i = week_day j \<Longrightarrow> \<bar>i - j\<bar> < 7 \<Longrightarrow> i = j"
  using mod_eq_dvd_iff [of "i + 4" 7 "j + 4"] zdvd_imp_le [of 7 "i - j"] zdvd_imp_le [of 7 "j - i"]
    dvd_diff_commute [of 7 i j]
  by (cases i j rule: linorder_cases) (simp_all add: week_day_def)

lemma occurs_unique:
  assumes "occurs k y i" "occurs k y j"
  shows "i = j"
proof (cases k)
  case (Fixed md)
  with assms show ?thesis by (auto split: sum.splits dest!: civil_make)
next
  case Inauguration
  with assms show ?thesis by (auto dest!: civil_make)
next
  case (NthWeekday m wd n)
  obtain y1 m1 d1 y2 m2 d2 where c: "civil i = (y1, m1, d1)" "civil j = (y2, m2, d2)"
    by (cases "civil i"; cases "civil j")
  with assms NthWeekday have e: "y1 = y" "m1 = m" "y2 = y" "m2 = m" "week_day i = week_day j"
    and d: "if n = LAST then days_in_month y m - 7 < d1 \<and> days_in_month y m - 7 < d2
        else 7 * (n - 1) < d1 \<and> d1 \<le> 7 * n \<and> 7 * (n - 1) < d2 \<and> d2 \<le> 7 * n"
    by (auto split: if_splits)
  note v = civil_make [OF c(1)] civil_make [OF c(2)]
  then have "i - j = d1 - d2" by (auto simp: e make_day_def Let_def)
  moreover have "\<bar>d1 - d2\<bar> < 7" using d v by (auto simp: e valid_date_def split: if_splits)
  ultimately show ?thesis using same_weekday_close [OF e(5)] by simp
qed

lemma observedHoliday_day:
  assumes "day_ok j"
  shows "observedHoliday (fmt_day j) (weekend_policy k p) = Inr (fmt_day (observed_day k p j))"
  using assms by (auto simp: observedHoliday_def dow_def addDays_fmt observed_day_def)

lemma civil_day_ok: "civil j = (y, m, d) \<Longrightarrow> 100 \<le> y \<Longrightarrow> y \<le> 9999 \<Longrightarrow> day_ok j"
  using civil_make [of j y m d] make_day_day_ok [of y m d] by auto

lemma ruleDate_Some:
  assumes "kind_ok (hr_kind r)" "100 \<le> y" "y \<le> 9999" "occurs (hr_kind r) y j"
  shows "ruleDate r y p = Inr (Some (fmt_day (observed_day (hr_kind r) p j)))"
proof (cases "hr_kind r")
  case (Fixed md)
  with assms obtain m d where md: "parse_md md = Inr (m, d)"
    and c: "civil j = (y, m, if m = 2 \<and> d = 29 \<and> \<not> is_leap y then 28 else d)"
    by (auto split: sum.splits)
  have "monthDayInYear md y = Inr (fmt_day j)" by (simp add: monthDayInYear_def md fmt_day_def c)
  with Fixed observedHoliday_day [OF civil_day_ok [OF c assms(2,3)], of "Fixed md" p] show ?thesis
    by (simp add: ruleDate_def)
next
  case (NthWeekday m wd n)
  with assms(1-3) obtain k d where k: "nthWeekdayOfMonth y m wd n = Inr (fmt_day k)" "civil k = (y, m, d)"
      "week_day k = wd" "if n = LAST then days_in_month y m - 7 < d else 7 * (n - 1) < d \<and> d \<le> 7 * n"
    using nthWeekdayOfMonth_day [of y m wd n] by auto
  then have "k = j" using assms(4) NthWeekday by (intro occurs_unique [of "NthWeekday m wd n" y]) auto
  with k(1) NthWeekday show ?thesis by (simp add: ruleDate_def observed_day_def)
next
  case Inauguration
  with assms(4) have c: "civil j = (y, 1, 20)" "isInaugurationYear y" by (simp_all add: isInaugurationYear_def dvd_eq_mod_eq_0)
  have "pad 1 2 = ''01''" "pad 20 2 = ''20''" by code_simp+
  then have "pad y 4 @ ''-01-20'' = fmt_day j" by (simp add: fmt_day_def c ymd_text_def)
  with Inauguration c(2) observedHoliday_day [OF civil_day_ok [OF c(1) assms(2,3)], of Inauguration p] show ?thesis
    by (simp add: ruleDate_def)
qed

lemma occurs_or_None:
  assumes "kind_ok (hr_kind r)" "100 \<le> y" "y \<le> 9999"
  shows "(\<exists>j. occurs (hr_kind r) y j) \<or> ruleDate r y p = Inr None"
proof (cases "hr_kind r")
  case (Fixed md)
  with assms(1) obtain m d where md: "parse_md md = Inr (m, d)" "valid_date 2024 m d" by (auto split: sum.splits)
  from civil_make_day [OF valid_date_any_year [OF md(2), of y]] have "\<exists>j. occurs (Fixed md) y j"
    by (auto simp: md(1))
  with Fixed show ?thesis by simp
next
  case (NthWeekday m wd n)
  with assms obtain k d where "civil k = (y, m, d)" "week_day k = wd"
      "if n = LAST then days_in_month y m - 7 < d else 7 * (n - 1) < d \<and> d \<le> 7 * n"
    using nthWeekdayOfMonth_day [of y m wd n] by auto
  then have "\<exists>j. occurs (NthWeekday m wd n) y j" by (intro exI [of _ k]) simp
  with NthWeekday show ?thesis by simp
next
  case Inauguration
  have "valid_date y 1 20" by (simp add: valid_date_def days_in_month_def cum_days_def)
  from civil_make_day [OF this] have "isInaugurationYear y \<Longrightarrow> occurs Inauguration y (make_day y 0 20)"
    by (simp add: isInaugurationYear_def dvd_eq_mod_eq_0)
  with Inauguration show ?thesis by (auto simp: ruleDate_def)
qed

text \<open>An observed day lies at most one year beside the year of its rule, and after it only for a rule on December 31.\<close>

lemma year_of_day_le: "n < day_from_year (y + 1) \<Longrightarrow> year_of_day n \<le> y"
  using day_from_year_mono_le [of "y + 1" "year_of_day n"] year_of_day_bounds(1) [of n] by linarith

lemma year_of_day_ge: "day_from_year y \<le> n \<Longrightarrow> y \<le> year_of_day n"
  using day_from_year_mono_le [of "year_of_day n + 1" y] year_of_day_bounds(2) [of n] by linarith

lemma last_day_civil: "civil (day_from_year (y + 1) - 1) = (y, 12, 31)"
proof -
  have "valid_date y 12 31" by (simp add: valid_date_def days_in_month_def cum_days_def)
  moreover have "make_day y (12 - 1) 31 = day_from_year (y + 1) - 1"
    by (simp add: make_day_def day_from_year_Suc cum_days_def Let_def)
  ultimately show ?thesis using civil_make_day by metis
qed

lemma observed_year:
  assumes "occurs k y j"
  shows "y - 1 \<le> year_of_day (observed_day k p j)" "year_of_day (observed_day k p j) \<le> y + 1"
    "\<not> (year_end_rule k \<and> p \<noteq> ObsNone) \<Longrightarrow> year_of_day (observed_day k p j) \<le> y"
proof -
  let ?o = "observed_day k p j"
  have j: "day_from_year y \<le> j" "j < day_from_year (y + 1)"
    using year_of_day_bounds [of j] occurs_year [OF assms] by simp_all
  have o: "j - 1 \<le> ?o" "?o \<le> j + 1" by (simp_all add: observed_day_def)
  have "day_from_year (y - 1) < day_from_year y" "day_from_year (y + 1) < day_from_year (y + 1 + 1)"
    by (simp_all add: day_from_year_mono)
  with j o show "y - 1 \<le> year_of_day ?o" "year_of_day ?o \<le> y + 1"
    by (auto intro: year_of_day_ge year_of_day_le)
  assume rule: "\<not> (year_end_rule k \<and> p \<noteq> ObsNone)"
  show "year_of_day ?o \<le> y"
  proof (rule year_of_day_le, rule ccontr)
    assume "\<not> ?o < day_from_year (y + 1)"
    with j o have "?o = j + 1" and last: "j = day_from_year (y + 1) - 1" by simp_all
    then have move: "weekend_policy k p \<noteq> ObsNone" by (auto simp: observed_day_def split: if_splits)
    have "civil j = (y, 12, 31)" unfolding last by (rule last_day_civil)
    with assms move rule show False
      by (cases k) (auto simp: year_end_rule_def split: sum.splits if_splits)
  qed
qed

lemma day_ok_year: "100 \<le> year_of_day k \<Longrightarrow> year_of_day k \<le> 9999 \<Longrightarrow> day_ok k"
  using year_of_day_bounds [of k] day_from_year_mono_le [of 100 "year_of_day k"]
    day_from_year_mono_le [of "year_of_day k + 1" 10000]
  by (simp add: day_ok_def)

lemma efold_total: "(\<And>x s. x \<in> set xs \<Longrightarrow> \<exists>s'. f x s = Inr s') \<Longrightarrow> \<exists>s'. efold f xs s = Inr s'"
proof (induction xs arbitrary: s)
  case (Cons x xs)
  then obtain s1 where "f x s = Inr s1" by fastforce
  with Cons.IH [of s1] Cons.prems show ?case by simp
qed simp

lemma observed_day_ok:
  "occurs k y j \<Longrightarrow> 101 \<le> y \<Longrightarrow> y \<le> 9998 \<Longrightarrow> day_ok (observed_day k p j)"
  using observed_year(1,2) [of k y j p] by (intro day_ok_year) auto

lemma holidayCalendar_total:
  assumes "\<forall>r\<in>set rules. kind_ok (hr_kind r)" "101 \<le> fromYear" "toYear \<le> 9997"
  shows "\<exists>out. holidayCalendar rules fromYear toYear policy = Inr out"
proof -
  have "\<exists>s'. calendar_step fromYear toYear policy (y, r) s = Inr s'"
    if "r \<in> set rules" "fromYear \<le> y" "y \<le> toYear + 1" for y r s
  proof (cases "\<exists>j. occurs (hr_kind r) y j")
    case True
    then obtain j where j: "occurs (hr_kind r) y j" by blast
    with that assms have "ruleDate r y policy = Inr (Some (fmt_day (observed_day (hr_kind r) policy j)))"
      by (intro ruleDate_Some) auto
    with yearOf_fmt [OF observed_day_ok [OF j]] that assms show ?thesis
      by (cases "fromYear \<le> year_of_day (observed_day (hr_kind r) policy j) \<and> year_of_day (observed_day (hr_kind r) policy j) \<le> toYear")
        (simp_all add: calendar_step_def)
  next
    case False
    with that assms occurs_or_None [of r y policy] show ?thesis by (auto simp: calendar_step_def)
  qed
  then obtain l where "efold (calendar_step fromYear toYear policy)
      (concat (map (\<lambda>y. map (\<lambda>r. (y, r)) rules) [fromYear..toYear + 1])) [] = Inr l"
    by (atomize_elim, intro efold_total) auto
  then show ?thesis by (simp add: holidayCalendar_def)
qed

lemma holidayCalendar_set:
  assumes "\<forall>r\<in>set rules. kind_ok (hr_kind r)" "101 \<le> fromYear" "toYear \<le> 9997"
  shows "\<exists>out. holidayCalendar rules fromYear toYear policy = Inr out \<and> sorted out \<and> distinct out \<and>
    set out = fmt_day ` {k. fromYear \<le> year_of_day k \<and> year_of_day k \<le> toYear \<and>
      (\<exists>r\<in>set rules. \<exists>y j. occurs (hr_kind r) y j \<and> k = observed_day (hr_kind r) policy j \<and> fromYear \<le> y)} \<and>
    ((\<forall>r\<in>set rules. \<not> year_end_rule (hr_kind r)) \<or> policy = ObsNone \<longrightarrow>
      set out = fmt_day ` {k. fromYear \<le> year_of_day k \<and> year_of_day k \<le> toYear \<and>
        (\<exists>r\<in>set rules. \<exists>y j. occurs (hr_kind r) y j \<and> k = observed_day (hr_kind r) policy j)})"
proof -
  let ?obs = "\<lambda>r. observed_day (hr_kind r) policy"
  let ?in = "\<lambda>k. fromYear \<le> year_of_day k \<and> year_of_day k \<le> toYear"
  obtain out where out: "holidayCalendar rules fromYear toYear policy = Inr out"
    using holidayCalendar_total [OF assms] by blast
  note loop = holidayCalendar_loop [OF out]
  have d: "(ruleDate r y policy = Inr (Some d) \<and> (\<exists>yy. yearOf d = Inr yy \<and> fromYear \<le> yy \<and> yy \<le> toYear)) \<longleftrightarrow>
      (\<exists>j. occurs (hr_kind r) y j \<and> d = fmt_day (?obs r j) \<and> ?in (?obs r j))"
    if "r \<in> set rules" "fromYear \<le> y" "y \<le> toYear + 1" for r y d
  proof (cases "\<exists>j. occurs (hr_kind r) y j")
    case True
    then obtain j where j: "occurs (hr_kind r) y j" by blast
    have y: "101 \<le> y" "y \<le> 9998" using that assms by simp_all
    have "ruleDate r y policy = Inr (Some (fmt_day (?obs r j)))"
      using that(1) assms(1) y by (intro ruleDate_Some [OF _ _ _ j]) simp_all
    moreover have "yearOf (fmt_day (?obs r j)) = Inr (year_of_day (?obs r j))"
      by (rule yearOf_fmt [OF observed_day_ok [OF j y]])
    moreover have "occurs (hr_kind r) y i \<longleftrightarrow> i = j" for i using occurs_unique [OF _ j] j by blast
    ultimately show ?thesis by (auto simp del: occurs.simps)
  next
    case False
    then have "ruleDate r y policy = Inr None"
      using occurs_or_None [of r y policy] that assms by (simp del: occurs.simps)
    with False show ?thesis by (simp del: occurs.simps)
  qed
  have late: "fromYear \<le> y \<and> y \<le> toYear + 1 \<longleftrightarrow> fromYear \<le> y" if "occurs (hr_kind r) y j" "?in (?obs r j)" for r y j
    using observed_year(1) [OF that(1), of policy] that(2) by linarith
  have early: "fromYear \<le> y" if "occurs (hr_kind r) y j" "?in (?obs r j)" "\<not> year_end_rule (hr_kind r) \<or> policy = ObsNone" for r y j
    using observed_year(3) [OF that(1), of policy] that(2,3) by fastforce
  have "set out = fmt_day ` {k. ?in k \<and> (\<exists>r\<in>set rules. \<exists>y j. occurs (hr_kind r) y j \<and> k = ?obs r j \<and> fromYear \<le> y)}"
    (is "_ = ?S")
  proof (rule set_eqI)
    fix d
    have "d \<in> set out \<longleftrightarrow> (\<exists>y r j. fromYear \<le> y \<and> y \<le> toYear + 1 \<and> r \<in> set rules \<and> occurs (hr_kind r) y j \<and> d = fmt_day (?obs r j) \<and> ?in (?obs r j))"
      using loop d by blast
    also have "\<dots> \<longleftrightarrow> d \<in> ?S" using late by (auto simp: image_iff simp del: occurs.simps)
    finally show "d \<in> set out \<longleftrightarrow> d \<in> ?S" .
  qed
  moreover have "?S = fmt_day ` {k. ?in k \<and> (\<exists>r\<in>set rules. \<exists>y j. occurs (hr_kind r) y j \<and> k = ?obs r j)}"
    if "(\<forall>r\<in>set rules. \<not> year_end_rule (hr_kind r)) \<or> policy = ObsNone"
    using that early by (intro arg_cong [where f = "image fmt_day"]) blast
  ultimately show ?thesis
    using out loop by (intro exI [of _ out] conjI impI) (simp_all only: simp_thms conj_assoc)
qed

text \<open>
  C21: the calendar of well-formed rules over a range of years always returns, in order and once each,
  the observed days that lie in the range and come from an occurrence of a rule in the first year of
  the range or later.  When no rule falls on December 31, or holidays are not moved, these
  are all the observed days in the range, of whatever year the rule occurred in.
\<close>

theorem holidayCalendar_exact:
  assumes "\<forall>r\<in>set rules. kind_ok (hr_kind r)" "101 \<le> fromYear" "toYear \<le> 9997"
  shows "\<exists>out. holidayCalendar rules fromYear toYear policy = Inr out \<and> sorted out \<and> distinct out \<and>
    set out = fmt_day ` {k. fromYear \<le> year_of_day k \<and> year_of_day k \<le> toYear \<and>
      (\<exists>r\<in>set rules. \<exists>y j. occurs (hr_kind r) y j \<and> k = observed_day (hr_kind r) policy j \<and> fromYear \<le> y)} \<and>
    ((\<forall>r\<in>set rules. \<not> year_end_rule (hr_kind r)) \<or> policy = ObsNone \<longrightarrow>
      set out = fmt_day ` {k. fromYear \<le> year_of_day k \<and> year_of_day k \<le> toYear \<and>
        (\<exists>r\<in>set rules. \<exists>y j. occurs (hr_kind r) y j \<and> k = observed_day (hr_kind r) policy j)})"
  by (rule holidayCalendar_set [OF assms])

lemma holidayCalendar_exact_witness:
  "\<exists>out. holidayCalendar FEDERAL_HOLIDAY_RULES 2026 2026 ObsFederal = Inr out \<and> ymd_text 2026 7 3 \<in> set out"
proof -
  have "list_all (\<lambda>r. kind_ok (hr_kind r)) FEDERAL_HOLIDAY_RULES" by code_simp
  from holidayCalendar_exact [OF this [unfolded list_all_iff], of 2026 2026 ObsFederal] obtain out where
    out: "holidayCalendar FEDERAL_HOLIDAY_RULES 2026 2026 ObsFederal = Inr out"
      "set out = fmt_day ` {k. 2026 \<le> year_of_day k \<and> year_of_day k \<le> 2026 \<and>
      (\<exists>r\<in>set FEDERAL_HOLIDAY_RULES. \<exists>y j. occurs (hr_kind r) y j \<and> k = observed_day (hr_kind r) ObsFederal j \<and> 2026 \<le> y)}"
    by (auto simp del: occurs.simps)
  have civil: "civil 20638 = (2026, 7, 4)" "civil 20637 = (2026, 7, 3)"
    using civil_make_day [of 2026 7 4] civil_make_day [of 2026 7 3]
    by (simp_all add: make_day_def day_from_year_def cum_days_def is_leap_def valid_date_def days_in_month_def Let_def)
  have "parse_md ''07-04'' = Inr (7, 4)" by code_simp
  then have "occurs (Fixed ''07-04'') 2026 20638" by (simp add: civil)
  moreover have "observed_day (Fixed ''07-04'') ObsFederal 20638 = 20637" by (simp add: observed_day_def week_day_def)
  moreover have "HR ''independence_day'' (Fixed ''07-04'') \<in> set FEDERAL_HOLIDAY_RULES" by (simp add: FEDERAL_HOLIDAY_RULES_def)
  ultimately have "fmt_day 20637 \<in> set out"
    unfolding out(2) by (intro imageI CollectI conjI bexI [of _ "HR ''independence_day'' (Fixed ''07-04'')"] exI [of _ 2026] exI [of _ 20638])
      (simp_all add: HR_def civil_year [OF civil(2)])
  then show ?thesis using out(1) by (simp add: fmt_day_def civil)
qed

text \<open>
  What the first year of the range leaves out: a rule on December 31 whose Sunday of 2023 is observed on
  January 1 of 2024 is not listed for 2024.
\<close>

lemma year_end_left_out:
  assumes "holidayCalendar [HR ''year_end'' (Fixed ''12-31'')] 2024 2024 ObsSundayToMonday = Inr out"
  shows "occurs (Fixed ''12-31'') 2023 19722" "observed_day (Fixed ''12-31'') ObsSundayToMonday 19722 = 19723"
    "fmt_day 19723 = ymd_text 2024 1 1" "ymd_text 2024 1 1 \<notin> set out"
proof -
  have md: "parse_md ''12-31'' = Inr (12, 31)" by code_simp
  have civil: "civil 19722 = (2023, 12, 31)" "civil 19723 = (2024, 1, 1)"
    using civil_make_day [of 2023 12 31] civil_make_day [of 2024 1 1]
    by (simp_all add: make_day_def day_from_year_def cum_days_def is_leap_def valid_date_def days_in_month_def Let_def)
  then show "occurs (Fixed ''12-31'') 2023 19722" "observed_day (Fixed ''12-31'') ObsSundayToMonday 19722 = 19723"
    and t: "fmt_day 19723 = ymd_text 2024 1 1"
    by (simp_all add: md observed_day_def week_day_def fmt_day_def)
  have "kind_ok (Fixed ''12-31'')" by code_simp
  then have "\<forall>r\<in>set [HR ''year_end'' (Fixed ''12-31'')]. kind_ok (hr_kind r)" by (simp add: HR_def)
  from holidayCalendar_set [OF this, of 2024 2024 ObsSundayToMonday] assms have
    out: "set out = fmt_day ` {k. 2024 \<le> year_of_day k \<and> year_of_day k \<le> 2024 \<and>
      (\<exists>y j. occurs (Fixed ''12-31'') y j \<and> k = observed_day (Fixed ''12-31'') ObsSundayToMonday j \<and> 2024 \<le> y)}"
    by (simp add: HR_def del: occurs.simps)
  have "20088 \<le> observed_day (Fixed ''12-31'') ObsSundayToMonday j" if "occurs (Fixed ''12-31'') y j" "2024 \<le> y" for y j
  proof -
    have "civil j = (y, 12, 31)" using that(1) by (simp add: md)
    then have "j = day_from_year (y + 1) - 1"
      using civil_make last_day_civil by (metis prod.inject)
    moreover have "day_from_year 2025 \<le> day_from_year (y + 1)" using that(2) by (intro day_from_year_mono_le) simp
    ultimately show ?thesis by (simp add: observed_day_def day_from_year_def)
  qed
  moreover have "k = 19723" if "fmt_day k = fmt_day 19723" "year_of_day k = 2024" for k
    using that day_ok_year [of k] day_ok_year [of 19723] civil_year [OF civil(2)] by (simp add: fmt_day_eq_iff)
  ultimately show "ymd_text 2024 1 1 \<notin> set out"
    unfolding t [symmetric] out by (fastforce simp del: occurs.simps)
qed

subsection \<open>Undoing the move to a business day\<close>















end
