(* ===== verification/FederalTypes.thy ===== *)
theory FederalTypes
  imports EngineBase
begin

section \<open>Inputs of the federal calculation (engine/types.ts)\<close>

text \<open>
  The records of engine/types.ts that the steps read.  A display name or label is kept where a warning
  or a trace id carries it; fields no step reads (\<open>withholding\<close>, the engine warnings' messages) are
  left out.  A \<open>Record<IncomeCharacter, Dec>\<close> is a function on \<open>income_character\<close>.
\<close>

datatype income_character = Ordinary | CapitalGainSt | CapitalGainLt | Section1231 | Interest
  | DividendsOrdinary | DividendsQualified | Rental

definition INCOME_CHARACTERS :: "income_character list" where
  "INCOME_CHARACTERS = [Ordinary, CapitalGainSt, CapitalGainLt, Section1231, Interest, DividendsOrdinary,
     DividendsQualified, Rental]"

definition character_text :: "income_character \<Rightarrow> string" where
  "character_text c = (case c of Ordinary \<Rightarrow> ''ordinary'' | CapitalGainSt \<Rightarrow> ''capital_gain_st''
     | CapitalGainLt \<Rightarrow> ''capital_gain_lt'' | Section1231 \<Rightarrow> ''section_1231'' | Interest \<Rightarrow> ''interest''
     | DividendsOrdinary \<Rightarrow> ''dividends_ordinary'' | DividendsQualified \<Rightarrow> ''dividends_qualified'' | Rental \<Rightarrow> ''rental'')"

type_synonym character_amounts = "income_character \<Rightarrow> money"

datatype retirement_plan = Sep | Solo401k | Simple | NoPlan

datatype hsa_coverage = HsaSelf | HsaFamily | HsaNone

record sch1a_person =
  sp_qualifiedTips :: money
  sp_qualifiedOvertime :: money
  sp_carLoanInterest :: money

record engine_person =
  en_personId :: string
  en_role :: person_role
  en_dateOfBirth :: "string option"
  en_isBlind :: bool
  en_sehiEligibleMonths :: "bool list"
  en_w2Wages :: money
  en_w2SocialSecurityWages :: "money option"
  en_retirementPlan :: "retirement_plan option"
  en_retirementEmployeeDeferral :: "money option"
  en_hsaCoverage :: hsa_coverage
  en_hsaContribution :: money
  en_sch1a :: sch1a_person

datatype dependent_kind = QualifyingChild | QualifyingRelative

record engine_dependent =
  de_dependentId :: string
  de_dateOfBirth :: string
  de_kind :: dependent_kind
  de_monthsLivedWith :: "int option"
  de_isStudent :: bool
  de_isDisabled :: bool
  de_firstTaxYear :: "int option"
  de_lastTaxYear :: "int option"

record fixed_dependent_credits =
  fd_care :: money
  fd_ctcOdc :: money
  fd_actc :: money

datatype entity_type = SchC | SchF | SCorp | Partnership | CCorp

datatype activity_type = ActActive | ActPassive | ActRental | ActInvestment

datatype partner_se_status = PseGeneral | PseLimited | PseLlcMemberManager

record engine_link =
  li_linkId :: string
  li_personId :: string
  li_profitPct :: "rat option"
  li_lossPct :: "rat option"
  li_partnerSeStatus :: "partner_se_status option"
  li_isOfficer :: bool
  li_activityType :: activity_type
  li_activeParticipation :: bool
  li_qbiEligible :: "bool option"
  li_allowedLossOverride :: "money option"

record owner_item =
  oi_personId :: "string option"
  oi_sehi :: money
  oi_retirement :: money
  oi_sehiAsW2Wages :: money

record person_amount =
  pa_personId :: "string option"
  pa_amount :: money

datatype trend_method = PriorYearScaled | PriorYearDollar

datatype projection_method = RunRate | Trend trend_method

datatype trend_fallback = NotSupportedEntity | PyUnreadable | PyBooksMissing | PyBooksIncomplete
  | PySameMonthsNotPositive | PySameMonthsSmall | CyRecurringNotPositive

record prior_year_months =
  py_taxYear :: int
  py_throughMonth :: int
  py_sameMonthsOrdinary :: money
  py_remainingOrdinary :: money
  py_monthsWithActivity :: int

record prior_year_trend =
  pt_method :: trend_method
  pt_priorYear :: "prior_year_months option"
  pt_unavailableReason :: "trend_fallback option"

record engine_entity =
  ee_tenantId :: string
  ee_companyId :: string
  ee_entityType :: entity_type
  ee_monthsElapsed :: int
  ee_monthsRemaining :: int
  ee_ytd :: character_amounts
  ee_recurringYtd :: character_amounts
  ee_ownerItems :: "owner_item list"
  ee_guaranteedPayments :: "person_amount list"
  ee_officerWages :: "person_amount list"
  ee_taxDepreciationBookYtd :: money
  ee_links :: "engine_link list"
  ee_isSstb :: bool
  ee_rentalQbiTradeOrBusiness :: bool
  ee_w2WagesEffective :: "money option"
  ee_includeSehiInW2Wages :: bool
  ee_ubia :: "money option"
  ee_warnings :: "warning list"
  ee_outside :: bool
  ee_priorYearTrend :: "prior_year_trend option"

datatype adjustment_kind = AdjIncome | AdjDeduction | AdjAddback

record engine_adjustment =
  aj_id :: string
  aj_typeCode :: "string option"
  aj_kind :: adjustment_kind
  aj_amount :: money
  aj_pct :: "rat option"
  aj_personId :: "string option"
  aj_linkId :: "string option"
  aj_affectsSe :: bool
  aj_affectsQbi :: bool
  aj_isCapitalGainLt :: bool
  aj_isCapitalGainSt :: bool
  aj_isQualifiedDividend :: bool
  aj_isReitDividend :: bool
  aj_isPtp :: bool
  aj_is1231 :: bool
  aj_isAboveTheLine :: bool

record engine_itemized =
  it_saltPaid :: money
  it_mortgageInterest :: money
  it_charitableCash :: money
  it_charitableNoncash :: money
  it_other :: money

datatype deduction_mode = DmAuto | DmStandard | DmItemized

text \<open>A parameter set of numbers, for the examples.\<close>

definition num_params :: "(string \<times> rat) list \<Rightarrow> (string \<times> resolved) list" where
  "num_params = map (\<lambda>(k, q). (k, \<lparr>rp_value = JNum q, rp_status = Verified\<rparr>))"

end
