(* ===== verification/OwnerDeductions.thy ===== *)
theory OwnerDeductions
  imports FederalTypes
begin

section \<open>Owner-level deduction limits (engine/owner-deductions.ts)\<close>

text \<open>
  Step 6: the limits on owner retirement contributions, self-employed health insurance and HSA
  contributions.  The \<open>formula\<close> texts are left out.
\<close>

definition seEarnedIncomeBase :: "money \<Rightarrow> money \<Rightarrow> money" where
  "seEarnedIncomeBase seIncome halfSeTax = floor0 (seIncome - halfSeTax)"

definition at_least_age :: "int option \<Rightarrow> int \<Rightarrow> bool" where
  "at_least_age age threshold = (case age of None \<Rightarrow> False | Some a \<Rightarrow> threshold \<le> a)"

subsection \<open>Retirement\<close>

record retirement_limit_input =
  rl_personId :: string
  rl_planType :: "retirement_plan option"
  rl_contributed :: money
  rl_employeeDeferral :: "money option"
  rl_seIncome :: money
  rl_halfSeTax :: money
  rl_age :: "int option"

record retirement_limit =
  re_personId :: string
  re_planType :: retirement_plan
  re_contributed :: money
  re_limit :: money
  re_deducted :: money
  re_capped :: bool
  re_parameterKeys :: "string list"

definition plan_text :: "retirement_plan \<Rightarrow> string" where
  "plan_text p = (case p of Sep \<Rightarrow> ''sep'' | Solo401k \<Rightarrow> ''solo_401k'' | Simple \<Rightarrow> ''simple'' | NoPlan \<Rightarrow> ''none'')"

text \<open>The deferral part of the contribution when known, and the rest of it.\<close>

definition knownDeferral :: "retirement_limit_input \<Rightarrow> money option" where
  "knownDeferral i = (case rl_employeeDeferral i of None \<Rightarrow> None
     | Some d \<Rightarrow> Some (min (floor0 d) (floor0 (rl_contributed i))))"

definition employerContributed :: "retirement_limit_input \<Rightarrow> money \<Rightarrow> money" where
  "employerContributed i known = floor0 (rl_contributed i - known)"

definition soloCatchUp :: "int option \<Rightarrow> (money \<times> string list) eng" where
  "soloCatchUp age =
    cbind (p_int ''retirement.catch_up_age'') (\<lambda>catchUpAge.
    case age of None \<Rightarrow> cret (0, [''retirement.catch_up_age''])
    | Some a \<Rightarrow>
      if \<not> catchUpAge \<le> a then cret (0, [''retirement.catch_up_age''])
      else cbind (p_intList ''retirement.401k.catch_up_60_63_ages'') (\<lambda>range.
        let higher = (1 < length range \<and> range ! 0 \<le> a \<and> a \<le> range ! 1);
            k = (if higher then ''retirement.401k.catch_up_60_63'' else ''retirement.401k.catch_up_50'') in
        cbind (p_money k) (\<lambda>catchUp.
        cret (catchUp, [''retirement.catch_up_age'', ''retirement.401k.catch_up_60_63_ages'', k]))))"

definition soloLimit :: "money \<Rightarrow> money \<Rightarrow> money \<Rightarrow> money \<Rightarrow> (money \<times> money) option \<Rightarrow> money" where
  "soloLimit dollarLimit catchUp deferral employerShare known = (case known of
      None \<Rightarrow> min (dollarLimit + catchUp) (deferral + employerShare)
    | Some (k, employer) \<Rightarrow> min (dollarLimit + catchUp) (min k deferral + min employer employerShare))"

definition simpleCatchUp :: "int option \<Rightarrow> (money \<times> string list) eng" where
  "simpleCatchUp age =
    cbind (p_int ''retirement.catch_up_age'') (\<lambda>catchUpAge.
    if at_least_age age catchUpAge then cbind (p_money ''retirement.simple.catch_up'') (\<lambda>catchUp.
      cret (catchUp, [''retirement.catch_up_age'', ''retirement.simple.catch_up'']))
    else cret (0, [''retirement.catch_up_age'']))"

definition simpleLimit :: "money \<Rightarrow> money \<Rightarrow> (money \<times> money) option \<Rightarrow> money" where
  "simpleLimit deferral match known = (case known of
      None \<Rightarrow> deferral + match
    | Some (k, employer) \<Rightarrow> (let leg = min k deferral in leg + min (min match leg) employer))"

definition splitKnown :: "retirement_limit_input \<Rightarrow> (money \<times> money) option" where
  "splitKnown i = (case knownDeferral i of None \<Rightarrow> None | Some k \<Rightarrow> Some (k, employerContributed i k))"

definition planLimit :: "retirement_limit_input \<Rightarrow> retirement_plan \<Rightarrow> (money \<times> string list) eng" where
  "planLimit i planType =
    (let base = seEarnedIncomeBase (rl_seIncome i) (rl_halfSeTax i);
         ks0 = [''retirement.sep.pct_of_comp'', ''retirement.sep.dollar_limit'', ''retirement.comp_limit''] in
     if planType = NoPlan then cret (0, []) else
     cbind (p_rate ''retirement.sep.pct_of_comp'') (\<lambda>planPct.
     cbind (p_money ''retirement.sep.dollar_limit'') (\<lambda>dollarLimit.
     cbind (p_money ''retirement.comp_limit'') (\<lambda>compLimit.
     cbind (clift (quo planPct (1 + planPct))) (\<lambda>seRate.
     let employerShare = seRate * min base compLimit in
     if planType = Sep then cret (min dollarLimit employerShare, ks0)
     else if planType = Solo401k then
       cbind (p_money ''retirement.401k.deferral'') (\<lambda>deferralLimit.
       cbind (soloCatchUp (rl_age i)) (\<lambda>(catchUp, ks).
       let deferral = min (deferralLimit + catchUp) base in
       cret (soloLimit dollarLimit catchUp deferral employerShare (splitKnown i), ks0 @ [''retirement.401k.deferral''] @ ks)))
     else
       cbind (p_money ''retirement.simple.deferral'') (\<lambda>deferralLimit.
       cbind (p_rate ''retirement.simple.match_pct'') (\<lambda>matchPct.
       cbind (p_rate ''se.nese_factor'') (\<lambda>neseFactor.
       let simpleBase = floor0 (rl_seIncome i * neseFactor) in
       cbind (simpleCatchUp (rl_age i)) (\<lambda>(catchUp, ks).
       let deferral = min (deferralLimit + catchUp) simpleBase; match = matchPct * simpleBase in
       cret (simpleLimit deferral match (splitKnown i),
         ks0 @ [''retirement.simple.deferral'', ''retirement.simple.match_pct'', ''se.nese_factor''] @ ks)))))))))) "

definition computeRetirementLimit :: "retirement_limit_input \<Rightarrow> retirement_limit eng" where
  "computeRetirementLimit i =
    (let planType = (case rl_planType i of None \<Rightarrow> Sep | Some p \<Rightarrow> p) in
     cbind (cwhen (rl_planType i = None \<and> 0 < rl_contributed i)
       (warn ''TE_RETIREMENT_PLAN_ASSUMED'' (Some [(''personId'', DText (rl_personId i))]))) (\<lambda>_.
     cbind (planLimit i planType) (\<lambda>(limit, ks).
     let deducted = min (rl_contributed i) limit; capped = (limit < rl_contributed i) in
     cbind (cwhen capped (warn ''TE_RETIREMENT_CAPPED'' (Some [(''personId'', DText (rl_personId i)),
       (''planType'', DText (plan_text planType)), (''contributed'', DAmt (rl_contributed i)), (''limit'', DAmt limit)]))) (\<lambda>_.
     cbind (trace_add ((row ''owner_limits'' (''retirement.'' @ rl_personId i) deducted SrcParameter)
       \<lparr>tr_person := Some (rl_personId i), tr_keys := Some ks\<rparr>)) (\<lambda>_.
     cret \<lparr>re_personId = rl_personId i, re_planType = planType, re_contributed = rl_contributed i, re_limit = limit,
       re_deducted = deducted, re_capped = capped, re_parameterKeys = ks\<rparr>)))))"

subsection \<open>Self-employed health insurance\<close>

record sehi_limit_input =
  sl_personId :: string
  sl_premiums :: money
  sl_eligibleMonths :: "bool list"
  sl_earnedIncomeCap :: money

record sehi_limit =
  sh_personId :: string
  sh_premiums :: money
  sh_eligibleMonths :: nat
  sh_afterMonths :: money
  sh_earnedIncomeCap :: money
  sh_deducted :: money
  sh_capped :: bool

definition computeSehiLimit :: "sehi_limit_input \<Rightarrow> sehi_limit eng" where
  "computeSehiLimit i =
    (let pid = sl_personId i; premiums = sl_premiums i;
         valid = (length (sl_eligibleMonths i) = 12);
         flags = (if valid then sl_eligibleMonths i else replicate 12 True);
         eligible = length (filter id flags) in
     cbind (cwhen (\<not> valid) (warn ''TE_SEHI_MONTHS_INVALID'' (Some [(''personId'', DText pid)]))) (\<lambda>_.
     cbind (clift (if eligible = 12 then Inr premiums else quo (premiums * of_nat eligible) 12)) (\<lambda>afterMonths.
     cbind (cwhen (eligible < 12 \<and> 0 < premiums) (warn ''TE_SEHI_MONTHS_EXCLUDED''
       (Some [(''personId'', DText pid), (''eligibleMonths'', DInt (int eligible))]))) (\<lambda>_.
     let cap = floor0 (sl_earnedIncomeCap i); deducted = min afterMonths cap; capped = (cap < afterMonths) in
     cbind (cwhen capped (warn ''TE_SEHI_CAPPED'' (Some [(''personId'', DText pid), (''premiums'', DAmt afterMonths), (''cap'', DAmt cap)]))) (\<lambda>_.
     cbind (trace_add ((row ''owner_limits'' (''sehi.'' @ pid) deducted SrcGlMap)\<lparr>tr_person := Some pid\<rparr>)) (\<lambda>_.
     cret \<lparr>sh_personId = pid, sh_premiums = premiums, sh_eligibleMonths = eligible, sh_afterMonths = afterMonths,
       sh_earnedIncomeCap = cap, sh_deducted = deducted, sh_capped = capped\<rparr>))))))"

subsection \<open>HSA\<close>

record hsa_limit_input =
  hl_personId :: string
  hl_coverage :: hsa_coverage
  hl_contributed :: money
  hl_age :: "int option"

record hsa_limit =
  ha_personId :: string
  ha_coverage :: hsa_coverage
  ha_contributed :: money
  ha_limit :: money
  ha_deducted :: money
  ha_capped :: bool

definition coverage_text :: "hsa_coverage \<Rightarrow> string" where
  "coverage_text v = (case v of HsaSelf \<Rightarrow> ''self'' | HsaFamily \<Rightarrow> ''family'' | HsaNone \<Rightarrow> ''none'')"

definition hsaLimit :: "hsa_coverage \<Rightarrow> int option \<Rightarrow> (money \<times> string list) eng" where
  "hsaLimit coverage age =
    (if coverage = HsaNone then cret (0, [])
     else let k = (if coverage = HsaFamily then ''hsa.limit.family'' else ''hsa.limit.self'') in
       cbind (p_money k) (\<lambda>limit.
       cbind (p_int ''hsa.catch_up_age'') (\<lambda>catchUpAge.
       if at_least_age age catchUpAge then cbind (p_money ''hsa.catch_up_55'') (\<lambda>extra.
         cret (limit + extra, [k, ''hsa.catch_up_age'', ''hsa.catch_up_55'']))
       else cret (limit, [k, ''hsa.catch_up_age'']))))"

definition computeHsaLimit :: "hsa_limit_input \<Rightarrow> hsa_limit eng" where
  "computeHsaLimit i =
    cbind (hsaLimit (hl_coverage i) (hl_age i)) (\<lambda>(limit, ks).
    let deducted = min (hl_contributed i) limit; capped = (limit < hl_contributed i) in
    cbind (cwhen capped (warn ''TE_HSA_CAPPED'' (Some [(''personId'', DText (hl_personId i)),
      (''coverage'', DText (coverage_text (hl_coverage i))), (''contributed'', DAmt (hl_contributed i)), (''limit'', DAmt limit)]))) (\<lambda>_.
    cbind (cwhen (0 < hl_contributed i \<or> 0 < deducted) (trace_add ((row ''owner_limits'' (''hsa.'' @ hl_personId i) deducted SrcParameter)
      \<lparr>tr_person := Some (hl_personId i), tr_keys := Some ks\<rparr>))) (\<lambda>_.
    cret \<lparr>ha_personId = hl_personId i, ha_coverage = hl_coverage i, ha_contributed = hl_contributed i, ha_limit = limit,
      ha_deducted = deducted, ha_capped = capped\<rparr>)))"

lemma sound_owner_deductions [eng_sound]:
  "sound (computeRetirementLimit ri)" "sound (computeSehiLimit si)" "sound (computeHsaLimit hi)"
  unfolding computeRetirementLimit_def planLimit_def soloCatchUp_def simpleCatchUp_def computeSehiLimit_def
    computeHsaLimit_def hsaLimit_def
  by (intro eng_sound)+

subsection \<open>Knowing the deferral never raises the limit\<close>

lemma simpleLimit_known_le: "simpleLimit deferral match known \<le> simpleLimit deferral match None"
  by (auto simp: simpleLimit_def Let_def split: option.split prod.split)

lemma solo_le: "soloLimit dl cu d es known \<le> soloLimit dl cu d es None"
  by (auto simp: soloLimit_def split: option.split prod.split)

lemma planLimit_known_le:
  assumes "planLimit i p c = Inr ((l, ks), c1)" "planLimit (i\<lparr>rl_employeeDeferral := None\<rparr>) p c = Inr ((l0, ks0), c2)"
  shows "l \<le> l0"
proof -
  have k: "splitKnown (i\<lparr>rl_employeeDeferral := None\<rparr>) = None" by (simp add: splitKnown_def knownDeferral_def)
  show ?thesis
    using assms solo_le simpleLimit_known_le
    by (cases p) (auto simp: planLimit_def cbind_apply ebind_Inr_iff k Let_def)
qed

lemma cwhen_warn_apply: "\<exists>c'. cwhen b (warn k d) c = Inr ((), c') \<and> cx_params c' = cx_params c"
  by (simp add: cwhen_def warn_def warn_sev_def)

text \<open>
  C28: what is deducted is the contribution up to the limit; and the limit figured with a known
  elective deferral is never above the one figured without it, so the estimate made while the deferral
  is unknown is an upper bound, as the input's documentation promises.
\<close>

theorem retirement_unknown_deferral_bounds:
  assumes "computeRetirementLimit i c = Inr (r, c1)"
    and "computeRetirementLimit (i\<lparr>rl_employeeDeferral := None\<rparr>) c = Inr (r0, c2)"
  shows "re_deducted r = min (rl_contributed i) (re_limit r) \<and> (re_capped r \<longleftrightarrow> re_limit r < rl_contributed i) \<and>
    re_limit r \<le> re_limit r0 \<and> re_deducted r \<le> re_deducted r0"
proof -
  let ?p = "case rl_planType i of None \<Rightarrow> Sep | Some p \<Rightarrow> p"
  let ?w = "cwhen (rl_planType i = None \<and> 0 < rl_contributed i)
      (warn ''TE_RETIREMENT_PLAN_ASSUMED'' (Some [(''personId'', DText (rl_personId i))]))"
  obtain cw where cw: "?w c = Inr ((), cw)" using cwhen_warn_apply by blast
  from assms(1) cw obtain l ks ca where l: "planLimit i ?p cw = Inr ((l, ks), ca)" "re_limit r = l"
      "re_deducted r = min (rl_contributed i) l" "re_capped r \<longleftrightarrow> l < rl_contributed i"
    by (auto simp: computeRetirementLimit_def cbind_apply ebind_Inr_iff Let_def)
  from assms(2) cw obtain l0 ks0 cb where l0: "planLimit (i\<lparr>rl_employeeDeferral := None\<rparr>) ?p cw = Inr ((l0, ks0), cb)"
      "re_limit r0 = l0" "re_deducted r0 = min (rl_contributed i) l0"
    by (auto simp: computeRetirementLimit_def cbind_apply ebind_Inr_iff Let_def)
  from planLimit_known_le [OF l(1) l0(1)] l l0 show ?thesis by (auto simp: min_def)
qed

definition sample_contribution :: retirement_limit_input where
  "sample_contribution = \<lparr>rl_personId = ''p1'', rl_planType = Some Solo401k, rl_contributed = 40000, rl_employeeDeferral = Some 10000,
     rl_seIncome = 100000, rl_halfSeTax = 7000, rl_age = None\<rparr>"

definition sample_plan_params :: "(string \<times> resolved) list" where
  "sample_plan_params = num_params [(''retirement.sep.pct_of_comp'', 1 / 4), (''retirement.sep.dollar_limit'', 70000),
     (''retirement.comp_limit'', 350000), (''retirement.401k.deferral'', 23500), (''retirement.catch_up_age'', 50)]"

lemma retirement_unknown_deferral_bounds_witness:
  "\<exists>r c1. computeRetirementLimit sample_contribution (new_ctx sample_plan_params 2025 Mfj) = Inr (r, c1) \<and>
     re_limit r = 28600 \<and> re_deducted r = 28600"
proof -
  let ?c = "new_ctx sample_plan_params 2025 Mfj"
  have "(case computeRetirementLimit sample_contribution ?c of Inr (r, c') \<Rightarrow> re_limit r = 28600 | Inl e \<Rightarrow> False)" by code_simp
  then obtain r c1 where r: "computeRetirementLimit sample_contribution ?c = Inr (r, c1)" "re_limit r = 28600"
    by (auto split: sum.splits)
  have "(case computeRetirementLimit (sample_contribution\<lparr>rl_employeeDeferral := None\<rparr>) ?c of Inr x \<Rightarrow> True | Inl e \<Rightarrow> False)"
    by code_simp
  then obtain r0 c2 where "computeRetirementLimit (sample_contribution\<lparr>rl_employeeDeferral := None\<rparr>) ?c = Inr (r0, c2)"
    by (auto split: sum.splits)
  from retirement_unknown_deferral_bounds [OF r(1) this] r show ?thesis by (auto simp: sample_contribution_def)
qed

end
