(* ===== verification/Deductions.thy ===== *)
theory Deductions
  imports FederalTypes
begin

section \<open>Standard, itemized and Schedule 1-A deductions (engine/deductions.ts)\<close>

text \<open>Step 8 of the federal calculation.\<close>

record deduction_person =
  dp_personId :: string
  dp_role :: person_role
  dp_age :: "int option"
  dp_isBlind :: bool
  dp_sch1a :: sch1a_person

record standard_deduction =
  sd_base :: money
  sd_additionalCount :: nat
  sd_additionalEach :: money
  sd_nonItemizerCharitable :: money
  sd_total :: money

record itemized_exact =
  ix_saltPaid :: money
  ix_saltCap :: money
  ix_saltAllowed :: money
  ix_mortgageInterest :: money
  ix_charitableGross :: money
  ix_charitableFloor :: money
  ix_charitableAllowed :: money
  ix_other :: money
  ix_beforeBenefitCap :: money
  ix_benefitCapReduction :: money
  ix_total :: money

record sch1a_exact =
  sx_inEffect :: bool
  sx_senior :: money
  sx_tips :: money
  sx_overtime :: money
  sx_carLoanInterest :: money
  sx_total :: money

definition MARRIED :: "filing_status \<Rightarrow> bool" where
  "MARRIED fs \<longleftrightarrow> fs = Mfj \<or> fs = Mfs \<or> fs = Qss"

definition countedPersons :: "deduction_person list \<Rightarrow> filing_status \<Rightarrow> deduction_person list" where
  "countedPersons persons fs = filter (\<lambda>p. dp_role p = Primary \<or> fs = Mfj) persons"

definition at_least :: "int option \<Rightarrow> int \<Rightarrow> bool" where
  "at_least age threshold = (case age of None \<Rightarrow> False | Some a \<Rightarrow> threshold \<le> a)"

definition boxes :: "int \<Rightarrow> deduction_person \<Rightarrow> nat" where
  "boxes ageThreshold p = (if at_least (dp_age p) ageThreshold then 1 else 0) + (if dp_isBlind p then 1 else 0)"

definition dtrace :: "string \<Rightarrow> money \<Rightarrow> trace_source \<Rightarrow> string list option \<Rightarrow> unit eng" where
  "dtrace ident x src ks = trace_add ((row ''deductions'' ident x src)\<lparr>tr_keys := ks\<rparr>)"

definition computeStandardDeduction :: "deduction_person list \<Rightarrow> money \<Rightarrow> standard_deduction eng" where
  "computeStandardDeduction persons charitableCash =
    cbind (cget cx_fs) (\<lambda>fs.
    cbind (p_moneyFs ''std_deduction'' fs) (\<lambda>base.
    cbind (p_int ''std_deduction.additional_age'') (\<lambda>ageThreshold.
    let additionalKey = (if MARRIED fs then ''std_deduction.additional_65_blind.married''
                         else ''std_deduction.additional_65_blind.unmarried'') in
    cbind (p_money additionalKey) (\<lambda>additionalEach.
    let count = sum_list (map (boxes ageThreshold) (countedPersons persons fs));
        additional = additionalEach * of_nat count in
    cbind (p_moneyFs ''charity.nonitemizer'' fs) (\<lambda>nonItemizerMax.
    let nonItemizerCharitable = (if 0 < nonItemizerMax then min (floor0 charitableCash) nonItemizerMax else 0);
        total = base + additional + nonItemizerCharitable in
    cbind (dtrace ''standard_deduction'' (base + additional) SrcParameter
      (Some [''std_deduction.'' @ fs_text fs, additionalKey, ''std_deduction.additional_age''])) (\<lambda>_.
    cbind (cwhen (0 < nonItemizerCharitable) (dtrace ''nonitemizer_charitable'' nonItemizerCharitable SrcParameter
      (Some [''charity.nonitemizer.'' @ fs_text fs]))) (\<lambda>_.
    cret \<lparr>sd_base = base, sd_additionalCount = count, sd_additionalEach = additionalEach,
      sd_nonItemizerCharitable = nonItemizerCharitable, sd_total = total\<rparr>)))))))"

text \<open>
  The section 68 reduction: \<open>top\<close> is the last bracket, \<open>topStart\<close> the upper bound of the one before
  it; reading a property of the last bracket of an empty table throws.
\<close>

definition top_bracket :: "bracket_row list \<Rightarrow> bracket_row result" where
  "top_bracket bs = (if bs = [] then Inl (JsError ''TypeError'' []) else Inr (last bs))"

definition top_start :: "bracket_row list \<Rightarrow> money" where
  "top_start bs = (if 1 < length bs then (case br_upper (bs ! (length bs - 2)) of None \<Rightarrow> 0 | Some u \<Rightarrow> u) else 0)"

definition benefit_reduction :: "money \<Rightarrow> bracket_row \<Rightarrow> money \<Rightarrow> money \<Rightarrow> money \<Rightarrow> money eng" where
  "benefit_reduction capRate topB topStart uncapped tiBeforeItemized =
    (let lesser = min uncapped (floor0 (tiBeforeItemized - topStart)) in
     if capRate < br_rate topB \<and> 0 < uncapped \<and> 0 < lesser then
       cbind (clift (quo (lesser * (br_rate topB - capRate)) (br_rate topB))) (\<lambda>reduction.
       cbind (warn ''TE_ITEMIZED_BENEFIT_CAPPED'' (Some [(''reduction'', DAmt reduction)])) (\<lambda>_.
       cret reduction))
     else cret 0)"

definition computeItemizedDeductions :: "engine_itemized \<Rightarrow> money \<Rightarrow> money \<Rightarrow> money \<Rightarrow> itemized_exact eng" where
  "computeItemizedDeductions itemized itemizedOther magi tiBeforeItemized =
    cbind (cget cx_fs) (\<lambda>fs.
    let variant = (if fs = Mfs then ''mfs'' else ''standard'');
        capKey = ''salt.cap.'' @ variant; thresholdKey = ''salt.phase_down.threshold.'' @ variant;
        floorKey = ''salt.floor.'' @ variant in
    cbind (p_money capKey) (\<lambda>cap.
    cbind (p_money thresholdKey) (\<lambda>threshold.
    cbind (p_rate ''salt.phase_down.rate'') (\<lambda>rate.
    cbind (p_money floorKey) (\<lambda>floor.
    let excess = floor0 (magi - threshold);
        saltCap = max floor (cap - rate * excess) in
    cbind (cwhen (0 < excess \<and> saltCap < cap) (warn ''TE_SALT_PHASED_DOWN'' (Some [(''saltCap'', DAmt saltCap)]))) (\<lambda>_.
    let saltPaid = floor0 (it_saltPaid itemized);
        saltAllowed = min saltPaid saltCap;
        mortgage = floor0 (it_mortgageInterest itemized);
        charitableGross = floor0 (it_charitableCash itemized) + floor0 (it_charitableNoncash itemized) in
    cbind (p_rate ''charity.agi_floor_pct'') (\<lambda>floorPct.
    let charitableFloor = (if 0 < charitableGross then floorPct * floor0 magi else 0);
        charitableAllowed = floor0 (charitableGross - charitableFloor);
        other = floor0 (it_other itemized) + floor0 itemizedOther;
        uncapped = saltAllowed + mortgage + charitableAllowed + other in
    cbind (p_rate ''itemized.benefit_cap_rate'') (\<lambda>capRate.
    cbind (p_bracketsFs ''brackets'' fs) (\<lambda>brackets.
    cbind (clift (top_bracket brackets)) (\<lambda>topB.
    cbind (benefit_reduction capRate topB (top_start brackets) uncapped tiBeforeItemized) (\<lambda>reduction.
    let total = uncapped - reduction in
    cbind (dtrace ''itemized.salt'' saltAllowed SrcParameter (Some [capKey, thresholdKey, ''salt.phase_down.rate'', floorKey])) (\<lambda>_.
    cbind (dtrace ''itemized.mortgage'' mortgage SrcInput None) (\<lambda>_.
    cbind (dtrace ''itemized.charitable'' charitableAllowed SrcParameter (Some [''charity.agi_floor_pct''])) (\<lambda>_.
    cbind (dtrace ''itemized.other'' other SrcInput None) (\<lambda>_.
    cbind (dtrace ''itemized.total'' total SrcParameter (Some [''itemized.benefit_cap_rate''])) (\<lambda>_.
    cret \<lparr>ix_saltPaid = saltPaid, ix_saltCap = saltCap, ix_saltAllowed = saltAllowed, ix_mortgageInterest = mortgage,
      ix_charitableGross = charitableGross, ix_charitableFloor = charitableFloor, ix_charitableAllowed = charitableAllowed,
      ix_other = other, ix_beforeBenefitCap = uncapped, ix_benefitCapReduction = reduction, ix_total = total\<rparr>))))))))))))))))"

datatype deduction_choice = ChooseStandard | ChooseItemized

definition choice_text :: "deduction_choice \<Rightarrow> string" where
  "choice_text c = (case c of ChooseStandard \<Rightarrow> ''standard'' | ChooseItemized \<Rightarrow> ''itemized'')"

definition chooseDeduction :: "deduction_mode \<Rightarrow> standard_deduction \<Rightarrow> itemized_exact \<Rightarrow> (deduction_choice \<times> money) eng" where
  "chooseDeduction mode standard itemized =
    (let larger = (if sd_total standard < ix_total itemized then ChooseItemized else ChooseStandard);
         chosen = (case mode of DmAuto \<Rightarrow> larger | DmStandard \<Rightarrow> ChooseStandard | DmItemized \<Rightarrow> ChooseItemized) in
     cbind (cwhen (chosen \<noteq> larger) (info ''TE_DEDUCTION_FORCED'' (Some [(''chosen'', DText (choice_text chosen)),
       (''standard'', DAmt (sd_total standard)), (''itemized'', DAmt (ix_total itemized))]))) (\<lambda>_.
     let deduction = (if chosen = ChooseStandard then sd_total standard else ix_total itemized) in
     cbind (dtrace ''deduction'' deduction SrcInput None) (\<lambda>_.
     cret (chosen, deduction))))"

subsection \<open>Schedule 1-A\<close>

datatype step_rounding = StepDown | StepUp

definition dCeilDiv :: "money \<Rightarrow> money \<Rightarrow> money result" where
  "dCeilDiv a b = ebind (quo a b) (\<lambda>q. let whole = rnd 0 q in Inr (if whole < q then whole + 1 else whole))"

definition dFloorDiv :: "money \<Rightarrow> money \<Rightarrow> money result" where
  "dFloorDiv a b = ebind (quo a b) (\<lambda>q. let whole = rnd 0 q in Inr (if q < whole then whole - 1 else whole))"

definition phasedOut :: "money \<Rightarrow> money option \<Rightarrow> money \<Rightarrow> money \<Rightarrow> money \<Rightarrow> money option \<Rightarrow> step_rounding \<Rightarrow> money result" where
  "phasedOut amount maximum magi threshold rate step rounding =
    (let capped = (case maximum of None \<Rightarrow> floor0 amount | Some m \<Rightarrow> min (floor0 amount) m) in
     if \<not> 0 < capped then Inr 0
     else let excess = floor0 (magi - threshold) in
       ebind (case step of None \<Rightarrow> Inr excess
         | Some st \<Rightarrow> if 0 < st \<and> 0 < excess
             then ebind (if rounding = StepUp then dCeilDiv excess st else dFloorDiv excess st) (\<lambda>n. Inr (n * st))
             else Inr excess) (\<lambda>ex. Inr (floor0 (capped - rate * ex))))"

definition no_sch1a :: "bool \<Rightarrow> sch1a_exact" where
  "no_sch1a e = \<lparr>sx_inEffect = e, sx_senior = 0, sx_tips = 0, sx_overtime = 0, sx_carLoanInterest = 0, sx_total = 0\<rparr>"

definition sch1a_row :: "string \<Rightarrow> money \<Rightarrow> string list \<Rightarrow> unit eng" where
  "sch1a_row ident x ks = cwhen (x \<noteq> 0) (dtrace ident x SrcParameter (Some ks))"

definition computeSch1a :: "deduction_person list \<Rightarrow> money \<Rightarrow> sch1a_exact eng" where
  "computeSch1a persons magi =
    cbind (cget cx_fs) (\<lambda>fs. cbind (cget cx_year) (\<lambda>taxYear.
    cbind (p_int ''sch1a.first_year'') (\<lambda>firstYear.
    cbind (p_int ''sch1a.last_year'') (\<lambda>lastYear.
    if taxYear < firstYear \<or> lastYear < taxYear then
      cbind (info ''TE_SCH1A_NOT_IN_EFFECT'' None) (\<lambda>_. cret (no_sch1a False))
    else if fs = Mfs then
      cbind (info ''TE_SCH1A_MFS_NOT_ALLOWED'' None) (\<lambda>_. cret (no_sch1a True))
    else
    let counted = countedPersons persons fs; f = fs_text fs in
    cbind (p_money ''sch1a.phaseout_step'') (\<lambda>step.
    cbind (p_int ''sch1a.senior.age'') (\<lambda>seniorAge.
    cbind (p_money ''sch1a.senior.amount'') (\<lambda>seniorEach.
    let seniors = length (filter (\<lambda>p. at_least (dp_age p) seniorAge) counted) in
    cbind (p_moneyFs ''sch1a.senior.phaseout_threshold'' fs) (\<lambda>seniorThreshold.
    cbind (p_rate ''sch1a.senior.phaseout_rate'') (\<lambda>seniorRate.
    cbind (clift (phasedOut (seniorEach * of_nat seniors) None magi seniorThreshold seniorRate None StepUp)) (\<lambda>senior.
    cbind (p_money ''sch1a.tips.max'') (\<lambda>tipsMax.
    cbind (p_moneyFs ''sch1a.tips.phaseout_threshold'' fs) (\<lambda>tipsThreshold.
    cbind (p_rate ''sch1a.tips.phaseout_rate'') (\<lambda>tipsRate.
    cbind (clift (phasedOut (sum_list (map (sp_qualifiedTips \<circ> dp_sch1a) counted)) (Some tipsMax) magi tipsThreshold tipsRate
      (Some step) StepDown)) (\<lambda>tips.
    let overtimeMaxKey = (if fs = Mfj then ''sch1a.overtime.max.mfj'' else ''sch1a.overtime.max.standard'') in
    cbind (p_money overtimeMaxKey) (\<lambda>overtimeMax.
    cbind (p_moneyFs ''sch1a.overtime.phaseout_threshold'' fs) (\<lambda>overtimeThreshold.
    cbind (p_rate ''sch1a.overtime.phaseout_rate'') (\<lambda>overtimeRate.
    cbind (clift (phasedOut (sum_list (map (sp_qualifiedOvertime \<circ> dp_sch1a) counted)) (Some overtimeMax) magi overtimeThreshold
      overtimeRate (Some step) StepDown)) (\<lambda>overtime.
    cbind (p_money ''sch1a.car_interest.max'') (\<lambda>carMax.
    cbind (p_moneyFs ''sch1a.car_interest.phaseout_threshold'' fs) (\<lambda>carThreshold.
    cbind (p_rate ''sch1a.car_interest.phaseout_rate'') (\<lambda>carRate.
    cbind (clift (phasedOut (sum_list (map (sp_carLoanInterest \<circ> dp_sch1a) counted)) (Some carMax) magi carThreshold carRate
      (Some step) StepUp)) (\<lambda>car.
    let total = senior + tips + overtime + car in
    cbind (sch1a_row ''sch1a.senior'' senior [''sch1a.senior.amount'', ''sch1a.senior.age'',
      ''sch1a.senior.phaseout_threshold.'' @ f, ''sch1a.senior.phaseout_rate'']) (\<lambda>_.
    cbind (sch1a_row ''sch1a.tips'' tips [''sch1a.tips.max'', ''sch1a.tips.phaseout_threshold.'' @ f,
      ''sch1a.tips.phaseout_rate'', ''sch1a.phaseout_step'']) (\<lambda>_.
    cbind (sch1a_row ''sch1a.overtime'' overtime [overtimeMaxKey, ''sch1a.overtime.phaseout_threshold.'' @ f,
      ''sch1a.overtime.phaseout_rate'', ''sch1a.phaseout_step'']) (\<lambda>_.
    cbind (sch1a_row ''sch1a.car_interest'' car [''sch1a.car_interest.max'', ''sch1a.car_interest.phaseout_threshold.'' @ f,
      ''sch1a.car_interest.phaseout_rate'', ''sch1a.phaseout_step'']) (\<lambda>_.
    cbind (cwhen (0 < total) (dtrace ''sch1a.total'' total SrcParameter (Some [''sch1a.first_year'', ''sch1a.last_year'']))) (\<lambda>_.
    cret \<lparr>sx_inEffect = True, sx_senior = senior, sx_tips = tips, sx_overtime = overtime, sx_carLoanInterest = car,
      sx_total = total\<rparr>)))))))))))))))))))))))))))"

lemma sound_deductions [eng_sound]:
  "sound (computeStandardDeduction persons cash)"
  "sound (computeItemizedDeductions itemized other magi ti)"
  "sound (chooseDeduction mode st it)"
  "sound (computeSch1a persons magi)"
  unfolding computeStandardDeduction_def computeItemizedDeductions_def chooseDeduction_def computeSch1a_def
    benefit_reduction_def dtrace_def sch1a_row_def
  by (intro eng_sound)+

subsection \<open>Whole steps\<close>

lemma int_quotient_gap:
  fixes m n :: int
  assumes "0 < n" "(of_int m / of_int n :: rat) \<noteq> of_int k"
  shows "1 / of_int n \<le> \<bar>of_int m / of_int n - (of_int k :: rat)\<bar>"
proof -
  have "m \<noteq> k * n" using assms by (auto simp: field_simps)
  then have "1 \<le> \<bar>m - k * n\<bar>" by linarith
  then have "(1 :: rat) \<le> \<bar>of_int (m - k * n)\<bar>" by linarith
  then have "1 / of_int n \<le> \<bar>of_int (m - k * n) / (of_int n :: rat)\<bar>"
    using assms(1) by (simp add: divide_right_mono abs_divide)
  also have "of_int (m - k * n) / (of_int n :: rat) = of_int m / of_int n - of_int k"
    using assms(1) by (simp add: field_simps)
  finally show ?thesis .
qed

text \<open>The 12-place quotient lies on the same side of every integer as the exact one, for steps below \<open>10 ^ 12\<close> units.\<close>

lemma rnd12_side:
  fixes m n :: int
  assumes "0 < n" "n < 10 ^ 12"
  shows "rnd 12 (of_int m / of_int n) \<le> of_int k \<longleftrightarrow> (of_int m / of_int n :: rat) \<le> of_int k"
    and "of_int k \<le> rnd 12 (of_int m / of_int n) \<longleftrightarrow> (of_int k :: rat) \<le> of_int m / of_int n"
proof -
  let ?q = "of_int m / of_int n :: rat"
  have err: "\<bar>rnd 12 ?q - ?q\<bar> \<le> 1 / (2 * 10 ^ 12)" by (rule rnd_bound)
  have "(of_int n :: rat) < 10 ^ 12" using assms(2) by (metis of_int_less_iff of_int_numeral of_int_power)
  then have "1 / 10 ^ 12 < (1 / of_int n :: rat)"
    using assms(1) by (intro divide_strict_left_mono) simp_all
  then have gap: "1 / 10 ^ 12 < \<bar>?q - of_int k\<bar>" if "?q \<noteq> of_int k"
    using int_quotient_gap [OF assms(1) that] by linarith
  have int: "rnd 12 (of_int k :: rat) = of_int k"
    using rnd_of_decimal [of "of_int k" 12 "k * 10 ^ 12"] by simp
  have "rnd 12 ?q = of_int k" if "?q = of_int k" using int that by simp
  then have "?q = of_int k \<and> rnd 12 ?q = of_int k \<or> \<bar>rnd 12 ?q - ?q\<bar> < \<bar>?q - of_int k\<bar>"
    using err gap by fastforce
  then show "rnd 12 ?q \<le> of_int k \<longleftrightarrow> ?q \<le> of_int k" by linarith
  from \<open>?q = of_int k \<and> rnd 12 ?q = of_int k \<or> \<bar>rnd 12 ?q - ?q\<bar> < \<bar>?q - of_int k\<bar>\<close>
  show "of_int k \<le> rnd 12 ?q \<longleftrightarrow> of_int k \<le> ?q" by linarith
qed

lemma rnd0_near: "\<exists>i. rnd 0 q = of_int i \<and> \<bar>of_int i - q\<bar> \<le> 1 / 2"
proof -
  obtain i where "rnd 0 q * 10 ^ 0 = of_int i" using rnd_decimal by blast
  with rnd_bound [of 0 q] show ?thesis by (intro exI [of _ i]) simp
qed

text \<open>
  C26: on amounts in cents and a step below ten billion dollars, \<open>dCeilDiv\<close> is the exact number of
  steps begun and \<open>dFloorDiv\<close> the exact number of whole steps: the rounding of the quotient to twelve
  places and then to an integer never counts a step too many or too few.
\<close>

theorem whole_steps_exact:
  fixes m n :: int
  assumes "0 < n" "n < 10 ^ 12"
  shows "dCeilDiv (of_int m / 100) (of_int n / 100) = Inr (of_int \<lceil>of_int m / (of_int n :: rat)\<rceil>) \<and>
    dFloorDiv (of_int m / 100) (of_int n / 100) = Inr (of_int \<lfloor>of_int m / (of_int n :: rat)\<rfloor>)"
proof -
  let ?q = "of_int m / of_int n :: rat" and ?r = "rnd 12 (of_int m / of_int n)"
  have quo: "quo (of_int m / 100) (of_int n / 100) = Inr ?r" using assms(1) by (simp add: quo_def)
  obtain i where i: "rnd 0 ?r = of_int i" "\<bar>of_int i - ?r\<bar> \<le> 1 / 2" using rnd0_near by blast
  note side1 = rnd12_side(1) [OF assms, where m = m] and side2 = rnd12_side(2) [OF assms, where m = m]
  have ceil: "\<lceil>?q\<rceil> = (if of_int i < ?r then i + 1 else i)"
  proof (rule ceiling_unique)
    show "of_int (if of_int i < ?r then i + 1 else i) - 1 < ?q"
      using side1 [of i] side1 [of "i - 1"] i(2) by (simp add: abs_if split: if_splits; linarith)
    show "?q \<le> of_int (if of_int i < ?r then i + 1 else i)"
      using side1 [of i] side1 [of "i + 1"] i(2) by (simp add: abs_if split: if_splits; linarith)
  qed
  have floor: "\<lfloor>?q\<rfloor> = (if ?r < of_int i then i - 1 else i)"
  proof (rule floor_unique)
    show "of_int (if ?r < of_int i then i - 1 else i) \<le> ?q"
      using side2 [of i] side2 [of "i - 1"] i(2) by (simp add: abs_if split: if_splits; linarith)
    show "?q < of_int (if ?r < of_int i then i - 1 else i) + 1"
      using side2 [of i] side2 [of "i + 1"] i(2) by (simp add: abs_if split: if_splits; linarith)
  qed
  show ?thesis by (simp add: dCeilDiv_def dFloorDiv_def quo i(1) ceil floor Let_def)
qed

lemma whole_steps_exact_witness:
  "dCeilDiv (250001 / 100) (100000 / 100) = Inr 3 \<and> dFloorDiv (250001 / 100) (100000 / 100) = Inr 2"
proof -
  have "\<lceil>250001 / (100000 :: rat)\<rceil> = 3" "\<lfloor>250001 / (100000 :: rat)\<rfloor> = 2"
    by (rule ceiling_unique; simp) (rule floor_unique; simp)
  with whole_steps_exact [of 100000 250001] show ?thesis by simp
qed

text \<open>
  C27: in automatic mode the deduction is the larger of the standard and the itemized total; a forced
  mode takes the one it names; the choice never throws and leaves one trace row.
\<close>

theorem chooseDeduction_larger:
  "\<exists>chosen d c'. chooseDeduction mode st it c = Inr ((chosen, d), c') \<and>
    d = (case mode of DmAuto \<Rightarrow> max (sd_total st) (ix_total it) | DmStandard \<Rightarrow> sd_total st | DmItemized \<Rightarrow> ix_total it) \<and>
    d = (if chosen = ChooseStandard then sd_total st else ix_total it) \<and> length (cx_trace c') = length (cx_trace c) + 1"
  by (cases mode) (auto simp: chooseDeduction_def dtrace_def cwhen_def info_def warn_sev_def trace_add_def cbind_def Let_def max_def)

end
