(* ===== verification/Dependents.thy ===== *)
theory Dependents
  imports Deductions
begin

section \<open>Dependent care and child tax credits (engine/dependents.ts)\<close>

text \<open>
  The credits of sections 21 and 24: classification of the dependents, the care credit first against
  the regular tax, then the child tax credit and the credit for other dependents, then the refundable
  additional credit.
\<close>

subsection \<open>Inputs and results\<close>

record earned_income_person =
  ei_personId :: string
  ei_role :: person_role
  ei_earned :: money

record dependent_credits_input =
  di_dependents :: "engine_dependent list"
  di_filingStatus :: filing_status
  di_taxYear :: int
  di_agi :: money
  di_regularTax :: money
  di_persons :: "earned_income_person list"
  di_careExpenses :: money
  di_fixed :: "fixed_dependent_credits option"

datatype age_group = Under13 | From13To16 | From17To18 | From19To23 | Over24

record credit_person =
  cp_dependentId :: string
  cp_kind :: dependent_kind
  cp_ageAtYearEnd :: int
  cp_ageGroup :: age_group
  cp_childTaxCredit :: bool
  cp_otherDependentCredit :: bool
  cp_careQualifying :: bool
  cp_eitcQualifying :: bool

datatype credits_method = CrComputed | CrFixed | CrNone

record dependent_credits =
  dc_method :: credits_method
  dc_dependents :: "credit_person list"
  dc_ctcChildren :: nat
  dc_otherDependents :: nat
  dc_careQualifyingPersons :: nat
  dc_ctcTentative :: money
  dc_odcTentative :: money
  dc_phaseOutMagi :: money
  dc_phaseOutThreshold :: money
  dc_phaseOutReduction :: money
  dc_ctcOdcAfterPhaseOut :: money
  dc_ctcOdcAllowed :: money
  dc_earnedIncome :: money
  dc_actcByChildren :: money
  dc_actcByEarnedIncome :: money
  dc_actc :: money
  dc_careExpenses :: money
  dc_careExpenseLimit :: money
  dc_careEarnedIncomeLimit :: money
  dc_careAllowedExpenses :: money
  dc_careRate :: money
  dc_careTentative :: money
  dc_careAllowed :: money
  dc_taxAfterDependentCredits :: money

subsection \<open>Classification\<close>

text \<open>\<open>^(\d+)-\<close> on the date of birth.\<close>

definition dob_year :: "string \<Rightarrow> int option" where
  "dob_year s = (let ds = takeWhile is_digit s; r = dropWhile is_digit s in
     if ds \<noteq> [] \<and> r \<noteq> [] \<and> hd r = CHR ''-'' then Some (int (nat_of_digits ds)) else None)"

definition activeDependents :: "engine_dependent list \<Rightarrow> int \<Rightarrow> engine_dependent list" where
  "activeDependents deps taxYear = filter (\<lambda>d.
     (case de_firstTaxYear d of None \<Rightarrow> True | Some y \<Rightarrow> \<not> taxYear < y) \<and>
     (case de_lastTaxYear d of None \<Rightarrow> True | Some y \<Rightarrow> \<not> y < taxYear) \<and>
     (case dob_year (de_dateOfBirth d) of None \<Rightarrow> False | Some y \<Rightarrow> y \<le> taxYear)) deps"

definition emptyExact :: "money \<Rightarrow> money \<Rightarrow> dependent_credits" where
  "emptyExact regularTax careExpenses = \<lparr>dc_method = CrNone, dc_dependents = [], dc_ctcChildren = 0, dc_otherDependents = 0,
     dc_careQualifyingPersons = 0, dc_ctcTentative = 0, dc_odcTentative = 0, dc_phaseOutMagi = 0, dc_phaseOutThreshold = 0,
     dc_phaseOutReduction = 0, dc_ctcOdcAfterPhaseOut = 0, dc_ctcOdcAllowed = 0, dc_earnedIncome = 0, dc_actcByChildren = 0,
     dc_actcByEarnedIncome = 0, dc_actc = 0, dc_careExpenses = careExpenses, dc_careExpenseLimit = 0,
     dc_careEarnedIncomeLimit = 0, dc_careAllowedExpenses = 0, dc_careRate = 0, dc_careTentative = 0, dc_careAllowed = 0,
     dc_taxAfterDependentCredits = regularTax\<rparr>"

definition ageGroup :: "int \<Rightarrow> age_group eng" where
  "ageGroup age =
    cbind (p_int ''care.qualifying_age'') (\<lambda>care.
    cbind (p_int ''ctc.child_age_limit'') (\<lambda>ctc.
    cbind (p_int ''dependents.qc_age_limit'') (\<lambda>qc.
    cbind (p_int ''dependents.qc_student_age_limit'') (\<lambda>student.
    cret (if age < care then Under13 else if age < ctc then From13To16 else if age < qc then From17To18
          else if age < student then From19To23 else Over24)))))"

definition age_or_zero :: "engine_dependent \<Rightarrow> int \<Rightarrow> bool \<Rightarrow> int" where
  "age_or_zero d taxYear janFirst = (case ageAtYearEnd (Some (de_dateOfBirth d)) taxYear janFirst of None \<Rightarrow> 0 | Some a \<Rightarrow> a)"

definition classify :: "int \<Rightarrow> int \<Rightarrow> int \<Rightarrow> int \<Rightarrow> int \<Rightarrow> int \<Rightarrow> engine_dependent \<Rightarrow> credit_person eng" where
  "classify taxYear ctcAge qcAge qcStudentAge minMonths careAge d =
    (let age = age_or_zero d taxYear False;
         ageAtStart = age_or_zero d taxYear True - 1;
         residencyOk = (case de_monthsLivedWith d of None \<Rightarrow> True | Some m \<Rightarrow> minMonths \<le> m);
         qcAgeOk = (age < qcAge \<or> (de_isStudent d \<and> age < qcStudentAge) \<or> de_isDisabled d);
         isQc = (de_kind d = QualifyingChild) in
     cbind (cwhen (isQc \<and> \<not> qcAgeOk) (cbind (p_money ''ctc.odc_amount'') (\<lambda>_.
       warn ''TE_DEPENDENT_QC_AGE'' (Some [(''dependentId'', DText (de_dependentId d)), (''age'', DInt age)])))) (\<lambda>_.
     cbind (cwhen (isQc \<and> \<not> residencyOk)
       (warn ''TE_DEPENDENT_RESIDENCY'' (Some [(''dependentId'', DText (de_dependentId d))]))) (\<lambda>_.
     let childTaxCredit = (isQc \<and> age < ctcAge);
         careQualifying = ((isQc \<and> ageAtStart < careAge) \<or> de_isDisabled d) in
     cbind (cwhen (careQualifying \<and> \<not> de_isDisabled d \<and> careAge \<le> age)
       (info ''TE_CARE_CHILD_TURNS_13'' (Some [(''dependentId'', DText (de_dependentId d))]))) (\<lambda>_.
     cbind (ageGroup age) (\<lambda>grp.
     cret \<lparr>cp_dependentId = de_dependentId d, cp_kind = de_kind d, cp_ageAtYearEnd = age, cp_ageGroup = grp,
       cp_childTaxCredit = childTaxCredit, cp_otherDependentCredit = (\<not> childTaxCredit), cp_careQualifying = careQualifying,
       cp_eitcQualifying = isQc\<rparr>)))))"

subsection \<open>Care credit\<close>

definition careRateFor :: "money \<Rightarrow> (money \<times> string list) eng" where
  "careRateFor agi =
    cbind (cget cx_fs) (\<lambda>fs.
    let v = (if fs = Mfj then ''mfj'' else ''standard'') in
    cbind (p_rate ''care.max_rate'') (\<lambda>maxRate.
    cbind (p_rate ''care.rate_step'') (\<lambda>step.
    cbind (p_money ''care.phase1.start'') (\<lambda>p1Start.
    cbind (p_money ''care.phase1.agi_step'') (\<lambda>p1Step.
    cbind (p_rate ''care.phase1.min_rate'') (\<lambda>p1Min.
    cbind (p_rate ''care.phase2.min_rate'') (\<lambda>p2Min.
    let ks = [''care.max_rate'', ''care.rate_step'', ''care.phase1.start'', ''care.phase1.agi_step'', ''care.phase1.min_rate'',
              ''care.phase2.min_rate''];
        over1 = floor0 (agi - p1Start) in
    cbind (clift (if 0 < over1 then ebind (dCeilDiv over1 p1Step) (\<lambda>n. Inr (max p1Min (maxRate - n * step))) else Inr maxRate)) (\<lambda>rate1.
    if p2Min < p1Min then
      cbind (p_money (''care.phase2.start.'' @ v)) (\<lambda>p2Start.
      cbind (p_money (''care.phase2.agi_step.'' @ v)) (\<lambda>p2Step.
      let over2 = floor0 (agi - p2Start) in
      cbind (clift (if 0 < over2 then ebind (dCeilDiv over2 p2Step) (\<lambda>n. Inr (max p2Min (rate1 - n * step))) else Inr rate1)) (\<lambda>rate2.
      cret (floor0 rate2, ks @ [''care.phase2.start.'' @ v, ''care.phase2.agi_step.'' @ v]))))
    else cret (floor0 rate1, ks)))))))))"

record care_amounts =
  ca_limit :: money
  ca_earnedLimit :: money
  ca_allowedExpenses :: money
  ca_rate :: money
  ca_tentative :: money
  ca_keys :: "string list"

definition no_care :: care_amounts where
  "no_care = \<lparr>ca_limit = 0, ca_earnedLimit = 0, ca_allowedExpenses = 0, ca_rate = 0, ca_tentative = 0, ca_keys = []\<rparr>"

definition first_earned :: "earned_income_person list \<Rightarrow> money" where
  "first_earned ps = (case ps of [] \<Rightarrow> 0 | p # _ \<Rightarrow> ei_earned p)"

definition careEarnedLimit :: "dependent_credits_input \<Rightarrow> money eng" where
  "careEarnedLimit input =
    (let ps = di_persons input in
     if di_filingStatus input = Mfj then
       if length ps \<le> 1 then
         cbind (warn ''TE_CARE_SPOUSE_MISSING'' None) (\<lambda>_. cret (floor0 (first_earned ps)))
       else cbind (case find (\<lambda>p. \<not> 0 < ei_earned p) ps of None \<Rightarrow> cret ()
           | Some p \<Rightarrow> warn ''TE_CARE_SPOUSE_NO_EARNED_INCOME'' (Some [(''personId'', DText (ei_personId p))])) (\<lambda>_.
         cret (floor0 (fold min (map ei_earned (tl ps)) (first_earned ps))))
     else cret (floor0 (case find (\<lambda>p. ei_role p = Primary) ps of Some p \<Rightarrow> ei_earned p | None \<Rightarrow> first_earned ps)))"

definition careCredit :: "dependent_credits_input \<Rightarrow> money \<Rightarrow> nat \<Rightarrow> care_amounts eng" where
  "careCredit input careExpenses qualifying =
    (if \<not> 0 < careExpenses then cret no_care
     else if qualifying = 0 then
       cbind (warn ''TE_CARE_NO_QUALIFYING_PERSON'' (Some [(''careExpenses'', DAmt careExpenses)])) (\<lambda>_. cret no_care)
     else if di_filingStatus input = Mfs then cbind (warn ''TE_CARE_CREDIT_MFS'' None) (\<lambda>_. cret no_care)
     else let limitKey = ''care.expense_limit.'' @ (if qualifying = 1 then ''one'' else ''two_plus'') in
       cbind (p_money limitKey) (\<lambda>limit.
       cbind (careEarnedLimit input) (\<lambda>earnedLimit.
       let allowed = min (min careExpenses limit) earnedLimit in
       cbind (careRateFor (di_agi input)) (\<lambda>(rate, ks).
       cbind (info ''TE_CARE_EMPLOYER_BENEFITS_NOT_MODELLED'' None) (\<lambda>_.
       cret \<lparr>ca_limit = limit, ca_earnedLimit = earnedLimit, ca_allowedExpenses = allowed, ca_rate = rate,
         ca_tentative = allowed * rate, ca_keys = limitKey # ks\<rparr>)))))"

definition is_limit_key :: "string \<Rightarrow> bool" where
  "is_limit_key k \<longleftrightarrow> take 18 k = ''care.expense_limit''"

definition ctrace :: "string \<Rightarrow> money \<Rightarrow> string list \<Rightarrow> unit eng" where
  "ctrace ident x ks = trace_add ((row ''credits'' ident x SrcParameter)\<lparr>tr_keys := Some ks\<rparr>)"

subsection \<open>Child tax credit\<close>

record ctc_amounts =
  ct_ctcTentative :: money
  ct_odcTentative :: money
  ct_threshold :: money
  ct_reduction :: money
  ct_afterPhaseOut :: money
  ct_allowed :: money
  ct_actcByChildren :: money
  ct_actcByEarned :: money
  ct_actc :: money

definition no_ctc :: ctc_amounts where
  "no_ctc = \<lparr>ct_ctcTentative = 0, ct_odcTentative = 0, ct_threshold = 0, ct_reduction = 0, ct_afterPhaseOut = 0, ct_allowed = 0,
     ct_actcByChildren = 0, ct_actcByEarned = 0, ct_actc = 0\<rparr>"

definition actcCredit :: "nat \<Rightarrow> money \<Rightarrow> money \<Rightarrow> (money \<times> money \<times> money) eng" where
  "actcCredit ctcChildren unused earnedIncome =
    cbind (p_money ''ctc.refundable_max'') (\<lambda>refundableMax.
    cbind (p_money ''ctc.earned_income_floor'') (\<lambda>earnedFloor.
    cbind (p_rate ''ctc.earned_income_rate'') (\<lambda>earnedRate.
    let byChildren = of_nat ctcChildren * refundableMax;
        byEarned = floor0 (earnedIncome - earnedFloor) * earnedRate;
        actc = (if 0 < unused then min (min unused byChildren) byEarned else 0) in
    cbind (cwhen (0 < unused) (cbind (ctrace ''credits.actc'' actc [''ctc.refundable_max'', ''ctc.earned_income_floor'', ''ctc.earned_income_rate'']) (\<lambda>_.
      cbind (p_int ''ctc.alt_formula_min_children'') (\<lambda>altMin.
      cwhen (altMin \<le> int ctcChildren \<and> byEarned < min unused byChildren)
        (warn ''TE_ACTC_ALT_FORMULA_NOT_MODELLED'' (Some [(''children'', DInt (int ctcChildren))])))))) (\<lambda>_.
    cret (byChildren, byEarned, actc)))))"

definition ctcCredit :: "dependent_credits_input \<Rightarrow> nat \<Rightarrow> nat \<Rightarrow> money \<Rightarrow> money \<Rightarrow> ctc_amounts eng" where
  "ctcCredit input ctcChildren otherDependents afterCare earnedIncome =
    (let tv = (if di_filingStatus input = Mfj then ''mfj'' else ''standard'');
         thresholdKey = ''ctc.phaseout_threshold.'' @ tv in
     cbind (p_money ''ctc.amount'') (\<lambda>ctcAmount.
     cbind (p_money ''ctc.odc_amount'') (\<lambda>odcAmount.
     cbind (p_money thresholdKey) (\<lambda>threshold.
     let ctcTentative = of_nat ctcChildren * ctcAmount; odcTentative = of_nat otherDependents * odcAmount;
         over = floor0 (di_agi input - threshold) in
     cbind (if 0 < over then cbind (p_money ''ctc.phaseout_step'') (\<lambda>step. cbind (clift (dCeilDiv over step)) (\<lambda>n.
         cbind (p_money ''ctc.phaseout_reduction'') (\<lambda>each. cret (n * each)))) else cret 0) (\<lambda>reduction.
     let afterPhaseOut = floor0 (ctcTentative + odcTentative - reduction); allowed = min afterPhaseOut afterCare in
     cbind (ctrace ''credits.ctc.tentative'' (ctcTentative + odcTentative) [''ctc.amount'', ''ctc.odc_amount'', ''ctc.child_age_limit'']) (\<lambda>_.
     cbind (cwhen (0 < reduction) (ctrace ''credits.ctc.phaseout'' reduction
       [thresholdKey, ''ctc.phaseout_step'', ''ctc.phaseout_reduction''])) (\<lambda>_.
     cbind (ctrace ''credits.ctc'' allowed [''ctc.amount'', ''ctc.odc_amount'', thresholdKey, ''ctc.phaseout_step'', ''ctc.phaseout_reduction'']) (\<lambda>_.
     cbind (if 0 < ctcChildren then actcCredit ctcChildren (afterPhaseOut - allowed) earnedIncome else cret (0, 0, 0)) (\<lambda>(byChildren, byEarned, actc).
     cbind (info ''TE_CTC_SSN_ASSUMED'' None) (\<lambda>_.
     cret \<lparr>ct_ctcTentative = ctcTentative, ct_odcTentative = odcTentative, ct_threshold = threshold, ct_reduction = reduction,
       ct_afterPhaseOut = afterPhaseOut, ct_allowed = allowed, ct_actcByChildren = byChildren, ct_actcByEarned = byEarned,
       ct_actc = actc\<rparr>))))))))))"

subsection \<open>The step\<close>

definition eitcWarning :: "dependent_credits_input \<Rightarrow> nat \<Rightarrow> unit eng" where
  "eitcWarning input eitcChildren =
    cwhen (0 < eitcChildren \<and> di_filingStatus input \<noteq> Mfs)
      (cbind (p_moneyList (''eitc.max_agi.'' @ (if di_filingStatus input = Mfj then ''mfj'' else ''standard''))) (\<lambda>l.
       let limit = (if l = [] then 0 else l ! (min eitcChildren (length l) - 1)) in
       cwhen (di_agi input < limit) (warn ''TE_EITC_NOT_COMPUTED''
         (Some [(''agi'', DAmt (di_agi input)), (''limit'', DAmt limit), (''children'', DInt (int eitcChildren))]))))"

definition fixedCredits :: "fixed_dependent_credits \<Rightarrow> money \<Rightarrow> money \<Rightarrow> dependent_credits eng" where
  "fixedCredits fixed regularTax careExpenses =
    (let care = floor0 (fd_care fixed); ctcOdc = floor0 (fd_ctcOdc fixed); actc = floor0 (fd_actc fixed);
         careAllowed = min care regularTax; left = regularTax - careAllowed; ctcOdcAllowed = min ctcOdc left in
     cbind (cwhen (0 < care \<or> 0 < ctcOdc \<or> 0 < actc)
       (trace_add (row ''credits'' ''credits.dependents.fixed'' (careAllowed + ctcOdcAllowed + actc) SrcInput))) (\<lambda>_.
     cret ((emptyExact regularTax careExpenses)\<lparr>dc_method := CrFixed, dc_ctcOdcAfterPhaseOut := ctcOdc, dc_ctcOdcAllowed := ctcOdcAllowed,
       dc_actc := actc, dc_careTentative := care, dc_careAllowed := careAllowed, dc_taxAfterDependentCredits := left - ctcOdcAllowed\<rparr>)))"

definition computedCredits :: "dependent_credits_input \<Rightarrow> engine_dependent list \<Rightarrow> money \<Rightarrow> money \<Rightarrow> dependent_credits eng" where
  "computedCredits input deps regularTax careExpenses =
    cbind (p_int ''ctc.child_age_limit'') (\<lambda>ctcAge.
    cbind (p_int ''dependents.qc_age_limit'') (\<lambda>qcAge.
    cbind (p_int ''dependents.qc_student_age_limit'') (\<lambda>qcStudentAge.
    cbind (p_int ''dependents.residency_min_months'') (\<lambda>minMonths.
    cbind (p_int ''care.qualifying_age'') (\<lambda>careAge.
    cbind (cmap (classify (di_taxYear input) ctcAge qcAge qcStudentAge minMonths careAge) deps) (\<lambda>people.
    let ctcChildren = length (filter cp_childTaxCredit people);
        otherDependents = length people - ctcChildren;
        qualifying = length (filter cp_careQualifying people);
        earnedIncome = floor0 (sum_list (map ei_earned (di_persons input))) in
    cbind (careCredit input careExpenses qualifying) (\<lambda>care.
    let careAllowed = min (ca_tentative care) regularTax in
    cbind (cwhen (0 < careExpenses) (cbind (ctrace ''credits.care.expenses'' (ca_allowedExpenses care) (filter is_limit_key (ca_keys care))) (\<lambda>_.
      ctrace ''credits.care'' careAllowed (ca_keys care)))) (\<lambda>_.
    let afterCare = regularTax - careAllowed in
    cbind (if people \<noteq> [] then ctcCredit input ctcChildren otherDependents afterCare earnedIncome else cret no_ctc) (\<lambda>ctc.
    let eitcChildren = length (filter cp_eitcQualifying people) in
    cbind (eitcWarning input eitcChildren) (\<lambda>_.
    cbind (cwhen (di_filingStatus input = Single \<and> list_ex (\<lambda>p. cp_kind p = QualifyingChild \<and> cp_eitcQualifying p) people)
      (warn ''TE_HOH_MAY_APPLY'' None)) (\<lambda>_.
    cret \<lparr>dc_method = CrComputed, dc_dependents = people, dc_ctcChildren = ctcChildren, dc_otherDependents = otherDependents,
      dc_careQualifyingPersons = qualifying, dc_ctcTentative = ct_ctcTentative ctc, dc_odcTentative = ct_odcTentative ctc,
      dc_phaseOutMagi = di_agi input, dc_phaseOutThreshold = ct_threshold ctc, dc_phaseOutReduction = ct_reduction ctc,
      dc_ctcOdcAfterPhaseOut = ct_afterPhaseOut ctc, dc_ctcOdcAllowed = ct_allowed ctc, dc_earnedIncome = earnedIncome,
      dc_actcByChildren = ct_actcByChildren ctc, dc_actcByEarnedIncome = ct_actcByEarned ctc, dc_actc = ct_actc ctc,
      dc_careExpenses = careExpenses, dc_careExpenseLimit = ca_limit care, dc_careEarnedIncomeLimit = ca_earnedLimit care,
      dc_careAllowedExpenses = ca_allowedExpenses care, dc_careRate = ca_rate care, dc_careTentative = ca_tentative care,
      dc_careAllowed = careAllowed, dc_taxAfterDependentCredits = afterCare - ct_allowed ctc\<rparr>)))))))))))"

definition computeDependentCredits :: "dependent_credits_input \<Rightarrow> dependent_credits eng" where
  "computeDependentCredits input =
    (let regularTax = floor0 (di_regularTax input); careExpenses = floor0 (di_careExpenses input) in
     case di_fixed input of
       Some fixed \<Rightarrow> fixedCredits fixed regularTax careExpenses
     | None \<Rightarrow>
         let deps = activeDependents (di_dependents input) (di_taxYear input) in
         if deps = [] \<and> careExpenses = 0 then cret (emptyExact regularTax careExpenses)
         else computedCredits input deps regularTax careExpenses)"

lemma sound_dependents [eng_sound]: "sound (computeDependentCredits input)"
  unfolding computeDependentCredits_def computedCredits_def fixedCredits_def eitcWarning_def ctcCredit_def actcCredit_def
    ctrace_def careCredit_def careEarnedLimit_def careRateFor_def classify_def ageGroup_def
  by (intro eng_sound)

subsection \<open>Credits against the tax\<close>

lemma actcCredit_bound:
  assumes "actcCredit n unused earned c = Inr ((byChildren, byEarned, actc), c')"
  shows "actc = (if 0 < unused then min (min unused byChildren) byEarned else 0)"
  using assms unfolding actcCredit_def by (auto simp: cbind_apply ebind_Inr_iff Let_def)

lemma ctcCredit_bound:
  assumes "ctcCredit input n m afterCare earned c = Inr (r, c')"
  shows "ct_allowed r = min (ct_afterPhaseOut r) afterCare \<and> 0 \<le> ct_afterPhaseOut r \<and>
    (0 < ct_actc r \<longrightarrow> ct_allowed r + ct_actc r \<le> ct_afterPhaseOut r \<and> ct_allowed r = afterCare)"
proof -
  from assms obtain a k c1 c2 where a: "ct_allowed r = min (ct_afterPhaseOut r) afterCare" "0 \<le> ct_afterPhaseOut r"
    and actc: "(if 0 < n then actcCredit n (ct_afterPhaseOut r - ct_allowed r) earned else cret (0, 0, 0)) c1
      = Inr ((a, k, ct_actc r), c2)"
    by (auto simp: ctcCredit_def cbind_apply ebind_Inr_iff Let_def cong: if_cong)
  have "ct_actc r \<le> ct_afterPhaseOut r - ct_allowed r" if "0 < ct_actc r"
    using that actc by (auto split: if_splits dest!: actcCredit_bound)
  with a show ?thesis by (auto simp: min_def)
qed

lemma computedCredits_bounds:
  assumes "computedCredits input deps tax care c = Inr (r, c')"
  shows "dc_taxAfterDependentCredits r = tax - dc_careAllowed r - dc_ctcOdcAllowed r \<and>
    0 \<le> dc_taxAfterDependentCredits r \<and> dc_careAllowed r \<le> tax \<and>
    0 \<le> dc_ctcOdcAllowed r \<and> dc_ctcOdcAllowed r \<le> dc_ctcOdcAfterPhaseOut r \<and>
    (0 < dc_actc r \<longrightarrow> dc_ctcOdcAllowed r + dc_actc r \<le> dc_ctcOdcAfterPhaseOut r \<and> dc_taxAfterDependentCredits r = 0) \<and>
    dc_ctcChildren r + dc_otherDependents r = length (dc_dependents r)"
proof -
  from assms obtain people tentative ctc n m earned c1 c2 where care: "dc_careAllowed r = min tentative tax"
    and ctc: "(if people \<noteq> [] then ctcCredit input n m (tax - dc_careAllowed r) earned else cret no_ctc) c1 = Inr (ctc, c2)"
    and out: "dc_ctcOdcAllowed r = ct_allowed ctc" "dc_ctcOdcAfterPhaseOut r = ct_afterPhaseOut ctc" "dc_actc r = ct_actc ctc"
      "dc_taxAfterDependentCredits r = tax - dc_careAllowed r - ct_allowed ctc" "dc_dependents r = people"
      "dc_ctcChildren r = length (filter cp_childTaxCredit people)"
      "dc_otherDependents r = length people - length (filter cp_childTaxCredit people)"
    unfolding computedCredits_def by (auto simp: cbind_apply ebind_Inr_iff Let_def cong: if_cong)
  have "0 \<le> tax - dc_careAllowed r" using care by simp
  moreover have "ct_allowed ctc = 0 \<and> ct_afterPhaseOut ctc = 0 \<and> ct_actc ctc = 0 \<or>
      ct_allowed ctc = min (ct_afterPhaseOut ctc) (tax - dc_careAllowed r) \<and> 0 \<le> ct_afterPhaseOut ctc \<and>
      (0 < ct_actc ctc \<longrightarrow> ct_allowed ctc + ct_actc ctc \<le> ct_afterPhaseOut ctc \<and> ct_allowed ctc = tax - dc_careAllowed r)"
    using ctc by (auto simp: no_ctc_def split: if_splits dest!: ctcCredit_bound)
  ultimately show ?thesis
    using care out by (auto simp: min_def split: if_splits)
qed

text \<open>The credits used and the tax left make up the regular tax, whatever the method.\<close>

lemma tax_after_dependent_credits:
  assumes "computeDependentCredits input c = Inr (r, c')"
  shows "dc_careAllowed r + dc_ctcOdcAllowed r + dc_taxAfterDependentCredits r = floor0 (di_regularTax input) \<and>
    0 \<le> dc_taxAfterDependentCredits r"
  using assms
  by (auto simp: computeDependentCredits_def fixedCredits_def emptyExact_def cbind_apply ebind_Inr_iff Let_def
      split: option.splits if_splits dest!: computedCredits_bounds)

lemma fixedCredits_amounts:
  assumes "fixedCredits fixed tax care c = Inr (r, c')" "0 \<le> tax"
  shows "dc_careAllowed r = min (floor0 (fd_care fixed)) tax" "dc_actc r = floor0 (fd_actc fixed)"
    "dc_ctcOdcAfterPhaseOut r = floor0 (fd_ctcOdc fixed)"
    "dc_ctcOdcAllowed r = min (floor0 (fd_ctcOdc fixed)) (tax - dc_careAllowed r)"
    "dc_taxAfterDependentCredits r = tax - dc_careAllowed r - dc_ctcOdcAllowed r"
    "dc_ctcChildren r + dc_otherDependents r = length (dc_dependents r)"
  using assms(1) by (auto simp: fixedCredits_def emptyExact_def cbind_apply ebind_Inr_iff Let_def)

text \<open>
  C29: the dependent credits are taken in order against the regular tax: what is left is never negative,
  the care credit and the child credit never use more than the tax, the child credit used stays within
  the credit left by the phase-out, and every dependent counts for exactly one of the two
  credits.  When the credits are computed from the dependents, the child credit used and the
  refundable part together stay within the credit left by the phase-out, and the refundable part is paid
  only when the tax is used up.  With full-year amounts given (the columns of Schedule AI) the three
  credits are those amounts, the first two limited by the tax left; the refundable part is then paid as
  given, also when tax is left.
\<close>

theorem dependent_credits_within_tax:
  assumes "computeDependentCredits input c = Inr (r, c')"
  shows "dc_taxAfterDependentCredits r = floor0 (di_regularTax input) - dc_careAllowed r - dc_ctcOdcAllowed r \<and>
    0 \<le> dc_taxAfterDependentCredits r \<and> dc_careAllowed r \<le> floor0 (di_regularTax input) \<and>
    0 \<le> dc_ctcOdcAllowed r \<and> dc_ctcOdcAllowed r \<le> dc_ctcOdcAfterPhaseOut r \<and>
    dc_ctcChildren r + dc_otherDependents r = length (dc_dependents r) \<and>
    (case di_fixed input of
      None \<Rightarrow> 0 < dc_actc r \<longrightarrow> dc_ctcOdcAllowed r + dc_actc r \<le> dc_ctcOdcAfterPhaseOut r \<and> dc_taxAfterDependentCredits r = 0
    | Some fixed \<Rightarrow> dc_careAllowed r = min (floor0 (fd_care fixed)) (floor0 (di_regularTax input)) \<and>
        dc_ctcOdcAllowed r = min (floor0 (fd_ctcOdc fixed)) (floor0 (di_regularTax input) - dc_careAllowed r) \<and>
        dc_ctcOdcAfterPhaseOut r = floor0 (fd_ctcOdc fixed) \<and> dc_actc r = floor0 (fd_actc fixed))"
proof (cases "di_fixed input")
  case None
  with assms show ?thesis
    by (auto simp: computeDependentCredits_def emptyExact_def Let_def split: if_splits dest!: computedCredits_bounds)
next
  case (Some fixed)
  with assms have "fixedCredits fixed (floor0 (di_regularTax input)) (floor0 (di_careExpenses input)) c = Inr (r, c')"
    by (simp add: computeDependentCredits_def Let_def)
  note fixed = fixedCredits_amounts [OF this]
  have "0 \<le> floor0 (fd_ctcOdc fixed)" "0 \<le> floor0 (di_regularTax input)" by simp_all
  with Some fixed show ?thesis by (simp add: min_def)
qed

definition sample_family :: dependent_credits_input where
  "sample_family = \<lparr>di_dependents = [\<lparr>de_dependentId = ''d1'', de_dateOfBirth = ''2015-06-01'', de_kind = QualifyingChild,
       de_monthsLivedWith = Some 12, de_isStudent = False, de_isDisabled = False, de_firstTaxYear = None, de_lastTaxYear = None\<rparr>],
     di_filingStatus = Mfj, di_taxYear = 2025, di_agi = 60000, di_regularTax = 1000,
     di_persons = [\<lparr>ei_personId = ''p1'', ei_role = Primary, ei_earned = 60000\<rparr>], di_careExpenses = 0, di_fixed = None\<rparr>"

definition sample_credit_params :: "(string \<times> resolved) list" where
  "sample_credit_params = num_params [(''ctc.child_age_limit'', 17), (''dependents.qc_age_limit'', 19),
     (''dependents.qc_student_age_limit'', 24), (''dependents.residency_min_months'', 7), (''care.qualifying_age'', 13),
     (''ctc.amount'', 2200), (''ctc.odc_amount'', 500), (''ctc.phaseout_threshold.mfj'', 400000), (''ctc.refundable_max'', 1700),
     (''ctc.earned_income_floor'', 2500), (''ctc.earned_income_rate'', 15 / 100), (''ctc.alt_formula_min_children'', 3)] @
     [(''eitc.max_agi.mfj'', \<lparr>rp_value = JArr [JNum 57554, JNum 64430], rp_status = Verified\<rparr>)]"

lemma dependent_credits_within_tax_witness:
  "\<exists>r c'. computeDependentCredits sample_family (new_ctx sample_credit_params 2025 Mfj) = Inr (r, c') \<and>
     dc_actc r = 1200 \<and> dc_ctcOdcAllowed r = 1000 \<and> dc_taxAfterDependentCredits r = 0"
proof -
  have "(case computeDependentCredits sample_family (new_ctx sample_credit_params 2025 Mfj) of
      Inr (r, c') \<Rightarrow> dc_actc r = 1200 \<and> dc_ctcOdcAllowed r = 1000 | Inl e \<Rightarrow> False)" by code_simp
  then obtain r c' where r: "computeDependentCredits sample_family (new_ctx sample_credit_params 2025 Mfj) = Inr (r, c')"
      "dc_actc r = 1200" "dc_ctcOdcAllowed r = 1000"
    by (auto split: sum.splits)
  from dependent_credits_within_tax [OF r(1)] r show ?thesis by (auto simp: sample_family_def)
qed

end
