(* ===== verification/PyTrend.thy ===== *)
theory PyTrend
  imports FederalTypes
begin

section \<open>Prior-year trend projection (engine/py-trend.ts, projection-method.ts)\<close>

text \<open>
  The ordinary income of an entity may follow the prior year's months instead of the run rate.  Every
  guardrail that fails falls back to the run rate with its reason.
\<close>

definition PY_TREND_FACTOR_MIN :: money where "PY_TREND_FACTOR_MIN = 1 / 4"

definition PY_TREND_FACTOR_MAX :: money where "PY_TREND_FACTOR_MAX = 4"

definition PY_TREND_MIN_SAME_MONTHS_SHARE :: money where "PY_TREND_MIN_SAME_MONTHS_SHARE = 1 / 10"

definition PY_TREND_REQUIRED_ACTIVE_MONTHS :: int where "PY_TREND_REQUIRED_ACTIVE_MONTHS = 12"

record prior_year_figures =
  pf_taxYear :: int
  pf_recurringOrdinary :: "money list"
  pf_active :: "bool list"

definition priorYearTrendFor ::
  "trend_method \<Rightarrow> prior_year_figures option \<Rightarrow> int \<Rightarrow> trend_fallback option \<Rightarrow> prior_year_trend" where
  "priorYearTrendFor method figures throughMonth reason = (case (figures, reason) of
      (Some f, None) \<Rightarrow>
        let t = max 0 (min PY_TREND_REQUIRED_ACTIVE_MONTHS throughMonth); rec = pf_recurringOrdinary f in
        \<lparr>pt_method = method,
         pt_priorYear = Some \<lparr>py_taxYear = pf_taxYear f, py_throughMonth = t,
           py_sameMonthsOrdinary = sum_list (take (nat t) rec), py_remainingOrdinary = sum_list (drop (nat t) rec),
           py_monthsWithActivity = int (length (filter id (pf_active f)))\<rparr>,
         pt_unavailableReason = None\<rparr>
    | _ \<Rightarrow> \<lparr>pt_method = method, pt_priorYear = None,
        pt_unavailableReason = Some (case reason of Some r \<Rightarrow> r | None \<Rightarrow> PyUnreadable)\<rparr>)"

datatype cap_bound = CapMin | CapMax

record trend_outcome =
  to_method :: projection_method
  to_applied :: projection_method
  to_fallbackReason :: "trend_fallback option"
  to_factor :: "money option"
  to_rawFactor :: "money option"
  to_capped :: "cap_bound option"
  to_runRateOrdinary :: money
  to_projectedOrdinary :: money

record trend_figures =
  tf_ytdOrdinary :: money
  tf_recurringOrdinary :: money
  tf_monthsElapsed :: int
  tf_monthsRemaining :: int

definition runRate :: "trend_figures \<Rightarrow> money result" where
  "runRate e = (if tf_monthsElapsed e \<le> 0 \<or> tf_monthsRemaining e \<le> 0 then Inr (tf_ytdOrdinary e)
     else ebind (quo (tf_recurringOrdinary e) (of_int (tf_monthsElapsed e))) (\<lambda>r.
       Inr (tf_ytdOrdinary e + r * of_int (tf_monthsRemaining e))))"

definition fallback :: "trend_method \<Rightarrow> money \<Rightarrow> trend_fallback \<Rightarrow> trend_outcome" where
  "fallback m rr reason = \<lparr>to_method = Trend m, to_applied = RunRate, to_fallbackReason = Some reason, to_factor = None,
     to_rawFactor = None, to_capped = None, to_runRateOrdinary = rr, to_projectedOrdinary = rr\<rparr>"

definition applied_as :: "trend_method \<Rightarrow> money \<Rightarrow> money \<Rightarrow> trend_outcome" where
  "applied_as m rr x = \<lparr>to_method = Trend m, to_applied = Trend m, to_fallbackReason = None, to_factor = None,
     to_rawFactor = None, to_capped = None, to_runRateOrdinary = rr, to_projectedOrdinary = x\<rparr>"

definition clamp_factor :: "money \<Rightarrow> money \<times> cap_bound option" where
  "clamp_factor raw = (if raw < PY_TREND_FACTOR_MIN then (PY_TREND_FACTOR_MIN, Some CapMin)
     else if PY_TREND_FACTOR_MAX < raw then (PY_TREND_FACTOR_MAX, Some CapMax) else (raw, None))"

definition scaled_trend :: "trend_figures \<Rightarrow> money \<Rightarrow> prior_year_months \<Rightarrow> trend_outcome result" where
  "scaled_trend e rr py =
    (let same = py_sameMonthsOrdinary py; full = same + py_remainingOrdinary py in
     if \<not> 0 < same then Inr (fallback PriorYearScaled rr PySameMonthsNotPositive)
     else if \<bar>same\<bar> < PY_TREND_MIN_SAME_MONTHS_SHARE * \<bar>full\<bar> then Inr (fallback PriorYearScaled rr PySameMonthsSmall)
     else if \<not> 0 < tf_recurringOrdinary e then Inr (fallback PriorYearScaled rr CyRecurringNotPositive)
     else ebind (quo (tf_recurringOrdinary e) same) (\<lambda>raw.
       let (factor, capped) = clamp_factor raw in
       Inr ((applied_as PriorYearScaled rr (tf_ytdOrdinary e + py_remainingOrdinary py * factor))
         \<lparr>to_factor := Some factor, to_rawFactor := Some raw, to_capped := capped\<rparr>)))"

definition evaluatePriorYearTrend :: "trend_figures \<Rightarrow> prior_year_trend \<Rightarrow> trend_outcome result" where
  "evaluatePriorYearTrend e t = ebind (runRate e) (\<lambda>rr.
    let m = pt_method t in
    if tf_monthsRemaining e \<le> 0 then Inr (applied_as m rr (tf_ytdOrdinary e))
    else case pt_unavailableReason t of Some reason \<Rightarrow> Inr (fallback m rr reason)
    | None \<Rightarrow> (case pt_priorYear t of None \<Rightarrow> Inr (fallback m rr PyUnreadable)
    | Some py \<Rightarrow>
       if py_monthsWithActivity py \<le> 0 then Inr (fallback m rr PyBooksMissing)
       else if py_monthsWithActivity py < PY_TREND_REQUIRED_ACTIVE_MONTHS then Inr (fallback m rr PyBooksIncomplete)
       else (case m of
           PriorYearDollar \<Rightarrow> Inr (applied_as m rr (tf_ytdOrdinary e + py_remainingOrdinary py))
         | PriorYearScaled \<Rightarrow> scaled_trend e rr py)))"

definition priorYearFullOrdinary :: "prior_year_trend \<Rightarrow> money" where
  "priorYearFullOrdinary t = (case pt_priorYear t of None \<Rightarrow> 0 | Some py \<Rightarrow> py_sameMonthsOrdinary py + py_remainingOrdinary py)"

subsection \<open>What the projection guarantees\<close>

lemma priorYearTrendFor_splits:
  "priorYearFullOrdinary (priorYearTrendFor m (Some f) k None) = sum_list (pf_recurringOrdinary f)"
  by (simp add: priorYearTrendFor_def priorYearFullOrdinary_def Let_def flip: sum_list_append)

lemma quo_pos: "0 < b \<Longrightarrow> quo a b = Inr (rnd 12 (a / b))"
  by (simp add: quo_def)

lemma runRate_total: "\<exists>rr. runRate e = Inr rr \<and> (tf_monthsRemaining e \<le> 0 \<longrightarrow> rr = tf_ytdOrdinary e)"
  by (auto simp: runRate_def quo_pos)

lemma clamp_factor_range:
  "clamp_factor raw = (f, b) \<Longrightarrow> f = max PY_TREND_FACTOR_MIN (min PY_TREND_FACTOR_MAX raw) \<and> (b = None \<longleftrightarrow> f = raw)"
  by (auto simp: clamp_factor_def PY_TREND_FACTOR_MIN_def PY_TREND_FACTOR_MAX_def max_def min_def split: if_splits)

text \<open>What an outcome may be: the run rate with a reason, or the selected method within its bounds.\<close>

definition trend_ok :: "trend_figures \<Rightarrow> prior_year_trend \<Rightarrow> trend_outcome \<Rightarrow> bool" where
  "trend_ok e t r \<longleftrightarrow> to_method r = Trend (pt_method t) \<and> runRate e = Inr (to_runRateOrdinary r) \<and>
    (to_applied r = RunRate \<longleftrightarrow> to_fallbackReason r \<noteq> None) \<and>
    (to_applied r = RunRate \<longrightarrow> to_projectedOrdinary r = to_runRateOrdinary r) \<and>
    (to_applied r \<noteq> RunRate \<longrightarrow> to_applied r = to_method r \<and>
      (if tf_monthsRemaining e \<le> 0 then to_projectedOrdinary r = tf_ytdOrdinary e
       else \<exists>py. pt_priorYear t = Some py \<and> pt_unavailableReason t = None \<and> 12 \<le> py_monthsWithActivity py \<and>
         to_projectedOrdinary r = tf_ytdOrdinary e + py_remainingOrdinary py * (case to_factor r of None \<Rightarrow> 1 | Some f \<Rightarrow> f) \<and>
         (pt_method t = PriorYearScaled \<longrightarrow> (\<exists>f. to_factor r = Some f \<and> 1 / 4 \<le> f \<and> f \<le> 4 \<and>
           (to_capped r = None \<longleftrightarrow> to_rawFactor r = Some f)))))"

lemma trend_ok_fallback: "runRate e = Inr rr \<Longrightarrow> trend_ok e t (fallback (pt_method t) rr reason)"
  by (simp add: trend_ok_def fallback_def)

lemma trend_ok_scaled:
  assumes "runRate e = Inr rr" "pt_method t = PriorYearScaled" "pt_priorYear t = Some py" "pt_unavailableReason t = None"
    "12 \<le> py_monthsWithActivity py" "0 < tf_monthsRemaining e"
  shows "\<exists>r. scaled_trend e rr py = Inr r \<and> trend_ok e t r"
proof -
  obtain f b where fb: "clamp_factor (rnd 12 (tf_recurringOrdinary e / py_sameMonthsOrdinary py)) = (f, b)" by fastforce
  from clamp_factor_range [OF fb] have "1 / 4 \<le> f" "f \<le> 4"
    "b = None \<longleftrightarrow> f = rnd 12 (tf_recurringOrdinary e / py_sameMonthsOrdinary py)"
    by (auto simp: PY_TREND_FACTOR_MIN_def PY_TREND_FACTOR_MAX_def)
  then have "trend_ok e t ((applied_as PriorYearScaled rr (tf_ytdOrdinary e + py_remainingOrdinary py * f))
      \<lparr>to_factor := Some f, to_rawFactor := Some (rnd 12 (tf_recurringOrdinary e / py_sameMonthsOrdinary py)), to_capped := b\<rparr>)"
    using assms by (auto simp: trend_ok_def applied_as_def)
  moreover note fall = trend_ok_fallback [OF assms(1), of t, unfolded assms(2)]
  ultimately show ?thesis
    by (simp add: scaled_trend_def Let_def quo_pos fb)
qed

text \<open>
  C30: the trend projection never throws; it is the run rate exactly when it reports a fallback reason;
  otherwise the selected method was applied on a complete prior year, the remaining months scaled by a
  factor between 0.25 and 4 that differs from the raw one only when it is reported as capped; and a
  closed year is its year-to-date amount under every method.
\<close>

theorem trend_guarded: "\<exists>r. evaluatePriorYearTrend e t = Inr r \<and> trend_ok e t r"
proof -
  obtain rr where rr: "runRate e = Inr rr" "tf_monthsRemaining e \<le> 0 \<longrightarrow> rr = tf_ytdOrdinary e"
    using runRate_total by blast
  note fb = trend_ok_fallback [OF rr(1), of t]
  show ?thesis
  proof (cases "0 < tf_monthsRemaining e")
    case False
    with rr show ?thesis by (simp add: evaluatePriorYearTrend_def trend_ok_def applied_as_def Let_def)
  next
    case opn: True
    show ?thesis
    proof (cases "pt_unavailableReason t = None \<and> (\<exists>py. pt_priorYear t = Some py \<and> 12 \<le> py_monthsWithActivity py)")
      case False
      with rr opn fb show ?thesis
        by (auto simp: evaluatePriorYearTrend_def Let_def PY_TREND_REQUIRED_ACTIVE_MONTHS_def split: option.splits)
    next
      case True
      then obtain py where py: "pt_unavailableReason t = None" "pt_priorYear t = Some py" "12 \<le> py_monthsWithActivity py" by blast
      show ?thesis
      proof (cases "pt_method t")
        case PriorYearScaled
        with trend_ok_scaled [OF rr(1) PriorYearScaled py(2,1,3) opn] rr opn py show ?thesis
          by (auto simp: evaluatePriorYearTrend_def Let_def PY_TREND_REQUIRED_ACTIVE_MONTHS_def)
      next
        case PriorYearDollar
        with rr opn py show ?thesis
          by (auto simp: evaluatePriorYearTrend_def Let_def PY_TREND_REQUIRED_ACTIVE_MONTHS_def trend_ok_def applied_as_def)
      qed
    qed
  qed
qed

end
