(* ===== verification/Income.thy ===== *)
theory Income
  imports PyTrend "HOL-Library.AList"
begin

section \<open>Entity income, allocation and aggregation (engine/income.ts)\<close>

text \<open>
  Steps 1 and 2 of the federal calculation: the year-to-date books of each entity are projected to the
  full year, allocated to the owners by their profit or loss percentage, and summed per person with the
  wages and the adjustments.  A \<open>Map\<close> is an association list in insertion order: \<open>set\<close> is
  \<open>AList.update\<close>, which replaces in place or appends.
\<close>

subsection \<open>Characters and projection\<close>

definition characters :: "(income_character \<Rightarrow> money option) \<Rightarrow> character_amounts" where
  "characters partial = (\<lambda>k. case partial k of None \<Rightarrow> 0 | Some x \<Rightarrow> x)"

definition sumCharacters :: "character_amounts \<Rightarrow> money" where
  "sumCharacters c = sum_list (map c INCOME_CHARACTERS)"

definition mapCharacters :: "character_amounts \<Rightarrow> (money \<Rightarrow> income_character \<Rightarrow> money) \<Rightarrow> character_amounts" where
  "mapCharacters c f = (\<lambda>k. f (c k) k)"

definition addCharacters :: "character_amounts \<Rightarrow> character_amounts \<Rightarrow> character_amounts" where
  "addCharacters a b = mapCharacters a (\<lambda>v k. v + b k)"

text \<open>The divisor of the run rate is positive where it is used, so the division is the rounded quotient.\<close>

definition projectAmount :: "money \<Rightarrow> money \<Rightarrow> int \<Rightarrow> int \<Rightarrow> money" where
  "projectAmount ytd recurringYtd monthsElapsed monthsRemaining =
    (if monthsElapsed \<le> 0 \<or> monthsRemaining \<le> 0 then ytd
     else let runRate = rnd 12 (recurringYtd / of_int monthsElapsed) in ytd + runRate * of_int monthsRemaining)"

definition projectCharacters :: "character_amounts \<Rightarrow> character_amounts \<Rightarrow> int \<Rightarrow> int \<Rightarrow> character_amounts" where
  "projectCharacters ytd recurringYtd monthsElapsed monthsRemaining =
    mapCharacters ytd (\<lambda>v k. projectAmount v (recurringYtd k) monthsElapsed monthsRemaining)"

definition projectWhole :: "money \<Rightarrow> engine_entity \<Rightarrow> money" where
  "projectWhole ytd e = projectAmount ytd ytd (ee_monthsElapsed e) (ee_monthsRemaining e)"

subsection \<open>Allocation\<close>

record allocated_share =
  al_linkId :: string
  al_personId :: string
  al_entityType :: entity_type
  al_activityType :: activity_type
  al_partnerSeStatus :: "partner_se_status option"
  al_isOfficer :: bool
  al_profitFraction :: money
  al_lossFraction :: money
  al_share :: character_amounts
  al_guaranteedPayment :: money
  al_officerWages :: money
  al_sehiAsW2Wages :: money
  al_ownerSehi :: money
  al_ownerRetirement :: money
  al_seIncome :: money
  al_qbiEligible :: "bool option"
  al_activeParticipation :: bool
  al_allowedLossOverride :: "money option"

record allocated_entity =
  ae_entity :: engine_entity
  ae_projected :: character_amounts
  ae_projectedProfit :: money
  ae_shares :: "allocated_share list"
  ae_trend :: "trend_outcome option"
  ae_runRateProjectedProfit :: "money option"

definition SE_PARTNER_STATUSES :: "partner_se_status \<Rightarrow> bool" where
  "SE_PARTNER_STATUSES s \<longleftrightarrow> s = PseGeneral \<or> s = PseLlcMemberManager"

definition entityId :: "engine_entity \<Rightarrow> string" where
  "entityId e = ee_tenantId e @ '':'' @ ee_companyId e"

definition linkFractions :: "engine_entity \<Rightarrow> (string \<times> money \<times> money) list eng" where
  "linkFractions e = (let single = (length (ee_links e) = 1) in
    cfold (\<lambda>l out.
      cbind (case li_profitPct l of
          None \<Rightarrow> if single then cret 1
            else cbind (warn ''TE_LINK_PCT_MISSING'' (Some [(''entityId'', DText (entityId e)), (''linkId'', DText (li_linkId l))])) (\<lambda>_. cret 0)
        | Some p \<Rightarrow> cret (p / 100)) (\<lambda>profit.
      let loss = (case li_lossPct l of None \<Rightarrow> profit | Some q \<Rightarrow> q / 100) in
      cret (AList.update (li_linkId l) (profit, loss) out))) (ee_links e) [])"

definition has_text :: "string option \<Rightarrow> bool" where
  "has_text s \<longleftrightarrow> (case s of None \<Rightarrow> False | Some t \<Rightarrow> t \<noteq> [])"

definition ownerPerson :: "engine_entity \<Rightarrow> string option \<Rightarrow> string eng" where
  "ownerPerson e personId =
    (if has_text personId then resolvePerson personId
     else case ee_links e of [l] \<Rightarrow> cret (li_personId l)
     | _ \<Rightarrow> cbind (warn ''TE_OWNER_ITEM_UNATTRIBUTED'' (Some [(''entityId'', DText (entityId e))])) (\<lambda>_. resolvePerson None))"

definition amount_of :: "(string \<times> money) list \<Rightarrow> string \<Rightarrow> money" where
  "amount_of m k = (case map_of m k of None \<Rightarrow> 0 | Some x \<Rightarrow> x)"

definition sumTo :: "(string \<times> money) list \<Rightarrow> string \<Rightarrow> money \<Rightarrow> (string \<times> money) list" where
  "sumTo m personId amount = AList.update personId (amount_of m personId + amount) m"

definition adjustmentCharacter :: "engine_adjustment \<Rightarrow> income_character" where
  "adjustmentCharacter a = (if aj_isCapitalGainLt a then CapitalGainLt else if aj_isCapitalGainSt a then CapitalGainSt
     else if aj_is1231 a then Section1231 else if aj_isQualifiedDividend a then DividendsQualified
     else if aj_typeCode a = Some ''interest_income'' then Interest else Ordinary)"

definition adjustmentEffect :: "engine_adjustment \<Rightarrow> money" where
  "adjustmentEffect a = (case aj_kind a of AdjDeduction \<Rightarrow> - aj_amount a
     | AdjAddback \<Rightarrow> aj_amount a * (case aj_pct a of None \<Rightarrow> 1 | Some p \<Rightarrow> p / 100) | AdjIncome \<Rightarrow> aj_amount a)"

definition adjustment_target :: "engine_adjustment \<Rightarrow> income_character" where
  "adjustment_target a = (if aj_kind a = AdjIncome then adjustmentCharacter a else Ordinary)"

definition itrace :: "string \<Rightarrow> string \<Rightarrow> money \<Rightarrow> trace_source \<Rightarrow> string option \<Rightarrow> string option \<Rightarrow> unit eng" where
  "itrace step ident x src person entity = trace_add ((row step ident x src)\<lparr>tr_person := person, tr_entity := entity\<rparr>)"

text \<open>One adjustment of a link; the flag says whether the book depreciation was already taken out.\<close>

definition link_adjustment :: "money \<Rightarrow> money \<Rightarrow> engine_entity \<Rightarrow> string \<Rightarrow> string \<Rightarrow> engine_adjustment \<Rightarrow>
    character_amounts \<times> money \<times> bool \<Rightarrow> (character_amounts \<times> money \<times> bool) eng" where
  "link_adjustment fraction bookDepreciation e linkId personId a = (\<lambda>(out, se, swapped).
    let dep = (aj_typeCode a = Some ''depreciation_tax_vs_book'');
        effect = adjustmentEffect a + (if dep \<and> \<not> swapped then - bookDepreciation * fraction else 0);
        character = (if dep then Ordinary else adjustment_target a) in
    cbind (itrace ''allocation'' (''adjustment.'' @ aj_id a) effect SrcAdjustment (Some personId)
      (Some (entityId e @ ''#'' @ linkId))) (\<lambda>_.
    cret (out(character := out character + effect),
      if aj_affectsSe a \<and> character = Ordinary then se + effect else se, swapped \<or> dep)))"

definition applyLinkAdjustments :: "character_amounts \<Rightarrow> money \<Rightarrow> money \<Rightarrow> money \<Rightarrow> engine_adjustment list \<Rightarrow> engine_entity \<Rightarrow>
    string \<Rightarrow> string \<Rightarrow> (character_amounts \<times> money) eng" where
  "applyLinkAdjustments share seIncome fraction bookDepreciation adjustments e linkId personId =
    cbind (cfold (link_adjustment fraction bookDepreciation e linkId personId) adjustments (share, seIncome, False))
      (\<lambda>(out, se, _). cret (out, se))"

definition seIncomeFor :: "entity_type \<Rightarrow> partner_se_status option \<Rightarrow> money \<Rightarrow> money \<Rightarrow> money" where
  "seIncomeFor entityType status ordinaryShare guaranteedPayment = (case entityType of
      SchC \<Rightarrow> ordinaryShare | SchF \<Rightarrow> ordinaryShare
    | Partnership \<Rightarrow> (case status of None \<Rightarrow> ordinaryShare + guaranteedPayment
        | Some s \<Rightarrow> if SE_PARTNER_STATUSES s then ordinaryShare + guaranteedPayment else guaranteedPayment)
    | _ \<Rightarrow> 0)"

text \<open>The amounts of a list of owner-level items, per person.\<close>

definition add_person_amount :: "engine_entity \<Rightarrow> person_amount \<Rightarrow> (string \<times> money) list \<Rightarrow> (string \<times> money) list eng" where
  "add_person_amount e g m = cbind (ownerPerson e (pa_personId g)) (\<lambda>pid. cret (sumTo m pid (projectWhole (pa_amount g) e)))"

definition per_person :: "engine_entity \<Rightarrow> person_amount list \<Rightarrow> (string \<times> money) list eng" where
  "per_person e items = cfold (add_person_amount e) items []"

type_synonym owner_maps = "(string \<times> money) list \<times> (string \<times> money) list \<times> (string \<times> money) list"

definition add_owner_item :: "engine_entity \<Rightarrow> owner_item \<Rightarrow> owner_maps \<Rightarrow> owner_maps eng" where
  "add_owner_item e i = (\<lambda>(sehi, retirement, sehiW2). cbind (ownerPerson e (oi_personId i)) (\<lambda>pid.
     cret (sumTo sehi pid (projectWhole (oi_sehi i) e), sumTo retirement pid (projectWhole (oi_retirement i) e),
       sumTo sehiW2 pid (projectWhole (oi_sehiAsW2Wages i) e))))"

definition owner_item_maps :: "engine_entity \<Rightarrow> owner_maps eng" where
  "owner_item_maps e = cfold (add_owner_item e) (ee_ownerItems e) ([], [], [])"

record owner_amounts =
  om_gp :: "(string \<times> money) list"
  om_wages :: "(string \<times> money) list"
  om_sehi :: "(string \<times> money) list"
  om_retirement :: "(string \<times> money) list"
  om_sehiW2 :: "(string \<times> money) list"

definition owner_amounts_of :: "engine_entity \<Rightarrow> owner_amounts eng" where
  "owner_amounts_of e =
    cbind (per_person e (ee_guaranteedPayments e)) (\<lambda>gp.
    cbind (per_person e (ee_officerWages e)) (\<lambda>wages.
    cbind (owner_item_maps e) (\<lambda>(sehi, retirement, sehiW2).
    cret \<lparr>om_gp = gp, om_wages = wages, om_sehi = sehi, om_retirement = retirement, om_sehiW2 = sehiW2\<rparr>)))"

definition link_share :: "engine_entity \<Rightarrow> engine_adjustment list \<Rightarrow> character_amounts \<Rightarrow> bool \<Rightarrow> (string \<times> money \<times> money) list \<Rightarrow>
    owner_amounts \<Rightarrow> engine_link \<Rightarrow> allocated_share eng" where
  "link_share e adjustments projected useLoss fractions own l =
    cbind (resolvePerson (Some (li_personId l))) (\<lambda>personId.
    let (profit, loss) = the (map_of fractions (li_linkId l));
        fraction = (if useLoss then loss else profit);
        base = mapCharacters projected (\<lambda>v _. v * fraction);
        gp = amount_of (om_gp own) personId;
        linkAdjustments = filter (\<lambda>a. aj_linkId a = Some (li_linkId l)) adjustments;
        eid = entityId e in
    cbind (applyLinkAdjustments base (seIncomeFor (ee_entityType e) (li_partnerSeStatus l) (base Ordinary) gp) fraction
      (projectWhole (ee_taxDepreciationBookYtd e) e) linkAdjustments e (li_linkId l) personId) (\<lambda>(share, se).
    let s = \<lparr>al_linkId = li_linkId l, al_personId = personId, al_entityType = ee_entityType e, al_activityType = li_activityType l,
         al_partnerSeStatus = li_partnerSeStatus l, al_isOfficer = li_isOfficer l, al_profitFraction = profit, al_lossFraction = loss,
         al_share = share, al_guaranteedPayment = gp, al_officerWages = amount_of (om_wages own) personId,
         al_sehiAsW2Wages = amount_of (om_sehiW2 own) personId, al_ownerSehi = amount_of (om_sehi own) personId,
         al_ownerRetirement = amount_of (om_retirement own) personId, al_seIncome = se, al_qbiEligible = li_qbiEligible l,
         al_activeParticipation = li_activeParticipation l, al_allowedLossOverride = li_allowedLossOverride l\<rparr> in
    cbind (itrace ''allocation'' (''share.'' @ li_linkId l) (sumCharacters share) SrcInput (Some personId) (Some eid)) (\<lambda>_.
    cbind (cwhen (0 < gp) (itrace ''allocation'' (''gp.'' @ li_linkId l) gp SrcGlMap (Some personId) (Some eid))) (\<lambda>_.
    cbind (cwhen (0 < al_officerWages s)
      (itrace ''allocation'' (''officer_wages.'' @ li_linkId l) (al_officerWages s) SrcGlMap (Some personId) (Some eid))) (\<lambda>_.
    cbind (cwhen (0 < al_sehiAsW2Wages s)
      (itrace ''allocation'' (''sehi_w2.'' @ li_linkId l) (al_sehiAsW2Wages s) SrcGlMap (Some personId) (Some eid))) (\<lambda>_.
    cret s))))))"

text \<open>Persons with owner-level amounts and no link get an empty share that carries them.\<close>

definition bare_share :: "engine_entity \<Rightarrow> owner_amounts \<Rightarrow> string \<Rightarrow> allocated_share" where
  "bare_share e own pid = \<lparr>al_linkId = entityId e @ '':'' @ pid, al_personId = pid, al_entityType = ee_entityType e,
     al_activityType = ActActive, al_partnerSeStatus = None, al_isOfficer = False, al_profitFraction = 0, al_lossFraction = 0,
     al_share = characters (\<lambda>_. None), al_guaranteedPayment = amount_of (om_gp own) pid,
     al_officerWages = amount_of (om_wages own) pid, al_sehiAsW2Wages = amount_of (om_sehiW2 own) pid,
     al_ownerSehi = amount_of (om_sehi own) pid, al_ownerRetirement = amount_of (om_retirement own) pid,
     al_seIncome = seIncomeFor (ee_entityType e) None 0 (amount_of (om_gp own) pid), al_qbiEligible = Some False,
     al_activeParticipation = False, al_allowedLossOverride = None\<rparr>"

definition unlinked_share :: "engine_entity \<Rightarrow> owner_amounts \<Rightarrow> string \<Rightarrow> allocated_share list \<Rightarrow> allocated_share list eng" where
  "unlinked_share e own pid shares =
    (if pid \<in> set (map al_personId shares) then cret shares
     else cbind (warn ''TE_OWNER_ITEM_NO_LINK'' (Some [(''entityId'', DText (entityId e)), (''personId'', DText pid)])) (\<lambda>_.
       cret (shares @ [bare_share e own pid])))"

definition owner_keys :: "owner_amounts \<Rightarrow> string list" where
  "owner_keys own = map fst (om_gp own) @ map fst (om_wages own) @ map fst (om_sehi own) @ map fst (om_retirement own)"

definition trend_method_text :: "trend_method \<Rightarrow> string" where
  "trend_method_text m = (case m of PriorYearScaled \<Rightarrow> ''prior_year_scaled'' | PriorYearDollar \<Rightarrow> ''prior_year_dollar'')"

definition trend_fallback_text :: "trend_fallback \<Rightarrow> string" where
  "trend_fallback_text r = (case r of NotSupportedEntity \<Rightarrow> ''not_supported_entity'' | PyUnreadable \<Rightarrow> ''py_unreadable''
     | PyBooksMissing \<Rightarrow> ''py_books_missing'' | PyBooksIncomplete \<Rightarrow> ''py_books_incomplete''
     | PySameMonthsNotPositive \<Rightarrow> ''py_same_months_not_positive'' | PySameMonthsSmall \<Rightarrow> ''py_same_months_small''
     | CyRecurringNotPositive \<Rightarrow> ''cy_recurring_not_positive'')"

definition opt_amt :: "money option \<Rightarrow> dval" where
  "opt_amt x = (case x of None \<Rightarrow> DNull | Some q \<Rightarrow> DAmt q)"

definition traceTrend :: "engine_entity \<Rightarrow> prior_year_trend \<Rightarrow> trend_outcome \<Rightarrow> unit eng" where
  "traceTrend e sel t = (let eid = entityId e in
    cbind (case to_fallbackReason t of None \<Rightarrow> cret ()
      | Some r \<Rightarrow> warn ''TE_PY_TREND_FALLBACK'' (Some [(''entityId'', DText eid), (''method'', DText (trend_method_text (pt_method sel))),
          (''reason'', DText (trend_fallback_text r))])) (\<lambda>_.
    cbind (case to_capped t of None \<Rightarrow> cret ()
      | Some b \<Rightarrow> info ''TE_PY_TREND_CAPPED'' (Some [(''entityId'', DText eid), (''rawFactor'', opt_amt (to_rawFactor t)),
          (''factor'', opt_amt (to_factor t)), (''bound'', DText (case b of CapMin \<Rightarrow> ''min'' | CapMax \<Rightarrow> ''max''))])) (\<lambda>_.
    cbind (cwhen (pt_priorYear sel \<noteq> None)
      (itrace ''entity_income'' (''entity.'' @ eid @ ''.py_trend'') (priorYearFullOrdinary sel) SrcGlMap None (Some eid))) (\<lambda>_.
    itrace ''entity_income'' (''entity.'' @ eid @ ''.ordinary.run_rate'') (to_runRateOrdinary t) SrcGlMap None (Some eid)))))"

definition entity_figures :: "engine_entity \<Rightarrow> trend_figures" where
  "entity_figures e = \<lparr>tf_ytdOrdinary = ee_ytd e Ordinary, tf_recurringOrdinary = ee_recurringYtd e Ordinary,
     tf_monthsElapsed = ee_monthsElapsed e, tf_monthsRemaining = ee_monthsRemaining e\<rparr>"

definition entity_trend :: "engine_entity \<Rightarrow> trend_outcome option result" where
  "entity_trend e = (case ee_priorYearTrend e of None \<Rightarrow> Inr None
     | Some t \<Rightarrow> ebind (evaluatePriorYearTrend (entity_figures e) t) (\<lambda>r. Inr (Some r)))"

definition allocateEntity :: "engine_entity \<Rightarrow> engine_adjustment list \<Rightarrow> allocated_entity eng" where
  "allocateEntity e adjustments =
    (let eid = entityId e;
         runRated = projectCharacters (ee_ytd e) (ee_recurringYtd e) (ee_monthsElapsed e) (ee_monthsRemaining e) in
     cbind (clift (entity_trend e)) (\<lambda>trend.
     let projected = (case trend of None \<Rightarrow> runRated | Some t \<Rightarrow> runRated(Ordinary := to_projectedOrdinary t));
         projectedProfit = sumCharacters projected in
     cbind (cwhen (ee_monthsElapsed e \<le> 0) (warn ''TE_NO_MONTHS_ELAPSED'' (Some [(''entityId'', DText eid)]))) (\<lambda>_.
     cbind (cdo (\<lambda>w. warn_sev (w_code w) (w_details w) (w_severity w)) (ee_warnings e)) (\<lambda>_.
     cbind (case (trend, ee_priorYearTrend e) of (Some t, Some sel) \<Rightarrow> traceTrend e sel t | _ \<Rightarrow> cret ()) (\<lambda>_.
     cbind (cdo (\<lambda>k. cwhen (\<not> (projected k = 0 \<and> ee_ytd e k = 0))
       (itrace ''entity_income'' (''entity.'' @ eid @ ''.'' @ character_text k) (projected k)
         (if ee_outside e then SrcInput else SrcGlMap) None (Some eid))) INCOME_CHARACTERS) (\<lambda>_.
     cbind (linkFractions e) (\<lambda>fractions.
     let useLoss = (projectedProfit < 0) in
     cbind (cwhen (useLoss \<and> list_ex (\<lambda>k. 0 < projected k) INCOME_CHARACTERS)
       (info ''TE_LOSS_PCT_ALL_ITEMS'' (Some [(''entityId'', DText eid)]))) (\<lambda>_.
     cbind (owner_amounts_of e) (\<lambda>own.
     cbind (cmap (link_share e adjustments projected useLoss fractions own) (ee_links e)) (\<lambda>linked.
     cbind (cfold (unlinked_share e own) (owner_keys own) linked) (\<lambda>shares.
     cret \<lparr>ae_entity = e, ae_projected = projected, ae_projectedProfit = projectedProfit, ae_shares = shares,
       ae_trend = trend, ae_runRateProjectedProfit = map_option (\<lambda>_. sumCharacters runRated) trend\<rparr>)))))))))))"

subsection \<open>Aggregation per person\<close>

record person_income =
  pi_personId :: string
  pi_wages :: money
  pi_socialSecurityWages :: money
  pi_character :: character_amounts
  pi_guaranteedPayments :: money
  pi_seIncome :: money
  pi_reitDividends :: money
  pi_ptpIncome :: money
  pi_sehiPremiums :: money
  pi_retirementContributions :: money
  pi_hsaContributions :: money
  pi_otherAboveTheLine :: money
  pi_shares :: "allocated_share list"

type_synonym by_person = "(string \<times> person_income) list"

record aggregated_income =
  ag_byPerson :: by_person
  ag_otherAboveTheLine :: money
  ag_itemizedOther :: money

definition RETIREMENT_CODES :: "string \<Rightarrow> bool" where
  "RETIREMENT_CODES c \<longleftrightarrow> c = ''sep_solo_401k'' \<or> c = ''retirement_catch_up''"

definition person_start :: "engine_person \<Rightarrow> person_income" where
  "person_start p = \<lparr>pi_personId = en_personId p, pi_wages = en_w2Wages p,
     pi_socialSecurityWages = (case en_w2SocialSecurityWages p of None \<Rightarrow> en_w2Wages p | Some w \<Rightarrow> w),
     pi_character = characters (\<lambda>_. None), pi_guaranteedPayments = 0, pi_seIncome = 0, pi_reitDividends = 0, pi_ptpIncome = 0,
     pi_sehiPremiums = 0, pi_retirementContributions = 0, pi_hsaContributions = 0, pi_otherAboveTheLine = 0, pi_shares = []\<rparr>"

definition start_person :: "engine_person \<Rightarrow> by_person \<Rightarrow> by_person eng" where
  "start_person p m = cbind (cwhen (0 < en_w2Wages p)
      (itrace ''entity_income'' (''wages.'' @ en_personId p) (en_w2Wages p) SrcInput (Some (en_personId p)) None)) (\<lambda>_.
    cret (AList.update (en_personId p) (person_start p) m))"

text \<open>\<open>get\<close> gives the record of a person and the key it is stored under.\<close>

definition get_person :: "by_person \<Rightarrow> string \<Rightarrow> (string \<times> person_income) eng" where
  "get_person m pid = cbind (resolvePerson (Some pid)) (\<lambda>r.
     case map_of m r of None \<Rightarrow> cthrow (JsError ''TE_NO_PERSONS'' []) | Some p \<Rightarrow> cret (r, p))"

definition add_share :: "allocated_share \<Rightarrow> person_income \<Rightarrow> person_income" where
  "add_share s p = (let ch = addCharacters (pi_character p) (al_share s) in
     p\<lparr>pi_character := ch(Ordinary := ch Ordinary + al_guaranteedPayment s),
       pi_guaranteedPayments := pi_guaranteedPayments p + al_guaranteedPayment s,
       pi_seIncome := pi_seIncome p + al_seIncome s,
       pi_wages := pi_wages p + (al_officerWages s + al_sehiAsW2Wages s),
       pi_socialSecurityWages := pi_socialSecurityWages p + al_officerWages s,
       pi_sehiPremiums := pi_sehiPremiums p + al_ownerSehi s,
       pi_retirementContributions := pi_retirementContributions p + al_ownerRetirement s,
       pi_shares := pi_shares p @ [s]\<rparr>)"

definition aggregate_share :: "allocated_share \<Rightarrow> by_person \<Rightarrow> by_person eng" where
  "aggregate_share s m = cbind (get_person m (al_personId s)) (\<lambda>(r, p). cret (AList.update r (add_share s p) m))"

text \<open>Where a deduction without a link goes: a pool of the person, or one of the taxpayer.\<close>

datatype deduction_pool = PoolSehi | PoolRetirement | PoolHsa | PoolPerson | PoolTaxpayer | PoolItemized

definition pool_of :: "engine_adjustment \<Rightarrow> deduction_pool" where
  "pool_of a = (if aj_typeCode a = Some ''owner_health_insurance'' then PoolSehi
     else if (case aj_typeCode a of None \<Rightarrow> False | Some t \<Rightarrow> t \<noteq> [] \<and> RETIREMENT_CODES t) then PoolRetirement
     else if aj_typeCode a = Some ''hsa_contribution'' then PoolHsa
     else if aj_isAboveTheLine a then (if has_text (aj_personId a) then PoolPerson else PoolTaxpayer)
     else PoolItemized)"

definition person_deduction :: "deduction_pool \<Rightarrow> money \<Rightarrow> person_income \<Rightarrow> person_income" where
  "person_deduction pool x p = (case pool of
      PoolSehi \<Rightarrow> p\<lparr>pi_sehiPremiums := pi_sehiPremiums p + x\<rparr>
    | PoolRetirement \<Rightarrow> p\<lparr>pi_retirementContributions := pi_retirementContributions p + x\<rparr>
    | PoolHsa \<Rightarrow> p\<lparr>pi_hsaContributions := pi_hsaContributions p + x\<rparr>
    | PoolPerson \<Rightarrow> p\<lparr>pi_otherAboveTheLine := pi_otherAboveTheLine p + x\<rparr>
    | _ \<Rightarrow> p)"

definition person_adjustment :: "engine_adjustment \<Rightarrow> person_income \<Rightarrow> person_income" where
  "person_adjustment a p = (let effect = adjustmentEffect a; k = adjustment_target a in
     p\<lparr>pi_character := (pi_character p)(k := pi_character p k + effect),
       pi_reitDividends := (if aj_isReitDividend a then pi_reitDividends p + effect else pi_reitDividends p),
       pi_ptpIncome := (if aj_isPtp a then pi_ptpIncome p + effect else pi_ptpIncome p),
       pi_seIncome := (if aj_affectsSe a \<and> k = Ordinary then pi_seIncome p + effect else pi_seIncome p)\<rparr>)"

definition note_deduction :: "engine_adjustment \<Rightarrow> deduction_pool \<Rightarrow> unit eng" where
  "note_deduction a pool =
    (let tr = itrace ''entity_income'' (''adjustment.'' @ aj_id a) (- aj_amount a) SrcAdjustment (aj_personId a) None in
     if pool = PoolPerson \<or> pool = PoolTaxpayer then tr
     else if pool = PoolItemized then
       cbind (info ''TE_ADJUSTMENT_UNLINKED_DEDUCTION'' (Some [(''adjustmentId'', DText (aj_id a))])) (\<lambda>_. tr)
     else cret ())"

definition aggregate_adjustment :: "engine_adjustment \<Rightarrow> aggregated_income \<Rightarrow> aggregated_income eng" where
  "aggregate_adjustment a agg =
    (if has_text (aj_linkId a) then cret agg
     else cbind (resolvePerson (aj_personId a)) (\<lambda>pid.
       cbind (get_person (ag_byPerson agg) pid) (\<lambda>(r, p).
       if aj_kind a = AdjDeduction then
         let pool = pool_of a in
         cbind (note_deduction a pool) (\<lambda>_.
         cret \<lparr>ag_byPerson = AList.update r (person_deduction pool (aj_amount a) p) (ag_byPerson agg),
           ag_otherAboveTheLine = ag_otherAboveTheLine agg + (if pool = PoolTaxpayer then aj_amount a else 0),
           ag_itemizedOther = ag_itemizedOther agg + (if pool = PoolItemized then aj_amount a else 0)\<rparr>)
       else
         cbind (itrace ''entity_income'' (''adjustment.'' @ aj_id a) (adjustmentEffect a) SrcAdjustment (Some pid) None) (\<lambda>_.
         cret (agg\<lparr>ag_byPerson := AList.update r (person_adjustment a p) (ag_byPerson agg)\<rparr>)))))"

definition aggregatePersons ::
  "allocated_entity list \<Rightarrow> engine_person list \<Rightarrow> engine_adjustment list \<Rightarrow> aggregated_income eng" where
  "aggregatePersons entities persons adjustments =
    cbind (cfold start_person persons []) (\<lambda>start.
    cbind (cfold (\<lambda>ae. cfold aggregate_share (ae_shares ae)) entities start) (\<lambda>m.
    cfold aggregate_adjustment adjustments \<lparr>ag_byPerson = m, ag_otherAboveTheLine = 0, ag_itemizedOther = 0\<rparr>))"

subsection \<open>Net income by character\<close>

record income_exact =
  in_wages :: money
  in_businessOrdinary :: money
  in_guaranteedPayments :: money
  in_rental :: money
  in_interest :: money
  in_dividends :: money
  in_qualifiedDividends :: money
  in_capitalGainShortTerm :: money
  in_capitalGainLongTerm :: money
  in_section1231 :: money
  in_capitalGainNet :: money
  in_capitalLossDisallowed :: money
  in_otherIncome :: money
  in_totalIncome :: money
  in_netLongTermGainForWorksheet :: money

definition capitalNetting :: "money \<Rightarrow> (money \<times> money) eng" where
  "capitalNetting netGain =
    (if netGain < 0 then
       cbind (cget cx_fs) (\<lambda>fs.
       let limitKey = (if fs = Mfs then ''capital_loss.limit.mfs'' else ''capital_loss.limit.standard'') in
       cbind (p_money limitKey) (\<lambda>limit.
       let net = max netGain (- limit); disallowed = net - netGain in
       cbind (cwhen (0 < disallowed) (warn ''TE_CAPITAL_LOSS_LIMITED'' (Some [(''disallowed'', DAmt disallowed)]))) (\<lambda>_.
       cbind (trace_add ((row ''entity_income'' ''capital_gain_net'' net SrcParameter)\<lparr>tr_keys := Some [limitKey]\<rparr>)) (\<lambda>_.
       cret (net, disallowed)))))
     else cbind (cwhen (netGain \<noteq> 0) (itrace ''entity_income'' ''capital_gain_net'' netGain SrcInput None None)) (\<lambda>_.
       cret (netGain, 0)))"

definition netIncome :: "person_income list \<Rightarrow> income_exact eng" where
  "netIncome persons =
    (let total = foldl (\<lambda>acc p. addCharacters acc (pi_character p)) (characters (\<lambda>_. None)) persons;
         wages = sum_list (map pi_wages persons);
         guaranteedPayments = sum_list (map pi_guaranteedPayments persons);
         s1231 = total Section1231;
         ordinaryFrom1231 = (if s1231 < 0 then s1231 else 0);
         ltFrom1231 = (if 0 < s1231 then s1231 else 0);
         businessOrdinary = total Ordinary + ordinaryFrom1231;
         st = total CapitalGainSt;
         lt = total CapitalGainLt + ltFrom1231;
         netGain = st + lt in
     cbind (capitalNetting netGain) (\<lambda>(capitalGainNet, disallowed).
     let worksheet = (if 0 < lt \<and> 0 < netGain then min lt netGain else 0);
         dividends = total DividendsOrdinary + total DividendsQualified;
         totalIncome = sum_list [wages, businessOrdinary, total Rental, total Interest, dividends, capitalGainNet] in
     cbind (itrace ''entity_income'' ''total_income'' totalIncome SrcGlMap None None) (\<lambda>_.
     cret \<lparr>in_wages = wages, in_businessOrdinary = businessOrdinary, in_guaranteedPayments = guaranteedPayments,
       in_rental = total Rental, in_interest = total Interest, in_dividends = dividends,
       in_qualifiedDividends = total DividendsQualified, in_capitalGainShortTerm = st, in_capitalGainLongTerm = lt,
       in_section1231 = s1231, in_capitalGainNet = capitalGainNet, in_capitalLossDisallowed = disallowed, in_otherIncome = 0,
       in_totalIncome = totalIncome, in_netLongTermGainForWorksheet = worksheet\<rparr>)))"

lemma sound_itrace [eng_sound]: "sound (itrace step ident x src person entity)"
  by (simp add: itrace_def sound_trace_add)

lemma sound_note_deduction [eng_sound]: "sound (note_deduction a pool)"
  unfolding note_deduction_def Let_def by (intro eng_sound)

lemma sound_capitalNetting [eng_sound]: "sound (capitalNetting netGain)"
  unfolding capitalNetting_def by (intro eng_sound)

lemma sound_allocateEntity [eng_sound]: "sound (allocateEntity e adjustments)"
  unfolding allocateEntity_def owner_amounts_of_def per_person_def owner_item_maps_def add_person_amount_def add_owner_item_def ownerPerson_def link_share_def
    applyLinkAdjustments_def link_adjustment_def unlinked_share_def traceTrend_def linkFractions_def
  by (intro eng_sound)

lemma sound_aggregatePersons [eng_sound]: "sound (aggregatePersons es ps as)"
  unfolding aggregatePersons_def start_person_def aggregate_share_def get_person_def aggregate_adjustment_def
  by (intro eng_sound)

lemma sound_netIncome [eng_sound]: "sound (netIncome ps)"
  unfolding netIncome_def by (intro eng_sound)

subsection \<open>The owner-level amounts are conserved\<close>

lemma sum_update:
  "sum_list (map (f \<circ> snd) (AList.update k v m)) = sum_list (map (f \<circ> snd) m) - (case map_of m k of None \<Rightarrow> 0 | Some x \<Rightarrow> f x) + (f v :: money)"
  by (induction m) (auto split: option.splits)

definition total_of :: "(string \<times> money) list \<Rightarrow> money" where
  "total_of m = sum_list (map snd m)"

lemma total_sumTo [simp]: "total_of (sumTo m p x) = total_of m + x"
  using sum_update [of "\<lambda>x. x" p "amount_of m p + x" m]
  by (auto simp: total_of_def sumTo_def amount_of_def comp_def split: option.splits)

lemma distinct_sumTo: "distinct (map fst m) \<Longrightarrow> distinct (map fst (sumTo m p x))"
  by (simp add: sumTo_def distinct_update)

lemma keys_sumTo: "fst ` set (sumTo m p x) = insert p (fst ` set m)"
  by (simp add: sumTo_def dom_update)

text \<open>A map whose keys are all among distinct persons is summed by looking every person up.\<close>

lemma amounts_over_persons:
  assumes "distinct (map fst m)" "fst ` set m \<subseteq> set ps" "distinct ps"
  shows "sum_list (map (amount_of m) ps) = total_of m"
  using assms
proof (induction m arbitrary: ps)
  case Nil
  have "sum_list (map (amount_of []) ps) = 0" by (induction ps) (simp_all add: amount_of_def)
  then show ?case by (simp add: total_of_def)
next
  case (Cons kv m)
  obtain k x where kv: "kv = (k, x)" by (cases kv)
  from Cons.prems kv have k: "k \<in> set ps" "k \<notin> fst ` set m" by auto
  then obtain as bs where ps: "ps = as @ k # bs" by (meson split_list)
  have other: "map (amount_of (kv # m)) qs = map (amount_of m) qs" if "k \<notin> set qs" for qs
    using that by (intro map_cong) (auto simp: amount_of_def kv)
  have "amount_of m k = 0" using k(2) by (simp add: amount_of_def split: option.split) (metis domI dom_map_of_conv_image_fst)
  moreover have "sum_list (map (amount_of m) (as @ k # bs)) = total_of m"
    using Cons.IH [of ps] Cons.prems k(2) ps kv by auto
  moreover have "k \<notin> set as" "k \<notin> set bs" using Cons.prems(3) ps by auto
  moreover have "sum_list (map (amount_of (kv # m)) ps) =
      sum_list (map (amount_of m) as) + amount_of (kv # m) k + sum_list (map (amount_of m) bs)"
    using other [OF \<open>k \<notin> set as\<close>] other [OF \<open>k \<notin> set bs\<close>]
    by (simp only: ps map_append list.map sum_list_append sum_list.Cons add.assoc)
  moreover have "amount_of (kv # m) k = x" by (simp add: amount_of_def kv)
  ultimately show ?case by (simp add: total_of_def kv)
qed

lemma per_person_total:
  assumes "cfold (add_person_amount e) items m c = Inr (m', c')" and "distinct (map fst m)"
  shows "total_of m' = total_of m + sum_list (map (\<lambda>g. projectWhole (pa_amount g) e) items) \<and> distinct (map fst m')"
  using assms
proof (induction items arbitrary: m c)
  case (Cons g items)
  from Cons.prems(1) obtain pid c1 where "cfold (add_person_amount e) items (sumTo m pid (projectWhole (pa_amount g) e)) c1 = Inr (m', c')"
    by (auto simp: cbind_apply ebind_Inr_iff add_person_amount_def [of e g])
  from Cons.IH [OF this distinct_sumTo [OF Cons.prems(2)]] show ?case by simp
qed simp

lemma owner_items_total:
  assumes "cfold (add_owner_item e) items (h, t, w) c = Inr ((h', t', w'), c')"
    and "distinct (map fst h)" "distinct (map fst t)" "distinct (map fst w)" "fst ` set w = fst ` set h"
  shows "total_of h' = total_of h + sum_list (map (\<lambda>i. projectWhole (oi_sehi i) e) items) \<and> distinct (map fst h') \<and>
    total_of t' = total_of t + sum_list (map (\<lambda>i. projectWhole (oi_retirement i) e) items) \<and> distinct (map fst t') \<and>
    total_of w' = total_of w + sum_list (map (\<lambda>i. projectWhole (oi_sehiAsW2Wages i) e) items) \<and> distinct (map fst w') \<and>
    fst ` set w' = fst ` set h'"
  using assms
proof (induction items arbitrary: h t w c)
  case (Cons i items)
  from Cons.prems(1) obtain pid c1 where run: "cfold (add_owner_item e) items
      (sumTo h pid (projectWhole (oi_sehi i) e), sumTo t pid (projectWhole (oi_retirement i) e),
       sumTo w pid (projectWhole (oi_sehiAsW2Wages i) e)) c1 = Inr ((h', t', w'), c')"
    by (auto simp: cbind_apply ebind_Inr_iff add_owner_item_def [of e i])
  from Cons.IH [OF run] Cons.prems(2-5) show ?case by (simp add: distinct_sumTo keys_sumTo)
qed simp

text \<open>Each map of the owner-level amounts, with the amounts it must account for.\<close>

definition own_ok :: "engine_entity \<Rightarrow> owner_amounts \<Rightarrow> bool" where
  "own_ok e own \<longleftrightarrow> distinct (map fst (om_gp own)) \<and> distinct (map fst (om_wages own)) \<and> distinct (map fst (om_sehi own)) \<and>
    distinct (map fst (om_retirement own)) \<and> distinct (map fst (om_sehiW2 own)) \<and> fst ` set (om_sehiW2 own) = fst ` set (om_sehi own) \<and>
    total_of (om_gp own) = sum_list (map (\<lambda>g. projectWhole (pa_amount g) e) (ee_guaranteedPayments e)) \<and>
    total_of (om_wages own) = sum_list (map (\<lambda>g. projectWhole (pa_amount g) e) (ee_officerWages e)) \<and>
    total_of (om_sehi own) = sum_list (map (\<lambda>i. projectWhole (oi_sehi i) e) (ee_ownerItems e)) \<and>
    total_of (om_retirement own) = sum_list (map (\<lambda>i. projectWhole (oi_retirement i) e) (ee_ownerItems e)) \<and>
    total_of (om_sehiW2 own) = sum_list (map (\<lambda>i. projectWhole (oi_sehiAsW2Wages i) e) (ee_ownerItems e))"

lemma owner_amounts_ok:
  assumes "owner_amounts_of e c = Inr (own, c')"
  shows "own_ok e own"
proof -
  from assms obtain gp wages h t w c1 c2 c3 where run: "per_person e (ee_guaranteedPayments e) c = Inr (gp, c1)"
      "per_person e (ee_officerWages e) c1 = Inr (wages, c2)" "owner_item_maps e c2 = Inr ((h, t, w), c3)"
    and own: "own = \<lparr>om_gp = gp, om_wages = wages, om_sehi = h, om_retirement = t, om_sehiW2 = w\<rparr>"
    by (auto simp: owner_amounts_of_def cbind_apply ebind_Inr_iff)
  have nil: "total_of [] = 0" by (simp add: total_of_def)
  from per_person_total [OF run(1) [unfolded per_person_def]] per_person_total [OF run(2) [unfolded per_person_def]]
    owner_items_total [OF run(3) [unfolded owner_item_maps_def]]
  show ?thesis by (simp add: own_ok_def own nil)
qed

definition carries :: "owner_amounts \<Rightarrow> allocated_share \<Rightarrow> bool" where
  "carries own s \<longleftrightarrow> al_guaranteedPayment s = amount_of (om_gp own) (al_personId s) \<and>
    al_officerWages s = amount_of (om_wages own) (al_personId s) \<and> al_ownerSehi s = amount_of (om_sehi own) (al_personId s) \<and>
    al_ownerRetirement s = amount_of (om_retirement own) (al_personId s) \<and>
    al_sehiAsW2Wages s = amount_of (om_sehiW2 own) (al_personId s)"

lemma link_share_carries: "link_share e adjs projected useLoss fr own l c = Inr (s, c') \<Longrightarrow> carries own s"
  by (cases "the (map_of fr (li_linkId l))") (auto simp: link_share_def carries_def cbind_apply ebind_Inr_iff Let_def)

lemma cmap_all:
  assumes "cmap f xs c = Inr (ys, c')" "\<And>x c y c'. f x c = Inr (y, c') \<Longrightarrow> P y"
  shows "list_all P ys"
  using assms(1) by (induction xs arbitrary: c ys) (auto simp: cbind_apply ebind_Inr_iff dest: assms(2))

lemma unlinked_shares:
  assumes "cfold (unlinked_share e own) ks shares c = Inr (shares', c')" "list_all (carries own) shares"
  shows "list_all (carries own) shares' \<and> set (map al_personId shares') = set (map al_personId shares) \<union> set ks"
  using assms
proof (induction ks arbitrary: shares c)
  case (Cons k ks)
  from Cons.prems(1) obtain s1 c1 where s1: "unlinked_share e own k shares c = Inr (s1, c1)"
      "cfold (unlinked_share e own) ks s1 c1 = Inr (shares', c')" by (auto simp: cbind_apply ebind_Inr_iff)
  have "s1 = (if k \<in> set (map al_personId shares) then shares else shares @ [bare_share e own k])"
    using s1(1) by (auto simp: unlinked_share_def cbind_apply ebind_Inr_iff split: if_splits)
  moreover have "carries own (bare_share e own k)" "al_personId (bare_share e own k) = k"
    by (simp_all add: carries_def bare_share_def)
  ultimately have "list_all (carries own) s1" "set (map al_personId s1) = insert k (set (map al_personId shares))"
    using Cons.prems(2) by auto
  with Cons.IH [OF s1(2)] show ?case by simp
qed simp

text \<open>
  C31: when no person holds two shares of an entity, everything the owners get beside their share of
  profit is allocated exactly once: guaranteed payments, officer wages, health insurance and retirement
  amounts of all shares add up to the projected amounts of the books, and no owner's amount is dropped
  for want of a link.
\<close>

theorem owner_amounts_conserved:
  assumes "allocateEntity e adjustments c = Inr (ae, c')" and "distinct (map al_personId (ae_shares ae))"
  shows "sum_list (map al_guaranteedPayment (ae_shares ae)) = sum_list (map (\<lambda>g. projectWhole (pa_amount g) e) (ee_guaranteedPayments e)) \<and>
    sum_list (map al_officerWages (ae_shares ae)) = sum_list (map (\<lambda>g. projectWhole (pa_amount g) e) (ee_officerWages e)) \<and>
    sum_list (map al_ownerSehi (ae_shares ae)) = sum_list (map (\<lambda>i. projectWhole (oi_sehi i) e) (ee_ownerItems e)) \<and>
    sum_list (map al_ownerRetirement (ae_shares ae)) = sum_list (map (\<lambda>i. projectWhole (oi_retirement i) e) (ee_ownerItems e)) \<and>
    sum_list (map al_sehiAsW2Wages (ae_shares ae)) = sum_list (map (\<lambda>i. projectWhole (oi_sehiAsW2Wages i) e) (ee_ownerItems e))"
proof -
  from assms(1) obtain own projected useLoss fr linked c1 c2 c3 c4 where own: "owner_amounts_of e c1 = Inr (own, c2)"
    and linked: "cmap (link_share e adjustments projected useLoss fr own) (ee_links e) c2 = Inr (linked, c3)"
    and rest: "cfold (unlinked_share e own) (owner_keys own) linked c3 = Inr (ae_shares ae, c4)"
    unfolding allocateEntity_def by (auto simp: cbind_apply ebind_Inr_iff Let_def)
  note ok = owner_amounts_ok [OF own, unfolded own_ok_def]
  let ?ps = "map al_personId (ae_shares ae)"
  from unlinked_shares [OF rest cmap_all [OF linked link_share_carries]]
  have carried: "\<And>s. s \<in> set (ae_shares ae) \<Longrightarrow> carries own s" and keys: "set (owner_keys own) \<subseteq> set ?ps"
    by (auto simp: list_all_iff)
  have part: "sum_list (map f (ae_shares ae)) = total_of m"
    if "distinct (map fst m)" "fst ` set m \<subseteq> set (owner_keys own)" "\<And>s. carries own s \<Longrightarrow> f s = amount_of m (al_personId s)" for f m
  proof -
    have "map f (ae_shares ae) = map (amount_of m) ?ps" using that(3) carried by simp
    then show ?thesis using amounts_over_persons [OF that(1) _ assms(2)] that(2) keys by (metis subset_trans)
  qed
  have sub: "fst ` set (om_gp own) \<subseteq> set (owner_keys own)" "fst ` set (om_wages own) \<subseteq> set (owner_keys own)"
    "fst ` set (om_sehi own) \<subseteq> set (owner_keys own)" "fst ` set (om_retirement own) \<subseteq> set (owner_keys own)"
    "fst ` set (om_sehiW2 own) \<subseteq> set (owner_keys own)"
    using ok by (auto simp: owner_keys_def)
  show ?thesis
    using ok sub part [of "om_gp own" al_guaranteedPayment] part [of "om_wages own" al_officerWages]
      part [of "om_sehi own" al_ownerSehi] part [of "om_retirement own" al_ownerRetirement] part [of "om_sehiW2 own" al_sehiAsW2Wages]
    by (simp add: carries_def)
qed

subsection \<open>The totals of the persons are conserved\<close>

text \<open>
  A measure of a person's record that every share and every adjustment changes by an amount of its own:
  its sum over the persons after the aggregation is what the shares and the adjustments brought in.
\<close>

definition unlinked :: "engine_adjustment list \<Rightarrow> engine_adjustment list" where
  "unlinked as = filter (\<lambda>a. \<not> has_text (aj_linkId a)) as"

definition over_shares :: "(allocated_share \<Rightarrow> money) \<Rightarrow> allocated_entity list \<Rightarrow> money" where
  "over_shares f es = sum_list (map (\<lambda>ae. sum_list (map f (ae_shares ae))) es)"

definition over_persons :: "(person_income \<Rightarrow> money) \<Rightarrow> by_person \<Rightarrow> money" where
  "over_persons f m = sum_list (map (f \<circ> snd) m)"

lemma over_persons_update: "map_of m k = Some p \<Longrightarrow> over_persons f (AList.update k q m) = over_persons f m - f p + f q"
  by (simp add: over_persons_def sum_update)

lemma get_personD: "get_person m pid c = Inr ((r, p), c') \<Longrightarrow> map_of m r = Some p"
  by (auto simp: get_person_def cbind_apply ebind_Inr_iff split: option.splits)

lemma keys_update_known: "map_of m k = Some p \<Longrightarrow> map fst (AList.update k q m) = map fst m"
  by (induction m) (auto split: if_splits)

lemma start_persons:
  assumes "cfold start_person ps m c = Inr (m', c')" "distinct (map fst m @ map en_personId ps)"
  shows "m' = m @ map (\<lambda>p. (en_personId p, person_start p)) ps"
  using assms
proof (induction ps arbitrary: m c)
  case (Cons p ps)
  from Cons.prems(1) obtain c1 where "cfold start_person ps (AList.update (en_personId p) (person_start p) m) c1 = Inr (m', c')"
    by (auto simp: cbind_apply ebind_Inr_iff start_person_def [of p])
  moreover have "AList.update (en_personId p) (person_start p) m = m @ [(en_personId p, person_start p)]"
    using Cons.prems(2) by (induction m) auto
  ultimately show ?case using Cons.IH [of "m @ [(en_personId p, person_start p)]" c1] Cons.prems(2) by simp
qed simp

lemma aggregate_shareD:
  assumes "aggregate_share s m c = Inr (m', c')"
  shows "\<exists>r p. map_of m r = Some p \<and> m' = AList.update r (add_share s p) m"
proof -
  from assms obtain r p c1 where "get_person m (al_personId s) c = Inr ((r, p), c1)" "m' = AList.update r (add_share s p) m"
    by (auto simp: aggregate_share_def cbind_apply ebind_Inr_iff)
  then show ?thesis using get_personD by blast
qed

lemma aggregate_adjustmentD:
  assumes "aggregate_adjustment a agg c = Inr (agg', c')" "\<not> has_text (aj_linkId a)"
  shows "\<exists>r p. map_of (ag_byPerson agg) r = Some p \<and>
    ag_byPerson agg' = AList.update r (if aj_kind a = AdjDeduction then person_deduction (pool_of a) (aj_amount a) p
      else person_adjustment a p) (ag_byPerson agg) \<and>
    ag_otherAboveTheLine agg' = ag_otherAboveTheLine agg +
      (if aj_kind a = AdjDeduction \<and> pool_of a = PoolTaxpayer then aj_amount a else 0) \<and>
    ag_itemizedOther agg' = ag_itemizedOther agg +
      (if aj_kind a = AdjDeduction \<and> pool_of a = PoolItemized then aj_amount a else 0)"
proof -
  from assms obtain r p pid c1 c2 where get: "get_person (ag_byPerson agg) pid c1 = Inr ((r, p), c2)"
    and "ag_byPerson agg' = AList.update r (if aj_kind a = AdjDeduction then person_deduction (pool_of a) (aj_amount a) p
      else person_adjustment a p) (ag_byPerson agg)"
    "ag_otherAboveTheLine agg' = ag_otherAboveTheLine agg +
      (if aj_kind a = AdjDeduction \<and> pool_of a = PoolTaxpayer then aj_amount a else 0)"
    "ag_itemizedOther agg' = ag_itemizedOther agg +
      (if aj_kind a = AdjDeduction \<and> pool_of a = PoolItemized then aj_amount a else 0)"
    by (cases "aj_kind a = AdjDeduction") (auto simp: aggregate_adjustment_def cbind_apply ebind_Inr_iff Let_def)
  then show ?thesis using get_personD [OF get] by blast
qed

locale income_measure =
  fixes mu :: "person_income \<Rightarrow> money" and ds :: "allocated_share \<Rightarrow> money" and da :: "engine_adjustment \<Rightarrow> money"
  assumes add_share: "mu (add_share s p) = mu p + ds s"
    and deduction: "aj_kind a = AdjDeduction \<Longrightarrow> mu (person_deduction (pool_of a) (aj_amount a) p) = mu p + da a"
    and adjustment: "aj_kind a \<noteq> AdjDeduction \<Longrightarrow> mu (person_adjustment a p) = mu p + da a"
begin

lemma shares_step:
  "cfold aggregate_share ss m c = Inr (m', c') \<Longrightarrow> over_persons mu m' = over_persons mu m + sum_list (map ds ss)"
proof (induction ss arbitrary: m c)
  case (Cons s ss)
  then obtain m1 c1 where "aggregate_share s m c = Inr (m1, c1)" "cfold aggregate_share ss m1 c1 = Inr (m', c')"
    by (auto simp: cbind_apply ebind_Inr_iff)
  with aggregate_shareD [OF this(1)] Cons.IH [OF this(2)] show ?case by (auto simp: over_persons_update add_share)
qed simp

lemma entities_step:
  "cfold (\<lambda>ae. cfold aggregate_share (ae_shares ae)) es m c = Inr (m', c') \<Longrightarrow>
   over_persons mu m' = over_persons mu m + over_shares ds es"
proof (induction es arbitrary: m c)
  case (Cons ae es)
  then obtain m1 c1 where run: "cfold aggregate_share (ae_shares ae) m c = Inr (m1, c1)"
      "cfold (\<lambda>ae. cfold aggregate_share (ae_shares ae)) es m1 c1 = Inr (m', c')"
    by (auto simp: cbind_apply [of "cfold aggregate_share (ae_shares ae) m"] ebind_Inr_iff)
  with shares_step [OF run(1)] Cons.IH [OF run(2)] show ?case by (simp add: over_shares_def)
qed (simp add: over_shares_def)

lemma adjustments_step:
  "cfold aggregate_adjustment as agg c = Inr (agg', c') \<Longrightarrow>
   over_persons mu (ag_byPerson agg') = over_persons mu (ag_byPerson agg) + sum_list (map da (unlinked as))"
proof (induction as arbitrary: agg c)
  case (Cons a as)
  then obtain agg1 c1 where run: "aggregate_adjustment a agg c = Inr (agg1, c1)" "cfold aggregate_adjustment as agg1 c1 = Inr (agg', c')"
    by (auto simp: cbind_apply ebind_Inr_iff)
  show ?case
  proof (cases "has_text (aj_linkId a)")
    case True
    with run Cons.IH [OF run(2)] show ?thesis by (simp add: aggregate_adjustment_def unlinked_def)
  next
    case False
    from aggregate_adjustmentD [OF run(1) False] obtain r p where "map_of (ag_byPerson agg) r = Some p"
      "ag_byPerson agg1 = AList.update r (if aj_kind a = AdjDeduction then person_deduction (pool_of a) (aj_amount a) p
        else person_adjustment a p) (ag_byPerson agg)" by blast
    then have "over_persons mu (ag_byPerson agg1) = over_persons mu (ag_byPerson agg) + da a"
      by (simp add: over_persons_update deduction adjustment)
    with Cons.IH [OF run(2)] False show ?thesis by (simp add: unlinked_def)
  qed
qed (simp add: unlinked_def)

lemma conserved:
  assumes "aggregatePersons es ps as c = Inr (agg, c')" "distinct (map en_personId ps)"
  shows "over_persons mu (ag_byPerson agg) = sum_list (map (mu \<circ> person_start) ps) + over_shares ds es + sum_list (map da (unlinked as))"
proof -
  from assms(1) obtain start m c1 c2 where run: "cfold start_person ps [] c = Inr (start, c1)"
      "cfold (\<lambda>ae. cfold aggregate_share (ae_shares ae)) es start c1 = Inr (m, c2)"
      "cfold aggregate_adjustment as \<lparr>ag_byPerson = m, ag_otherAboveTheLine = 0, ag_itemizedOther = 0\<rparr> c2 = Inr (agg, c')"
    unfolding aggregatePersons_def by auto
  from start_persons [OF run(1)] assms(2) have "over_persons mu start = sum_list (map (mu \<circ> person_start) ps)"
    by (simp add: over_persons_def comp_def)
  with entities_step [OF run(2)] adjustments_step [OF run(3)] show ?thesis by simp
qed

end

lemma sumCharacters_update: "sumCharacters (f(k := f k + x)) = sumCharacters f + x"
  by (cases k) (simp_all add: sumCharacters_def INCOME_CHARACTERS_def)

lemma sumCharacters_add: "sumCharacters (addCharacters a b) = sumCharacters a + sumCharacters b"
  by (simp add: sumCharacters_def INCOME_CHARACTERS_def addCharacters_def mapCharacters_def)

lemma sumCharacters_none [simp]: "sumCharacters (characters (\<lambda>_. None)) = 0"
  by (simp add: sumCharacters_def INCOME_CHARACTERS_def characters_def)

definition person_pools :: "person_income \<Rightarrow> money" where
  "person_pools p = pi_sehiPremiums p + pi_retirementContributions p + pi_hsaContributions p + pi_otherAboveTheLine p"

interpretation wages_m: income_measure pi_wages "\<lambda>s. al_officerWages s + al_sehiAsW2Wages s" "\<lambda>_. 0"
  by unfold_locales (auto simp: add_share_def person_deduction_def person_adjustment_def Let_def split: deduction_pool.split)

interpretation character_m: income_measure "\<lambda>p. sumCharacters (pi_character p)"
  "\<lambda>s. sumCharacters (al_share s) + al_guaranteedPayment s" "\<lambda>a. if aj_kind a = AdjDeduction then 0 else adjustmentEffect a"
  by unfold_locales (auto simp: add_share_def person_deduction_def person_adjustment_def Let_def sumCharacters_update
      sumCharacters_add split: deduction_pool.split)

interpretation pools_m: income_measure person_pools "\<lambda>s. al_ownerSehi s + al_ownerRetirement s"
  "\<lambda>a. if aj_kind a = AdjDeduction \<and> pool_of a \<noteq> PoolTaxpayer \<and> pool_of a \<noteq> PoolItemized then aj_amount a else 0"
  by unfold_locales (auto simp: add_share_def person_deduction_def person_adjustment_def Let_def person_pools_def
      split: deduction_pool.split)

lemma taxpayer_pools:
  "cfold aggregate_adjustment as agg c = Inr (agg', c') \<Longrightarrow>
   ag_otherAboveTheLine agg' + ag_itemizedOther agg' = ag_otherAboveTheLine agg + ag_itemizedOther agg +
     sum_list (map (\<lambda>a. if aj_kind a = AdjDeduction \<and> (pool_of a = PoolTaxpayer \<or> pool_of a = PoolItemized)
       then aj_amount a else 0) (unlinked as))"
proof (induction as arbitrary: agg c)
  case (Cons a as)
  then obtain agg1 c1 where run: "aggregate_adjustment a agg c = Inr (agg1, c1)" "cfold aggregate_adjustment as agg1 c1 = Inr (agg', c')"
    by (auto simp: cbind_apply ebind_Inr_iff)
  show ?case
  proof (cases "has_text (aj_linkId a)")
    case True
    with run Cons.IH [OF run(2)] show ?thesis by (simp add: aggregate_adjustment_def unlinked_def)
  next
    case False
    with aggregate_adjustmentD [OF run(1) False] Cons.IH [OF run(2)] show ?thesis by (auto simp: unlinked_def)
  qed
qed (simp add: unlinked_def)

text \<open>
  C32: aggregation loses nothing and counts nothing twice: over all persons the wages are the W-2 wages
  plus the officer wages and the shareholder health insurance of the shares; the characters add up to
  the shares, the guaranteed payments and the adjustments without a link; and every deduction without a
  link lands in exactly one pool, of a person, of the taxpayer or of the itemized deductions.
\<close>

theorem aggregate_conserves:
  assumes "aggregatePersons es ps as c = Inr (agg, c')" and "distinct (map en_personId ps)"
  shows "over_persons pi_wages (ag_byPerson agg) =
      sum_list (map en_w2Wages ps) + over_shares (\<lambda>s. al_officerWages s + al_sehiAsW2Wages s) es \<and>
    over_persons (\<lambda>p. sumCharacters (pi_character p)) (ag_byPerson agg) =
      over_shares (\<lambda>s. sumCharacters (al_share s) + al_guaranteedPayment s) es +
      sum_list (map adjustmentEffect (filter (\<lambda>a. aj_kind a \<noteq> AdjDeduction) (unlinked as))) \<and>
    over_persons person_pools (ag_byPerson agg) + ag_otherAboveTheLine agg + ag_itemizedOther agg =
      over_shares (\<lambda>s. al_ownerSehi s + al_ownerRetirement s) es +
      sum_list (map aj_amount (filter (\<lambda>a. aj_kind a = AdjDeduction) (unlinked as)))"
proof -
  have filters: "sum_list (map (\<lambda>a. if aj_kind a = AdjDeduction then 0 else adjustmentEffect a) xs) =
      sum_list (map adjustmentEffect (filter (\<lambda>a. aj_kind a \<noteq> AdjDeduction) xs))"
    "sum_list (map (\<lambda>a. if aj_kind a = AdjDeduction \<and> pool_of a \<noteq> PoolTaxpayer \<and> pool_of a \<noteq> PoolItemized then aj_amount a else 0) xs) +
      sum_list (map (\<lambda>a. if aj_kind a = AdjDeduction \<and> (pool_of a = PoolTaxpayer \<or> pool_of a = PoolItemized) then aj_amount a else 0) xs) =
      sum_list (map aj_amount (filter (\<lambda>a. aj_kind a = AdjDeduction) xs))" for xs
    by (induction xs) auto
  from assms(1) obtain m c2 where "cfold aggregate_adjustment as \<lparr>ag_byPerson = m, ag_otherAboveTheLine = 0, ag_itemizedOther = 0\<rparr> c2 = Inr (agg, c')"
    unfolding aggregatePersons_def by auto
  from taxpayer_pools [OF this] wages_m.conserved [OF assms] character_m.conserved [OF assms] pools_m.conserved [OF assms]
  show ?thesis
    using filters(2) [of "unlinked as"] by (simp add: person_start_def person_pools_def comp_def filters(1))
qed

lemma capitalNettingD:
  assumes "capitalNetting g c = Inr ((net, dis), c')"
  shows "net = g + dis \<and> 0 \<le> dis \<and> (0 \<le> g \<longrightarrow> dis = 0) \<and> (0 < dis \<longrightarrow> net =
    - stored_num (cx_params c) (if cx_fs c = Mfs then ''capital_loss.limit.mfs'' else ''capital_loss.limit.standard''))"
proof (cases "g < 0")
  case True
  with assms obtain limit c1 where "p_money (if cx_fs c = Mfs then ''capital_loss.limit.mfs'' else ''capital_loss.limit.standard'') c = Inr (limit, c1)"
    "net = max g (- limit)" "dis = net - g"
    by (auto simp: capitalNetting_def cbind_apply ebind_Inr_iff Let_def)
  with p_moneyD [OF this(1)] True show ?thesis by (auto simp: max_def)
next
  case False
  with assms show ?thesis by (auto simp: capitalNetting_def cbind_apply ebind_Inr_iff)
qed

lemma sum_foldl_characters:
  "sumCharacters (foldl (\<lambda>acc p. addCharacters acc (pi_character p)) a ps) = sumCharacters a + sum_list (map (\<lambda>p. sumCharacters (pi_character p)) ps)"
  by (induction ps arbitrary: a) (simp_all add: sumCharacters_add)

text \<open>
  C33: total income accounts for every dollar: it is the wages and all characters of the persons plus
  exactly the capital loss that section 1211 disallows; a loss is disallowed only when the net loss is
  above the limit, and then the net capital loss taken is the limit; and the long-term gain handed to
  the worksheet is never negative, never above the long-term gain and never above the net gain.
\<close>

theorem net_income_accounts:
  assumes "netIncome ps c = Inr (r, c')"
  shows "in_totalIncome r = sum_list (map pi_wages ps) + sum_list (map (\<lambda>p. sumCharacters (pi_character p)) ps) + in_capitalLossDisallowed r \<and>
    in_capitalGainNet r = in_capitalGainShortTerm r + in_capitalGainLongTerm r + in_capitalLossDisallowed r \<and>
    0 \<le> in_capitalLossDisallowed r \<and>
    (0 < in_capitalLossDisallowed r \<longrightarrow> in_capitalGainNet r =
      - stored_num (cx_params c) (if cx_fs c = Mfs then ''capital_loss.limit.mfs'' else ''capital_loss.limit.standard'')) \<and>
    0 \<le> in_netLongTermGainForWorksheet r \<and> in_netLongTermGainForWorksheet r \<le> max 0 (in_capitalGainLongTerm r) \<and>
    in_netLongTermGainForWorksheet r \<le> max 0 (in_capitalGainNet r)"
proof -
  let ?t = "foldl (\<lambda>acc p. addCharacters acc (pi_character p)) (characters (\<lambda>_. None)) ps"
  let ?neg = "if ?t Section1231 < 0 then ?t Section1231 else 0" and ?pos = "if 0 < ?t Section1231 then ?t Section1231 else 0"
  let ?st = "?t CapitalGainSt" and ?lt = "?t CapitalGainLt + ?pos"
  have split: "?neg + ?pos = ?t Section1231" by auto
  have all: "sumCharacters ?t = sum_list (map (\<lambda>p. sumCharacters (pi_character p)) ps)"
    by (simp add: sum_foldl_characters)
  have parts: "sumCharacters f = f Ordinary + f CapitalGainSt + f CapitalGainLt + f Section1231 + f Interest + f DividendsOrdinary +
      f DividendsQualified + f Rental" for f
    by (simp add: sumCharacters_def INCOME_CHARACTERS_def)
  from assms obtain net dis c1 c2 where cap: "capitalNetting (?st + ?lt) c = Inr ((net, dis), c1)"
    and r: "in_capitalGainNet r = net" "in_capitalLossDisallowed r = dis" "in_capitalGainShortTerm r = ?st" "in_capitalGainLongTerm r = ?lt"
      "in_totalIncome r = sum_list (map pi_wages ps) + (?t Ordinary + ?neg + (?t Rental + (?t Interest +
        (?t DividendsOrdinary + ?t DividendsQualified + net))))"
      "in_netLongTermGainForWorksheet r = (if 0 < ?lt \<and> 0 < ?st + ?lt then min ?lt (?st + ?lt) else 0)"
    unfolding netIncome_def Let_def by (auto simp: cbind_apply ebind_Inr_iff simp del: if_split)
  note net = capitalNettingD [OF cap]
  have "in_totalIncome r = sum_list (map pi_wages ps) + sumCharacters ?t + dis"
    unfolding parts using r(5) net split by linarith
  moreover have "0 \<le> in_netLongTermGainForWorksheet r" "in_netLongTermGainForWorksheet r \<le> max 0 (in_capitalGainLongTerm r)"
    "in_netLongTermGainForWorksheet r \<le> max 0 (in_capitalGainNet r)"
    using net r(1,3,4,6) by (simp_all split: if_split)
  moreover have "in_capitalGainNet r = in_capitalGainShortTerm r + in_capitalGainLongTerm r + in_capitalLossDisallowed r"
    unfolding r(1-4) using conjunct1 [OF net] by linarith
  ultimately show ?thesis using conjunct2 [OF net] unfolding r(1,2) all by blast
qed

subsection \<open>Examples\<close>

definition no_characters :: character_amounts where
  "no_characters = characters (\<lambda>_. None)"

definition sample_link :: "string \<Rightarrow> string \<Rightarrow> engine_link" where
  "sample_link l p = \<lparr>li_linkId = l, li_personId = p, li_profitPct = Some 50, li_lossPct = None, li_partnerSeStatus = Some PseGeneral,
     li_isOfficer = False, li_activityType = ActActive, li_activeParticipation = True, li_qbiEligible = None, li_allowedLossOverride = None\<rparr>"

definition sample_partnership :: "engine_link list \<Rightarrow> engine_entity" where
  "sample_partnership links = \<lparr>ee_tenantId = ''t'', ee_companyId = ''c'', ee_entityType = Partnership, ee_monthsElapsed = 6,
     ee_monthsRemaining = 6, ee_ytd = no_characters(Ordinary := 3000), ee_recurringYtd = no_characters(Ordinary := 3000),
     ee_ownerItems = [], ee_guaranteedPayments = [\<lparr>pa_personId = Some ''p1'', pa_amount = 600\<rparr>], ee_officerWages = [],
     ee_taxDepreciationBookYtd = 0, ee_links = links, ee_isSstb = False, ee_rentalQbiTradeOrBusiness = False,
     ee_w2WagesEffective = None, ee_includeSehiInW2Wages = False, ee_ubia = None, ee_warnings = [], ee_outside = False,
     ee_priorYearTrend = None\<rparr>"

definition sample_couple :: "person_ref list" where
  "sample_couple = [\<lparr>pr_id = ''p1'', pr_role = Primary\<rparr>, \<lparr>pr_id = ''p2'', pr_role = Spouse\<rparr>]"

definition couple_ctx :: ectx where
  "couple_ctx = (new_ctx [] 2025 Mfj)\<lparr>cx_persons := sample_couple\<rparr>"

lemma owner_amounts_conserved_witness:
  "\<exists>ae c'. allocateEntity (sample_partnership [sample_link ''l2'' ''p2'']) [] couple_ctx = Inr (ae, c') \<and>
     map al_personId (ae_shares ae) = [''p2'', ''p1''] \<and> sum_list (map al_guaranteedPayment (ae_shares ae)) = 1200"
proof -
  let ?e = "sample_partnership [sample_link ''l2'' ''p2'']"
  have "(case allocateEntity ?e [] couple_ctx of Inr (ae, c') \<Rightarrow> map al_personId (ae_shares ae) = [''p2'', ''p1''] | Inl x \<Rightarrow> False)"
    by code_simp
  then obtain ae c' where ae: "allocateEntity ?e [] couple_ctx = Inr (ae, c')" "map al_personId (ae_shares ae) = [''p2'', ''p1'']"
    by (auto split: sum.splits)
  have "sum_list (map (\<lambda>g. projectWhole (pa_amount g) ?e) (ee_guaranteedPayments ?e)) = 1200" by code_simp
  with owner_amounts_conserved [OF ae(1)] ae show ?thesis by simp
qed

text \<open>A guaranteed payment is counted once per link of its person, so twice when a link falls back to that person.\<close>

lemma guaranteed_payment_counted_twice:
  "(case allocateEntity (sample_partnership [sample_link ''l1'' ''p1'', sample_link ''l2'' ''gone'']) [] couple_ctx of
     Inr (ae, c') \<Rightarrow> map al_personId (ae_shares ae) = [''p1'', ''p1''] \<and> map al_guaranteedPayment (ae_shares ae) = [1200, 1200]
   | Inl x \<Rightarrow> False)"
  by code_simp

definition sample_person :: engine_person where
  "sample_person = \<lparr>en_personId = ''p1'', en_role = Primary, en_dateOfBirth = None, en_isBlind = False, en_sehiEligibleMonths = [],
     en_w2Wages = 80000, en_w2SocialSecurityWages = None, en_retirementPlan = None, en_retirementEmployeeDeferral = None,
     en_hsaCoverage = HsaNone, en_hsaContribution = 0, en_sch1a = \<lparr>sp_qualifiedTips = 0, sp_qualifiedOvertime = 0, sp_carLoanInterest = 0\<rparr>\<rparr>"

definition sample_deduction :: engine_adjustment where
  "sample_deduction = \<lparr>aj_id = ''a1'', aj_typeCode = Some ''hsa_contribution'', aj_kind = AdjDeduction, aj_amount = 4000, aj_pct = None,
     aj_personId = None, aj_linkId = None, aj_affectsSe = False, aj_affectsQbi = False, aj_isCapitalGainLt = False,
     aj_isCapitalGainSt = False, aj_isQualifiedDividend = False, aj_isReitDividend = False, aj_isPtp = False, aj_is1231 = False,
     aj_isAboveTheLine = True\<rparr>"

lemma aggregate_conserves_witness:
  "\<exists>agg c'. aggregatePersons [] [sample_person] [sample_deduction] couple_ctx = Inr (agg, c') \<and>
     over_persons pi_wages (ag_byPerson agg) = 80000 \<and>
     over_persons person_pools (ag_byPerson agg) + ag_otherAboveTheLine agg + ag_itemizedOther agg = 4000"
proof -
  have "(case aggregatePersons [] [sample_person] [sample_deduction] couple_ctx of Inr (agg, c') \<Rightarrow> True | Inl x \<Rightarrow> False)" by code_simp
  then obtain agg c' where "aggregatePersons [] [sample_person] [sample_deduction] couple_ctx = Inr (agg, c')"
    by (auto split: sum.splits)
  from aggregate_conserves [OF this] this show ?thesis
    by (auto simp: over_shares_def sample_person_def sample_deduction_def unlinked_def has_text_def)
qed

lemma net_income_accounts_witness:
  "\<exists>r c'. netIncome [(person_start sample_person)\<lparr>pi_character := no_characters(CapitalGainLt := - 5000)\<rparr>]
      (new_ctx (num_params [(''capital_loss.limit.standard'', 3000)]) 2025 Mfj) = Inr (r, c') \<and>
     in_capitalGainNet r = - 3000 \<and> in_totalIncome r = 77000"
proof -
  let ?ps = "[(person_start sample_person)\<lparr>pi_character := no_characters(CapitalGainLt := - 5000)\<rparr>]"
  let ?c = "new_ctx (num_params [(''capital_loss.limit.standard'', 3000)]) 2025 Mfj"
  have "(case netIncome ?ps ?c of Inr (r, c') \<Rightarrow> in_capitalLossDisallowed r = 2000 | Inl x \<Rightarrow> False)" by code_simp
  then obtain r c' where r: "netIncome ?ps ?c = Inr (r, c')" "in_capitalLossDisallowed r = 2000" by (auto split: sum.splits)
  have "sum_list (map (\<lambda>p. sumCharacters (pi_character p)) ?ps) = - 5000"
    by (simp add: sumCharacters_def INCOME_CHARACTERS_def no_characters_def characters_def)
  with net_income_accounts [OF r(1)] r show ?thesis
    by (auto simp: person_start_def sample_person_def new_ctx_def num_params_def stored_num_def stored_def num_of_def)
qed

end
