(* ===== verification/LossLimits.thy ===== *)
theory LossLimits
  imports Income
begin

section \<open>Loss limitations (engine/loss-limits.ts)\<close>

text \<open>
  Step 3 of the federal calculation: the basis / at-risk override of a share, the passive activity rules
  with the rental allowance, and the excess business loss.  The works list holds one entry per share, in
  the order of the persons and of their shares; \<open>works.find(x.share === s)\<close> is the entry of that share,
  so the rebuild walks the list along with the shares.  The quotients have positive divisors where they
  are taken, so they are the rounded ones.  Labels and notes are left out.
\<close>

record loss_options =
  lo_magi :: "money option"
  lo_mfsLivedApartAllYear :: bool

definition isPassiveActivity :: "activity_type \<Rightarrow> bool" where
  "isPassiveActivity a \<longleftrightarrow> a = ActPassive \<or> a = ActRental"

definition BUSINESS_CHARACTERS :: "income_character list" where
  "BUSINESS_CHARACTERS = [Ordinary, Rental, Section1231]"

subsection \<open>Adding a loss back\<close>

fun add_back_parts :: "character_amounts \<Rightarrow> money \<Rightarrow> money \<Rightarrow> income_character list \<Rightarrow> money \<Rightarrow> character_amounts \<Rightarrow> character_amounts" where
  "add_back_parts share capped negSum [] remaining out = out"
| "add_back_parts share capped negSum (k # ks) remaining out =
    (let part = (if ks = [] then remaining else min remaining (rnd 12 (capped * \<bar>share k\<bar> / negSum))) in
     add_back_parts share capped negSum ks (remaining - part) (out(k := share k + part)))"

definition negatives :: "character_amounts \<Rightarrow> income_character list" where
  "negatives share = filter (\<lambda>k. share k < 0) INCOME_CHARACTERS"

definition negative_sum :: "character_amounts \<Rightarrow> money" where
  "negative_sum share = sum_list (map (\<lambda>k. \<bar>share k\<bar>) (negatives share))"

definition addBackLoss :: "character_amounts \<Rightarrow> money \<Rightarrow> character_amounts" where
  "addBackLoss share amount =
    (if \<not> 0 < amount \<or> \<not> 0 < negative_sum share then share
     else let capped = min amount (negative_sum share) in
       add_back_parts share capped (negative_sum share) (negatives share) capped share)"

subsection \<open>State\<close>

record loss_work =
  lw_share :: allocated_share
  lw_original :: character_amounts
  lw_current :: character_amounts
  lw_overrideDisallowed :: money
  lw_passiveSuspended :: money

datatype allowance_variant = AvStandard | AvMfsLivingApart | AvNone | AvNotNeeded

record rental_allowance =
  ra_variant :: allowance_variant
  ra_maximum :: money
  ra_magi :: "money option"
  ra_afterPhaseOut :: money
  ra_eligibleLoss :: money
  ra_used :: money

record loss_share_result =
  ls_linkId :: string
  ls_personId :: string
  ls_activityType :: activity_type
  ls_passive :: bool
  ls_net :: money
  ls_overrideDisallowed :: money
  ls_passiveSuspended :: money
  ls_allowed :: money

record loss_limitation =
  ll_overrideDisallowed :: money
  ll_passiveIncome :: money
  ll_passiveLosses :: money
  ll_rentalAllowance :: rental_allowance
  ll_suspendedPassiveLoss :: money
  ll_businessNet :: money
  ll_eblThreshold :: money
  ll_excessBusinessLoss :: money
  ll_shares :: "loss_share_result list"
  ll_income :: aggregated_income
  ll_needsMagi :: bool

definition start_work :: "allocated_share \<Rightarrow> loss_work" where
  "start_work s = \<lparr>lw_share = s, lw_original = al_share s, lw_current = al_share s, lw_overrideDisallowed = 0, lw_passiveSuspended = 0\<rparr>"

definition work_net :: "loss_work \<Rightarrow> money" where
  "work_net w = sumCharacters (lw_current w)"

subsection \<open>Allowed-loss override\<close>

definition override_share :: "loss_work \<Rightarrow> loss_work eng" where
  "override_share w = (case al_allowedLossOverride (lw_share w) of None \<Rightarrow> cret w
    | Some override \<Rightarrow>
        let net = work_net w; cap = \<bar>override\<bar>; loss = \<bar>net\<bar>; link = (''linkId'', DText (al_linkId (lw_share w))) in
        if \<not> net < 0 \<or> loss \<le> cap then cbind (info ''TE_LOSS_OVERRIDE_UNUSED'' (Some [link])) (\<lambda>_. cret w)
        else let disallowed = loss - cap in
          cbind (warn ''TE_LOSS_OVERRIDE_APPLIED'' (Some [link, (''disallowed'', DAmt disallowed)])) (\<lambda>_.
          cbind (itrace ''loss_limits'' (''loss_override.'' @ al_linkId (lw_share w)) (- disallowed) SrcInput
            (Some (al_personId (lw_share w))) None) (\<lambda>_.
          cret (w\<lparr>lw_current := addBackLoss (lw_current w) disallowed, lw_overrideDisallowed := disallowed\<rparr>))))"

subsection \<open>Passive activity netting\<close>

definition is_passive_work :: "loss_work \<Rightarrow> bool" where
  "is_passive_work w \<longleftrightarrow> isPassiveActivity (al_activityType (lw_share w))"

definition is_active_rental :: "loss_work \<Rightarrow> bool" where
  "is_active_rental w \<longleftrightarrow> al_activityType (lw_share w) = ActRental \<and> al_activeParticipation (lw_share w)"

definition passive_income :: "loss_work list \<Rightarrow> money" where
  "passive_income ws = sum_list (map (\<lambda>w. if work_net w < 0 then 0 else work_net w) (filter is_passive_work ws))"

definition passive_losses :: "loss_work list \<Rightarrow> money" where
  "passive_losses ws = sum_list (map (\<lambda>w. if work_net w < 0 then \<bar>work_net w\<bar> else 0) (filter is_passive_work ws))"

definition active_rental_net :: "loss_work list \<Rightarrow> money" where
  "active_rental_net ws = sum_list (map work_net (filter is_active_rental (filter is_passive_work ws)))"

definition no_allowance :: "money \<Rightarrow> rental_allowance" where
  "no_allowance eligibleLoss = \<lparr>ra_variant = AvNotNeeded, ra_maximum = 0, ra_magi = None, ra_afterPhaseOut = 0,
     ra_eligibleLoss = eligibleLoss, ra_used = 0\<rparr>"

definition allowanceVariant :: "filing_status \<Rightarrow> bool \<Rightarrow> allowance_variant" where
  "allowanceVariant fs livedApart = (if fs \<noteq> Mfs then AvStandard else if livedApart then AvMfsLivingApart else AvNone)"

definition phased_allowance :: "money \<Rightarrow> money \<Rightarrow> money \<Rightarrow> money \<Rightarrow> money" where
  "phased_allowance maximum start end1 magi = (if magi \<le> start then maximum
     else if end1 \<le> magi \<or> end1 \<le> start then 0 else rnd 12 (maximum * (end1 - magi) / (end1 - start)))"

definition rentalAllowance :: "money \<Rightarrow> loss_options \<Rightarrow> rental_allowance eng" where
  "rentalAllowance eligibleLoss opts =
    (case lo_magi opts of None \<Rightarrow> cret (no_allowance eligibleLoss)
     | Some magi \<Rightarrow> if \<not> 0 < eligibleLoss then cret (no_allowance eligibleLoss) else
       cbind (cget cx_fs) (\<lambda>fs.
       let variant = allowanceVariant fs (lo_mfsLivedApartAllYear opts) in
       if variant = AvNone then
         cbind (warn ''TE_PASSIVE_MFS_NO_ALLOWANCE'' None) (\<lambda>_.
         cret ((no_allowance eligibleLoss)\<lparr>ra_variant := AvNone, ra_magi := Some magi\<rparr>))
       else
         let v = (if variant = AvStandard then ''standard'' else ''mfs_living_apart'');
             k1 = ''passive.rental_allowance.'' @ v; k2 = ''passive.rental_allowance_phaseout_start.'' @ v;
             k3 = ''passive.rental_allowance_phaseout_end.'' @ v in
         cbind (p_money k1) (\<lambda>maximum.
         cbind (p_money k2) (\<lambda>start.
         cbind (p_money k3) (\<lambda>end1.
         let after = phased_allowance maximum start end1 magi; used = min eligibleLoss after in
         cbind (cwhen (after < maximum) (info ''TE_PASSIVE_ALLOWANCE_PHASED_OUT''
           (Some [(''magi'', DAmt magi), (''afterPhaseOut'', DAmt after)]))) (\<lambda>_.
         cbind (trace_add ((row ''loss_limits'' ''passive.rental_allowance'' used SrcParameter)\<lparr>tr_keys := Some [k1, k2, k3]\<rparr>)) (\<lambda>_.
         cret \<lparr>ra_variant = variant, ra_maximum = maximum, ra_magi = Some magi, ra_afterPhaseOut = after,
           ra_eligibleLoss = eligibleLoss, ra_used = used\<rparr>)))))))"

text \<open>
  Worksheet 4: what is left of each loser's loss after the allowance, the last active rental loser taking
  what is left of it; the works are addressed by their index.
\<close>

fun cover_losses :: "money \<Rightarrow> money \<Rightarrow> (nat \<times> money) list \<Rightarrow> money \<Rightarrow> (nat \<Rightarrow> money) \<Rightarrow> (nat \<Rightarrow> money)" where
  "cover_losses used lossSum [] left rem = rem"
| "cover_losses used lossSum ((i, loss) # ls) left rem =
    (let covered = (if ls = [] then min left loss else min loss (rnd 12 (used * loss / lossSum))) in
     cover_losses used lossSum ls (left - covered) (rem(i := loss - covered)))"

text \<open>Worksheet 5: the part of the unallowed total each loser takes.\<close>

fun suspend_parts :: "money \<Rightarrow> money \<Rightarrow> (nat \<Rightarrow> money) \<Rightarrow> nat list \<Rightarrow> money \<Rightarrow> (nat \<times> money) list" where
  "suspend_parts suspended remSum rem [] remaining = []"
| "suspend_parts suspended remSum rem (i # is) remaining =
    (let loss = rem i;
         part = (if is = [] then min remaining loss
           else min (min remaining loss) (if 0 < remSum then rnd 12 (suspended * loss / remSum) else 0)) in
     (i, part) # suspend_parts suspended remSum rem is (remaining - part))"

definition suspend_work :: "(nat \<times> money) list \<Rightarrow> nat \<Rightarrow> loss_work \<Rightarrow> loss_work" where
  "suspend_work parts i w = (case map_of parts i of None \<Rightarrow> w
     | Some part \<Rightarrow> w\<lparr>lw_current := addBackLoss (lw_current w) part, lw_passiveSuspended := part\<rparr>)"

definition losers :: "loss_work list \<Rightarrow> nat list" where
  "losers ws = filter (\<lambda>i. is_passive_work (ws ! i) \<and> work_net (ws ! i) < 0) [0..<length ws]"

definition suspended_parts :: "loss_work list \<Rightarrow> money \<Rightarrow> money \<Rightarrow> (nat \<times> money) list" where
  "suspended_parts ws used suspended =
    (let ls = losers ws;
         loss = (\<lambda>i. \<bar>work_net (ws ! i)\<bar>);
         rentals = map (\<lambda>i. (i, loss i)) (filter (\<lambda>i. is_active_rental (ws ! i)) ls);
         rem = cover_losses used (sum_list (map snd rentals)) rentals used loss;
         remSum = sum_list (map rem ls) in
     suspend_parts suspended remSum rem ls suspended)"

definition suspendLosses :: "loss_work list \<Rightarrow> money \<Rightarrow> money \<Rightarrow> bool \<Rightarrow> loss_work list eng" where
  "suspendLosses ws used suspended report =
    (if \<not> 0 < suspended then cret ws
     else let parts = suspended_parts ws used suspended in
       cbind (cdo (\<lambda>(i, part). cwhen (0 < part) (itrace ''loss_limits''
         (''passive_suspended.'' @ al_linkId (lw_share (ws ! i))) (- part) SrcParameter (Some (al_personId (lw_share (ws ! i)))) None)) parts) (\<lambda>_.
       cbind (cwhen report (warn ''TE_PASSIVE_LOSS_SUSPENDED'' (Some [(''suspended'', DAmt suspended)]))) (\<lambda>_.
       cret (map (\<lambda>(i, w). suspend_work parts i w) (enumerate 0 ws)))))"

subsection \<open>Rebuilding the persons\<close>

definition limited_person :: "person_income \<Rightarrow> loss_work list \<Rightarrow> person_income" where
  "limited_person p ws = p\<lparr>
     pi_character := fold (\<lambda>w ch. mapCharacters ch (\<lambda>v k. v + (lw_current w k - lw_original w k))) ws (pi_character p),
     pi_shares := map (\<lambda>w. (lw_share w)\<lparr>al_share := lw_current w\<rparr>) ws\<rparr>"

fun rebuild :: "by_person \<Rightarrow> loss_work list \<Rightarrow> by_person \<Rightarrow> by_person" where
  "rebuild [] ws out = out"
| "rebuild ((_, p) # ps) ws out = (let n = length (pi_shares p) in
     rebuild ps (drop n ws) (AList.update (pi_personId p) (limited_person p (take n ws)) out))"

subsection \<open>Excess business loss\<close>

definition person_business :: "person_income \<Rightarrow> money" where
  "person_business p = pi_guaranteedPayments p +
     sum_list (map (\<lambda>s. sum_list (map (al_share s) BUSINESS_CHARACTERS)) (filter (\<lambda>s. al_activityType s \<noteq> ActInvestment) (pi_shares p)))"

fun add_back_ebl :: "money \<Rightarrow> money \<Rightarrow> (string \<times> money) list \<Rightarrow> money \<Rightarrow> by_person \<Rightarrow> by_person" where
  "add_back_ebl excess lossSum [] remaining m = m"
| "add_back_ebl excess lossSum ((pid, v) # ls) remaining m =
    (let part = (if ls = [] then remaining else rnd 12 (excess * \<bar>v\<bar> / lossSum)); p = the (map_of m pid) in
     add_back_ebl excess lossSum ls (remaining - part)
       (AList.update pid (p\<lparr>pi_character := (pi_character p)(Ordinary := pi_character p Ordinary + part)\<rparr>) m))"

text \<open>The threshold, the excess and the persons after it.\<close>

definition excessBusinessLoss :: "by_person \<Rightarrow> money \<Rightarrow> (money \<times> money \<times> by_person) eng" where
  "excessBusinessLoss m businessNet =
    (if \<not> businessNet < 0 then cret (0, 0, m)
     else cbind (cget cx_fs) (\<lambda>fs.
       let key = (if fs = Mfj then ''ebl.threshold.mfj'' else ''ebl.threshold.standard'') in
       cbind (p_money key) (\<lambda>threshold.
       let excess = floor0 (\<bar>businessNet\<bar> - threshold);
           ls = filter (\<lambda>(pid, v). v < 0) (map (\<lambda>(k, p). (pi_personId p, person_business p)) m);
           lossSum = sum_list (map (\<lambda>(pid, v). \<bar>v\<bar>) ls) in
       cbind (cwhen (0 < excess) (cbind (warn ''TE_EXCESS_BUSINESS_LOSS'' (Some [(''excessBusinessLoss'', DAmt excess)])) (\<lambda>_.
         info ''TE_EBL_QBI_TIMING'' (Some [(''excessBusinessLoss'', DAmt excess)])))) (\<lambda>_.
       cbind (trace_add ((row ''loss_limits'' ''ebl'' excess SrcParameter)\<lparr>tr_keys := Some [key]\<rparr>)) (\<lambda>_.
       cret (threshold, excess, if 0 < excess then add_back_ebl excess lossSum ls excess m else m))))))"

subsection \<open>The step\<close>

definition share_result :: "loss_work \<Rightarrow> loss_share_result" where
  "share_result w = \<lparr>ls_linkId = al_linkId (lw_share w), ls_personId = al_personId (lw_share w),
     ls_activityType = al_activityType (lw_share w), ls_passive = is_passive_work w, ls_net = sumCharacters (lw_original w),
     ls_overrideDisallowed = lw_overrideDisallowed w, ls_passiveSuspended = lw_passiveSuspended w, ls_allowed = work_net w\<rparr>"

definition applyLossLimitations :: "aggregated_income \<Rightarrow> loss_options \<Rightarrow> loss_limitation eng" where
  "applyLossLimitations income opts =
    cbind (cmap override_share (map start_work (concat (map (\<lambda>(k, p). pi_shares p) (ag_byPerson income))))) (\<lambda>ws.
    let passiveIncome = passive_income ws; passiveLosses = passive_losses ws;
        excess = floor0 (passiveLosses - passiveIncome);
        eligibleLoss = (if 0 < excess then min (floor0 (- active_rental_net ws)) excess else 0);
        needsMagi = (0 < eligibleLoss) in
    cbind (rentalAllowance eligibleLoss opts) (\<lambda>rental.
    let suspended = floor0 (excess - ra_used rental) in
    cbind (suspendLosses ws (ra_used rental) suspended (lo_magi opts \<noteq> None \<or> \<not> needsMagi)) (\<lambda>ws'.
    cbind (cwhen (0 < passiveLosses) (itrace ''loss_limits'' ''passive.net'' (- min passiveLosses passiveIncome) SrcGlMap None None)) (\<lambda>_.
    let m = rebuild (ag_byPerson income) ws' []; businessNet = sum_list (map (\<lambda>(k, p). person_business p) m) in
    cbind (excessBusinessLoss m businessNet) (\<lambda>(threshold, ebl, m').
    cret \<lparr>ll_overrideDisallowed = sum_list (map lw_overrideDisallowed ws), ll_passiveIncome = passiveIncome,
      ll_passiveLosses = passiveLosses, ll_rentalAllowance = rental, ll_suspendedPassiveLoss = suspended,
      ll_businessNet = businessNet, ll_eblThreshold = threshold, ll_excessBusinessLoss = ebl,
      ll_shares = map share_result ws', ll_income = income\<lparr>ag_byPerson := m'\<rparr>, ll_needsMagi = needsMagi\<rparr>)))))"

lemma sound_applyLossLimitations [eng_sound]: "sound (applyLossLimitations income opts)"
  unfolding applyLossLimitations_def override_share_def rentalAllowance_def suspendLosses_def excessBusinessLoss_def
  by (intro eng_sound)

subsection \<open>Adding back is exact\<close>

lemma add_back_parts_step:
  obtains part where "add_back_parts share capped negSum (k # ks) remaining out =
      add_back_parts share capped negSum ks (remaining - part) (out(k := share k + part))"
    "ks = [] \<longrightarrow> part = remaining" "part \<le> remaining" "0 \<le> remaining \<Longrightarrow> 0 \<le> capped \<Longrightarrow> 0 < negSum \<Longrightarrow> 0 \<le> part"
  by (rule that [of "if ks = [] then remaining else min remaining (rnd 12 (capped * \<bar>share k\<bar> / negSum))"])
    (auto simp: Let_def intro: rnd_nonneg)

lemma add_back_parts_mono:
  "0 \<le> remaining \<Longrightarrow> 0 \<le> capped \<Longrightarrow> 0 < negSum \<Longrightarrow> distinct ks \<Longrightarrow> \<forall>k \<in> set ks. out k = share k \<Longrightarrow>
   out k \<le> add_back_parts share capped negSum ks remaining out k"
proof (induction ks arbitrary: remaining out)
  case (Cons k0 ks)
  obtain part where step: "add_back_parts share capped negSum (k0 # ks) remaining out =
      add_back_parts share capped negSum ks (remaining - part) (out(k0 := share k0 + part))"
    and part: "part \<le> remaining" "0 \<le> remaining \<Longrightarrow> 0 \<le> capped \<Longrightarrow> 0 < negSum \<Longrightarrow> 0 \<le> part"
    using add_back_parts_step [of share capped negSum k0 ks remaining out] by blast
  from Cons.prems have "\<forall>k \<in> set ks. (out(k0 := share k0 + part)) k = share k" by auto
  with Cons.IH [of "remaining - part" "out(k0 := share k0 + part)"] Cons.prems part
  have "(out(k0 := share k0 + part)) k \<le> add_back_parts share capped negSum (k0 # ks) remaining out k"
    by (simp add: step del: add_back_parts.simps(2) fun_upd_apply)
  moreover have "out k \<le> (out(k0 := share k0 + part)) k" using Cons.prems part by auto
  ultimately show ?case by linarith
qed simp

lemma add_back_parts_sum:
  "ks \<noteq> [] \<Longrightarrow> distinct ks \<Longrightarrow> \<forall>k \<in> set ks. out k = share k \<Longrightarrow>
   sumCharacters (add_back_parts share capped negSum ks remaining out) = sumCharacters out + remaining"
proof (induction ks arbitrary: remaining out)
  case (Cons k0 ks)
  obtain part where step: "add_back_parts share capped negSum (k0 # ks) remaining out =
      add_back_parts share capped negSum ks (remaining - part) (out(k0 := share k0 + part))"
    and part: "ks = [] \<longrightarrow> part = remaining"
    using add_back_parts_step [of share capped negSum k0 ks remaining out] by blast
  have sum: "sumCharacters (out(k0 := share k0 + part)) = sumCharacters out + part"
    using sumCharacters_update [of out k0 part] Cons.prems(3) by simp
  have eq: "\<forall>k \<in> set ks. (out(k0 := share k0 + part)) k = share k" using Cons.prems by auto
  show ?case
  proof (cases "ks = []")
    case True
    with sum part step show ?thesis by (simp del: add_back_parts.simps(2) fun_upd_apply)
  next
    case False
    with Cons.IH [OF False _ eq] Cons.prems(2) sum show ?thesis by (simp add: step del: add_back_parts.simps(2) fun_upd_apply)
  qed
qed simp

lemma distinct_negatives: "distinct (negatives share)"
  by (simp add: negatives_def INCOME_CHARACTERS_def)

lemma negative_sum_nonneg: "0 \<le> negative_sum share"
  unfolding negative_sum_def by (intro sum_list_nonneg) auto

lemma addBackLoss_mono: "share k \<le> addBackLoss share amount k"
  using add_back_parts_mono [of "min amount (negative_sum share)" "min amount (negative_sum share)" "negative_sum share"
      "negatives share" share share k] distinct_negatives
  by (simp add: addBackLoss_def Let_def)

lemma addBackLoss_sum:
  "sumCharacters (addBackLoss share amount) = sumCharacters share + (if 0 < amount then min amount (negative_sum share) else 0)"
proof (cases "0 < amount \<and> 0 < negative_sum share")
  case True
  then have "negatives share \<noteq> []" by (auto simp: negative_sum_def)
  with True add_back_parts_sum [OF this distinct_negatives] show ?thesis by (simp add: addBackLoss_def Let_def)
next
  case False
  with negative_sum_nonneg [of share] show ?thesis by (auto simp: addBackLoss_def min_def)
qed

lemma loss_within_negatives: "- sumCharacters share \<le> negative_sum share"
  by (simp add: sumCharacters_def negative_sum_def negatives_def INCOME_CHARACTERS_def)

subsection \<open>Every share\<close>

definition work_ok :: "loss_work \<Rightarrow> bool" where
  "work_ok w \<longleftrightarrow> lw_original w = al_share (lw_share w) \<and> sumCharacters (lw_original w) \<le> work_net w \<and>
    (0 \<le> sumCharacters (lw_original w) \<longrightarrow> work_net w = sumCharacters (lw_original w))"

lemma override_share_ok:
  assumes "override_share (start_work s) c = Inr (w, c')"
  shows "work_ok w \<and> lw_share w = s \<and> lw_passiveSuspended w = 0 \<and> work_net w = sumCharacters (al_share s) + lw_overrideDisallowed w"
proof -
  let ?net = "sumCharacters (al_share s)"
  from assms have "w = start_work s \<or> (\<exists>cap. ?net < 0 \<and> cap = \<bar>cap\<bar> \<and> cap < \<bar>?net\<bar> \<and>
      w = (start_work s)\<lparr>lw_current := addBackLoss (al_share s) (\<bar>?net\<bar> - cap), lw_overrideDisallowed := \<bar>?net\<bar> - cap\<rparr>)"
    by (auto simp: override_share_def start_work_def work_net_def cbind_apply ebind_Inr_iff Let_def split: option.splits if_splits
        intro: exI [of _ "\<bar>_\<bar>"])
  then show ?thesis
    using loss_within_negatives [of "al_share s"]
    by (auto simp: work_ok_def start_work_def work_net_def addBackLoss_sum)
qed

lemma override_shares_ok:
  assumes "cmap override_share (map start_work ss) c = Inr (ws, c')"
  shows "list_all (\<lambda>w. work_ok w \<and> work_net w = sumCharacters (lw_original w) + lw_overrideDisallowed w) ws \<and> map lw_share ws = ss"
  using assms
proof (induction ss arbitrary: c ws)
  case (Cons s ss)
  from Cons.prems obtain w ws1 c1 where run: "override_share (start_work s) c = Inr (w, c1)"
      "cmap override_share (map start_work ss) c1 = Inr (ws1, c')" "ws = w # ws1"
    by (auto simp: cbind_apply ebind_Inr_iff)
  from Cons.IH [OF run(2)] override_share_ok [OF run(1)] run(3) show ?case by (auto simp: work_ok_def)
qed simp

lemma map_of_suspend_parts: "map_of (suspend_parts s r rem is left) i = Some part \<Longrightarrow> i \<in> set is"
  by (induction "is" arbitrary: left) (auto simp: Let_def split: if_splits)

lemma suspend_work_ok:
  assumes "work_ok w" "part \<noteq> None \<longrightarrow> work_net w < 0" "map_of parts i = part"
  shows "work_ok (suspend_work parts i w) \<and> lw_share (suspend_work parts i w) = lw_share w"
  using assms negative_sum_nonneg [of "lw_current w"]
  by (auto simp: suspend_work_def work_ok_def work_net_def addBackLoss_sum split: option.splits)

lemma suspendLosses_ok:
  assumes "suspendLosses ws used suspended report c = Inr (ws', c')" "list_all work_ok ws"
  shows "list_all work_ok ws' \<and> map lw_share ws' = map lw_share ws"
proof (cases "0 < suspended")
  case True
  let ?parts = "suspended_parts ws used suspended"
  from assms(1) True have ws': "ws' = map (\<lambda>(i, w). suspend_work ?parts i w) (enumerate 0 ws)"
    by (auto simp: suspendLosses_def cbind_apply ebind_Inr_iff Let_def)
  have each: "work_ok (suspend_work ?parts i (ws ! i)) \<and> lw_share (suspend_work ?parts i (ws ! i)) = lw_share (ws ! i)"
    if "i < length ws" for i
  proof (rule suspend_work_ok [OF _ _ refl])
    show "work_ok (ws ! i)" using assms(2) that by (simp add: list_all_length)
    show "map_of ?parts i \<noteq> None \<longrightarrow> work_net (ws ! i) < 0"
      by (auto simp: suspended_parts_def Let_def losers_def dest!: map_of_suspend_parts)
  qed
  have len: "length ws' = length ws" and nth: "ws' ! i = suspend_work ?parts i (ws ! i)" if "i < length ws" for i
    using that by (simp_all add: ws' nth_enumerate_eq)
  have "length ws' = length ws" by (simp add: ws')
  with each nth show ?thesis by (simp add: list_all_length list_eq_iff_nth_eq)
next
  case False
  with assms show ?thesis by (simp add: suspendLosses_def)
qed

subsection \<open>All persons\<close>

definition person_total :: "person_income \<Rightarrow> money" where
  "person_total p = sumCharacters (pi_character p)"

definition work_change :: "loss_work \<Rightarrow> money" where
  "work_change w = work_net w - sumCharacters (lw_original w)"

lemma limited_person_total: "person_total (limited_person p ws) = person_total p + sum_list (map work_change ws)"
proof -
  have "sumCharacters (fold (\<lambda>w ch. mapCharacters ch (\<lambda>v k. v + (lw_current w k - lw_original w k))) ws ch) =
      sumCharacters ch + sum_list (map work_change ws)" for ch
  proof (induction ws arbitrary: ch)
    case (Cons w ws)
    then show ?case
      by (simp add: work_change_def work_net_def) (simp add: sumCharacters_def INCOME_CHARACTERS_def mapCharacters_def)
  qed simp
  then show ?thesis by (simp add: person_total_def limited_person_def)
qed

definition shares_of :: "by_person \<Rightarrow> allocated_share list" where
  "shares_of m = concat (map (\<lambda>(k, p). pi_shares p) m)"

lemma update_fresh: "k \<notin> set (map fst m) \<Longrightarrow> AList.update k v m = m @ [(k, v)]"
  by (induction m) auto

lemma rebuild_total:
  assumes "distinct (map fst out @ map (\<lambda>(k, p). pi_personId p) ps)" "length ws = length (shares_of ps)"
  shows "over_persons person_total (rebuild ps ws out) = over_persons person_total out + over_persons person_total ps + sum_list (map work_change ws) \<and>
    map fst (rebuild ps ws out) = map fst out @ map (\<lambda>(k, p). pi_personId p) ps \<and>
    (list_all (\<lambda>(k, p). pi_personId p = k) out \<longrightarrow> list_all (\<lambda>(k, p). pi_personId p = k) (rebuild ps ws out))"
  using assms
proof (induction ps ws out rule: rebuild.induct)
  case (2 k p ps ws out)
  let ?n = "length (pi_shares p)"
  let ?q = "limited_person p (take ?n ws)"
  have up: "AList.update (pi_personId p) ?q out = out @ [(pi_personId p, ?q)]" using "2.prems"(1) by (intro update_fresh) auto
  have id: "pi_personId ?q = pi_personId p" by (simp add: limited_person_def)
  have parts: "sum_list (map work_change ws) = sum_list (map work_change (take ?n ws)) + sum_list (map work_change (drop ?n ws))"
    by (simp flip: sum_list_append map_append)
  from "2.IH" [OF refl] "2.prems" show ?case
    by (simp add: up id Let_def shares_of_def over_persons_def limited_person_total parts)
qed (simp_all add: shares_of_def over_persons_def)

lemma add_back_ebl_total:
  assumes "ls \<noteq> []" "\<forall>(pid, v) \<in> set ls. pid \<in> set (map fst m)"
  shows "over_persons person_total (add_back_ebl ex ss ls remaining m) = over_persons person_total m + remaining"
  using assms
proof (induction ex ss ls remaining m rule: add_back_ebl.induct)
  case (2 ex ss pid v ls remaining m)
  let ?part = "if ls = [] then remaining else rnd 12 (ex * \<bar>v\<bar> / ss)"
  from "2.prems"(2) obtain p where p: "map_of m pid = Some p" by (auto simp: map_of_eq_None_iff dest: weak_map_of_SomeI)
  let ?m = "AList.update pid (p\<lparr>pi_character := (pi_character p)(Ordinary := pi_character p Ordinary + ?part)\<rparr>) m"
  have m: "over_persons person_total ?m = over_persons person_total m + ?part"
    using over_persons_update [OF p, of person_total] by (simp add: person_total_def sumCharacters_update)
  show ?case
  proof (cases "ls = []")
    case True
    with m p show ?thesis by (simp add: Let_def)
  next
    case False
    have "\<forall>(pid, v) \<in> set ls. pid \<in> set (map fst ?m)" using "2.prems"(2) by (simp add: keys_update_known [OF p])
    with "2.IH" m False p show ?thesis by (simp add: Let_def)
  qed
qed simp

lemma excessBusinessLossD:
  assumes "excessBusinessLoss m (sum_list (map (\<lambda>(k, p). person_business p) m)) c = Inr ((threshold, ebl, m'), c')"
    and "list_all (\<lambda>(k, p). pi_personId p = k) m"
  shows "over_persons person_total m' = over_persons person_total m + ebl \<and> 0 \<le> ebl \<and>
    (0 < ebl \<longrightarrow> - sum_list (map (\<lambda>(k, p). person_business p) m) = threshold + ebl)"
proof (cases "sum_list (map (\<lambda>(k, p). person_business p) m) < 0")
  case True
  let ?net = "sum_list (map (\<lambda>(k, p). person_business p) m)"
  let ?ls = "filter (\<lambda>(pid, v). v < 0) (map (\<lambda>(k, p). (pi_personId p, person_business p)) m)"
  have "?ls \<noteq> []"
  proof
    assume "?ls = []"
    then have "\<forall>(k, p) \<in> set m. 0 \<le> person_business p" by (auto simp: filter_empty_conv)
    then have "0 \<le> ?net" by (intro sum_list_nonneg) auto
    with True show False by simp
  qed
  moreover have "\<forall>(pid, v) \<in> set ?ls. pid \<in> set (map fst m)" using assms(2) by (force simp: list_all_iff)
  ultimately have add: "over_persons person_total (add_back_ebl x y ?ls x m) = over_persons person_total m + x" for x y
    by (rule add_back_ebl_total)
  from assms(1) True obtain lossSum where "ebl = floor0 (- ?net - threshold)" "m' = (if 0 < ebl then add_back_ebl ebl lossSum ?ls ebl m else m)"
    by (auto simp: excessBusinessLoss_def cbind_apply ebind_Inr_iff Let_def abs_if)
  with add [of ebl lossSum] show ?thesis by (auto simp: floor0_def)
next
  case False
  with assms(1) show ?thesis by (simp add: excessBusinessLoss_def)
qed

text \<open>
  C34: the loss limitations only ever take losses back: no share is worse off, a share without a loss is
  untouched, and the income of the persons grows by exactly what the shares report plus the excess
  business loss; the excess is what the business loss has above the threshold, and the suspended passive
  loss what the passive losses have above the passive income and the allowance used.
\<close>

theorem loss_limits_account:
  assumes "applyLossLimitations income opts c = Inr (r, c')" and "distinct (map (\<lambda>(k, p). pi_personId p) (ag_byPerson income))"
  shows "over_persons person_total (ag_byPerson (ll_income r)) = over_persons person_total (ag_byPerson income) +
      sum_list (map (\<lambda>s. ls_allowed s - ls_net s) (ll_shares r)) + ll_excessBusinessLoss r \<and>
    (\<forall>s. s \<in> set (ll_shares r) \<longrightarrow> ls_net s \<le> ls_allowed s \<and> (0 \<le> ls_net s \<longrightarrow> ls_allowed s = ls_net s)) \<and>
    length (ll_shares r) = length (shares_of (ag_byPerson income)) \<and>
    0 \<le> ll_excessBusinessLoss r \<and> (0 < ll_excessBusinessLoss r \<longrightarrow> - ll_businessNet r = ll_eblThreshold r + ll_excessBusinessLoss r) \<and>
    ll_suspendedPassiveLoss r = floor0 (floor0 (ll_passiveLosses r - ll_passiveIncome r) - ra_used (ll_rentalAllowance r))"
proof -
  let ?shares = "concat (map (\<lambda>(k, p). pi_shares p) (ag_byPerson income))"
  from assms(1) obtain ws ws' m' c1 c2 c3 c4 c5 used suspended report where ws: "cmap override_share (map start_work ?shares) c = Inr (ws, c1)"
    and sus: "suspendLosses ws used suspended report c2 = Inr (ws', c3)"
    and ebl: "excessBusinessLoss (rebuild (ag_byPerson income) ws' [])
        (sum_list (map (\<lambda>(k, p). person_business p) (rebuild (ag_byPerson income) ws' []))) c4
      = Inr ((ll_eblThreshold r, ll_excessBusinessLoss r, m'), c5)"
    and r: "ll_income r = income\<lparr>ag_byPerson := m'\<rparr>" "ll_shares r = map share_result ws'"
      "ll_businessNet r = sum_list (map (\<lambda>(k, p). person_business p) (rebuild (ag_byPerson income) ws' []))"
      "ll_suspendedPassiveLoss r = floor0 (floor0 (ll_passiveLosses r - ll_passiveIncome r) - ra_used (ll_rentalAllowance r))"
    unfolding applyLossLimitations_def by (auto simp: cbind_apply ebind_Inr_iff Let_def)
  from override_shares_ok [OF ws] have ok: "list_all work_ok ws" "map lw_share ws = ?shares" by (simp_all add: list_all_iff)
  from suspendLosses_ok [OF sus ok(1)] ok(2) have ok': "list_all work_ok ws'" "map lw_share ws' = ?shares" by simp_all
  then have len: "length ws' = length (shares_of (ag_byPerson income))" by (metis length_map shares_of_def)
  from rebuild_total [of "[]" "ag_byPerson income" ws'] assms(2) len
  have total: "over_persons person_total (rebuild (ag_byPerson income) ws' []) =
      over_persons person_total (ag_byPerson income) + sum_list (map work_change ws')"
    and keys: "list_all (\<lambda>(k, p). pi_personId p = k) (rebuild (ag_byPerson income) ws' [])"
    by (simp_all add: over_persons_def)
  have change: "sum_list (map (\<lambda>s. ls_allowed s - ls_net s) (ll_shares r)) = sum_list (map work_change ws')"
    by (simp add: r share_result_def work_change_def [abs_def] comp_def)
  have shares: "\<forall>s. s \<in> set (ll_shares r) \<longrightarrow> ls_net s \<le> ls_allowed s \<and> (0 \<le> ls_net s \<longrightarrow> ls_allowed s = ls_net s)"
    using ok'(1) by (auto simp: r list_all_iff work_ok_def share_result_def)
  have "ag_byPerson (ll_income r) = m'" "length (ll_shares r) = length ws'" by (simp_all add: r)
  then show ?thesis
    using excessBusinessLossD [OF ebl keys] total len shares r(4) by (simp only: change r(3)) simp
qed

definition passive_share :: allocated_share where
  "passive_share = \<lparr>al_linkId = ''l1'', al_personId = ''p1'', al_entityType = Partnership, al_activityType = ActPassive,
     al_partnerSeStatus = Some PseLimited, al_isOfficer = False, al_profitFraction = 1, al_lossFraction = 1,
     al_share = no_characters(Ordinary := - 5000), al_guaranteedPayment = 0, al_officerWages = 0, al_sehiAsW2Wages = 0,
     al_ownerSehi = 0, al_ownerRetirement = 0, al_seIncome = 0, al_qbiEligible = None, al_activeParticipation = False,
     al_allowedLossOverride = Some 4000\<rparr>"

definition passive_investor :: aggregated_income where
  "passive_investor = \<lparr>ag_byPerson = [(''p1'', add_share passive_share (person_start sample_person))], ag_otherAboveTheLine = 0,
     ag_itemizedOther = 0\<rparr>"

lemma loss_limits_account_witness:
  "\<exists>r c'. applyLossLimitations passive_investor \<lparr>lo_magi = None, lo_mfsLivedApartAllYear = False\<rparr> couple_ctx = Inr (r, c') \<and>
     map (\<lambda>s. (ls_net s, ls_allowed s)) (ll_shares r) = [(- 5000, 0)] \<and> ll_suspendedPassiveLoss r = 4000 \<and>
     over_persons person_total (ag_byPerson (ll_income r)) = 0"
proof -
  let ?o = "\<lparr>lo_magi = None, lo_mfsLivedApartAllYear = False\<rparr>"
  have "(case applyLossLimitations passive_investor ?o couple_ctx of Inr (r, c') \<Rightarrow>
      map (\<lambda>s. (ls_net s, ls_allowed s)) (ll_shares r) = [(- 5000, 0)] \<and> ll_suspendedPassiveLoss r = 4000 \<and> ll_excessBusinessLoss r = 0
    | Inl x \<Rightarrow> False)" by code_simp
  then obtain r c' where r: "applyLossLimitations passive_investor ?o couple_ctx = Inr (r, c')"
      "map (\<lambda>s. (ls_net s, ls_allowed s)) (ll_shares r) = [(- 5000, 0)]" "ll_suspendedPassiveLoss r = 4000" "ll_excessBusinessLoss r = 0"
    by (auto split: sum.splits)
  have "distinct (map (\<lambda>(k, p). pi_personId p) (ag_byPerson passive_investor))" by (simp add: passive_investor_def)
  from loss_limits_account [OF r(1) this] r(4)
  have "over_persons person_total (ag_byPerson (ll_income r)) = over_persons person_total (ag_byPerson passive_investor) +
      sum_list (map (\<lambda>s. ls_allowed s - ls_net s) (ll_shares r))" by simp
  also have "over_persons person_total (ag_byPerson passive_investor) = - 5000" by code_simp
  also have "sum_list (map (\<lambda>s. ls_allowed s - ls_net s) (ll_shares r)) = 5000"
    using arg_cong [OF r(2), of "\<lambda>xs. sum_list (map (\<lambda>(n, a). a - n) xs)"] by (simp add: comp_def)
  finally show ?thesis using r by auto
qed

end
