(* ===== verification/Qbi.thy ===== *)
theory Qbi
  imports LossLimits
begin

section \<open>Qualified business income deduction (engine/qbi.ts)\<close>

text \<open>
  Step 9 of the federal calculation, section 199A: one component per share, the netting of losses within
  the year, the wage and property limit with its phase-in, the REIT / PTP component, the overall limit,
  the minimum deduction and the manual override.  Company names and reason texts are left out; a share is
  excluded with a reason or not.
\<close>

record qbi_deductions =
  qd_halfSeTax :: money
  qd_sehi :: money
  qd_retirement :: money

record qbi_context =
  qc_taxableIncomeBeforeQbi :: money
  qc_netCapitalGainWithQd :: money
  qc_income :: aggregated_income
  qc_entities :: "allocated_entity list"
  qc_adjustments :: "engine_adjustment list"
  qc_personDeductions :: "(string \<times> qbi_deductions) list"
  qc_section1231Net :: money

datatype exclude_reason = ExCCorp | ExLinkSetting | ExInvestment | ExRental | ExSstb

record qbi_component =
  qp_share :: allocated_share
  qp_eligible :: bool
  qp_reason :: "exclude_reason option"
  qp_sstb :: bool
  qp_qualifiedItems :: money
  qp_attributableDeductions :: money
  qp_qbi :: money
  qp_qbiAfterNetting :: money
  qp_w2Wages :: "money option"
  qp_ubia :: "money option"
  qp_tentative :: money
  qp_wageUbiaLimit :: "money option"
  qp_limitApplied :: bool
  qp_component :: money

datatype qbi_method = QbiManual | QbiComputed | QbiNone

record qbi_result =
  qr_method :: qbi_method
  qr_deduction :: money
  qr_computedDeduction :: money
  qr_taxableIncomeBeforeQbi :: money
  qr_threshold :: money
  qr_phaseInRange :: money
  qr_phaseInFraction :: money
  qr_components :: "qbi_component list"
  qr_netLossCarryforward :: money
  qr_reitPtpIncome :: money
  qr_reitPtpComponent :: money
  qr_combined :: money
  qr_overallLimit :: money
  qr_activeQbi :: money
  qr_minimumApplied :: bool

definition ordinaryEffect :: "engine_adjustment \<Rightarrow> money" where
  "ordinaryEffect a = (case aj_kind a of AdjDeduction \<Rightarrow> - aj_amount a
     | AdjAddback \<Rightarrow> aj_amount a * (case aj_pct a of None \<Rightarrow> 1 | Some p \<Rightarrow> p / 100)
     | AdjIncome \<Rightarrow> if adjustmentCharacter a = Ordinary then aj_amount a else 0)"

fun allocate_parts :: "money \<Rightarrow> money \<Rightarrow> (string \<times> money) list \<Rightarrow> money \<Rightarrow> (string \<times> money) list \<Rightarrow> (string \<times> money) list" where
  "allocate_parts pool tot [] remaining out = out"
| "allocate_parts pool tot ((k, w) # ws) remaining out =
    (let part = (if ws = [] then remaining else rnd 12 (pool * w / tot)) in
     allocate_parts pool tot ws (remaining - part) (AList.update k part out))"

definition allocate :: "money \<Rightarrow> (string \<times> money) list \<Rightarrow> (string \<times> money) list" where
  "allocate pool weights = (let tot = sum_list (map snd weights) in
     if \<not> 0 < pool \<or> \<not> 0 < tot then [] else allocate_parts pool tot weights pool [])"

definition eligibility :: "allocated_share \<Rightarrow> allocated_entity option \<Rightarrow> exclude_reason option" where
  "eligibility s e =
    (if al_entityType s = CCorp then Some ExCCorp
     else if al_qbiEligible s = Some False then Some ExLinkSetting
     else if al_qbiEligible s = Some True then None
     else if al_activityType s = ActInvestment then Some ExInvestment
     else if al_activityType s = ActRental \<and> \<not> (case e of None \<Rightarrow> False | Some a \<Rightarrow> ee_rentalQbiTradeOrBusiness (ae_entity a)) then Some ExRental
     else None)"

definition positive_weights :: "(allocated_share \<Rightarrow> money) \<Rightarrow> allocated_share list \<Rightarrow> (string \<times> money) list" where
  "positive_weights f shares = filter (\<lambda>(k, w). 0 < w) (map (\<lambda>s. (al_linkId s, f s)) shares)"

text \<open>The health insurance add-on: one amount per person, that of the person's first share.\<close>

fun health_add_on :: "string list \<Rightarrow> allocated_share list \<Rightarrow> money" where
  "health_add_on seen [] = 0"
| "health_add_on seen (s # ss) = (if al_personId s \<in> set seen then health_add_on seen ss
     else al_sehiAsW2Wages s + health_add_on (al_personId s # seen) ss)"

definition entityW2Wages :: "allocated_entity \<Rightarrow> money option eng" where
  "entityW2Wages e = (let base = ee_w2WagesEffective (ae_entity e); addOn = health_add_on [] (ae_shares e) in
     if \<not> ee_includeSehiInW2Wages (ae_entity e) \<or> \<not> 0 < addOn then cret base
     else let tot = (case base of None \<Rightarrow> 0 | Some w \<Rightarrow> w) + addOn in
       cbind (itrace ''qbi'' (''qbi.w2_sehi.'' @ ee_companyId (ae_entity e)) tot SrcInput None (Some (entityId (ae_entity e)))) (\<lambda>_.
       cret (Some tot)))"

record qbi_params =
  qq_rate :: money
  qq_threshold :: money
  qq_range :: money
  qq_w2Pct :: money
  qq_altW2Pct :: money
  qq_ubiaPct :: money
  qq_tiLimitPct :: money
  qq_minAmount :: money
  qq_minActiveQbi :: money

definition read_qbi_params :: "filing_status \<Rightarrow> qbi_params eng" where
  "read_qbi_params fs =
    cbind (p_rate ''qbi.rate'') (\<lambda>rate.
    cbind (p_moneyFs ''qbi.threshold'' fs) (\<lambda>threshold.
    cbind (p_moneyFs ''qbi.phase_in_range'' fs) (\<lambda>range1.
    cbind (p_rate ''qbi.w2_wage_pct'') (\<lambda>w2Pct.
    cbind (p_rate ''qbi.alt_w2_wage_pct'') (\<lambda>altW2Pct.
    cbind (p_rate ''qbi.ubia_pct'') (\<lambda>ubiaPct.
    cbind (p_rate ''qbi.taxable_income_limit_pct'') (\<lambda>tiLimitPct.
    cbind (p_money ''qbi.min_deduction_amount'') (\<lambda>minAmount.
    cbind (p_money ''qbi.min_deduction_active_qbi_threshold'') (\<lambda>minActiveQbi.
    cret \<lparr>qq_rate = rate, qq_threshold = threshold, qq_range = range1, qq_w2Pct = w2Pct, qq_altW2Pct = altW2Pct,
      qq_ubiaPct = ubiaPct, qq_tiLimitPct = tiLimitPct, qq_minAmount = minAmount, qq_minActiveQbi = minActiveQbi\<rparr>)))))))))"

definition phase_in :: "money \<Rightarrow> money \<Rightarrow> money" where
  "phase_in excess range1 = (if 0 < range1 then min (max (rnd 12 (excess / range1)) 0) 1 else if 0 < excess then 1 else 0)"

definition scale_opt :: "money \<Rightarrow> money option \<Rightarrow> money option" where
  "scale_opt f = map_option (\<lambda>x. x * f)"

definition share_component :: "qbi_context \<Rightarrow> bool \<Rightarrow> money \<Rightarrow> (string \<times> allocated_entity) list \<Rightarrow> (string \<times> money) list \<Rightarrow>
    (string \<times> money) list \<Rightarrow> allocated_share \<Rightarrow> qbi_component eng" where
  "share_component q aboveThreshold phaseIn entityByLink seAlloc sehiAlloc s =
    (let e = map_of entityByLink (al_linkId s); reason = eligibility s e;
         sstb = (case e of None \<Rightarrow> False | Some a \<Rightarrow> ee_isSstb (ae_entity a));
         empty = \<lparr>qp_share = s, qp_eligible = False, qp_reason = reason, qp_sstb = sstb, qp_qualifiedItems = 0,
           qp_attributableDeductions = 0, qp_qbi = 0, qp_qbiAfterNetting = 0, qp_w2Wages = None, qp_ubia = None, qp_tentative = 0,
           qp_wageUbiaLimit = None, qp_limitApplied = False, qp_component = 0\<rparr> in
     if reason \<noteq> None then cret empty
     else
       let base = al_share s Ordinary + al_share s Rental + (if 0 < qc_section1231Net q then 0 else al_share s Section1231);
           excluded = filter (\<lambda>a. aj_linkId a = Some (al_linkId s) \<and> \<not> aj_affectsQbi a) (qc_adjustments q);
           items = base - sum_list (map ordinaryEffect excluded);
           attributable = amount_of seAlloc (al_linkId s) + amount_of sehiAlloc (al_linkId s);
           qbi = items - attributable;
           fraction = al_profitFraction s in
       cbind (case e of None \<Rightarrow> cret None | Some a \<Rightarrow> entityW2Wages a) (\<lambda>entityW2.
       let w2 = scale_opt fraction entityW2;
           ubia = (case e of None \<Rightarrow> None | Some a \<Rightarrow> scale_opt fraction (ee_ubia (ae_entity a)));
           full = empty\<lparr>qp_eligible := True, qp_qualifiedItems := items, qp_attributableDeductions := attributable,
             qp_qbi := qbi, qp_w2Wages := w2, qp_ubia := ubia\<rparr> in
       if sstb \<and> aboveThreshold then
         if 1 \<le> phaseIn then cret (full\<lparr>qp_eligible := False, qp_reason := Some ExSstb, qp_qbi := 0,
           qp_w2Wages := map_option (\<lambda>_. 0) w2, qp_ubia := map_option (\<lambda>_. 0) ubia\<rparr>)
         else let applicable = 1 - phaseIn in
           cbind (info ''TE_QBI_SSTB_PHASED'' (Some [(''linkId'', DText (al_linkId s))])) (\<lambda>_.
           cret (full\<lparr>qp_qbi := qbi * applicable, qp_w2Wages := scale_opt applicable w2, qp_ubia := scale_opt applicable ubia\<rparr>))
       else cret full))"

definition no_qbi_deductions :: qbi_deductions where
  "no_qbi_deductions = \<lparr>qd_halfSeTax = 0, qd_sehi = 0, qd_retirement = 0\<rparr>"

definition person_components :: "qbi_context \<Rightarrow> bool \<Rightarrow> money \<Rightarrow> (string \<times> allocated_entity) list \<Rightarrow> person_income \<Rightarrow> qbi_component list eng" where
  "person_components q aboveThreshold phaseIn entityByLink p =
    (let ded = (case map_of (qc_personDeductions q) (pi_personId p) of None \<Rightarrow> no_qbi_deductions | Some d \<Rightarrow> d);
         seWeights = positive_weights al_seIncome (pi_shares p);
         sehiWeights = positive_weights al_ownerSehi (pi_shares p);
         wageWeights = positive_weights al_officerWages (pi_shares p);
         sePool = qd_halfSeTax ded + qd_retirement ded;
         seAlloc = allocate sePool seWeights;
         sehiAlloc = allocate (qd_sehi ded) (if sehiWeights \<noteq> [] then sehiWeights else if seWeights \<noteq> [] then seWeights else wageWeights);
         note1 = info ''TE_QBI_DEDUCTION_UNALLOCATED'' (Some [(''personId'', DText (pi_personId p))]) in
     cbind (cwhen (0 < sePool \<and> seWeights = []) note1) (\<lambda>_.
     cbind (cwhen (0 < qd_sehi ded \<and> sehiAlloc = []) note1) (\<lambda>_.
     cmap (share_component q aboveThreshold phaseIn entityByLink seAlloc sehiAlloc) (pi_shares p))))"

definition entity_by_link :: "allocated_entity list \<Rightarrow> (string \<times> allocated_entity) list" where
  "entity_by_link es = fold (\<lambda>e m. fold (\<lambda>s m. AList.update (al_linkId s) e m) (ae_shares e) m) es []"

subsection \<open>Netting\<close>

definition is_gain :: "qbi_component \<Rightarrow> bool" where
  "is_gain c \<longleftrightarrow> qp_eligible c \<and> 0 < qp_qbi c"

definition is_loss :: "qbi_component \<Rightarrow> bool" where
  "is_loss c \<longleftrightarrow> qp_eligible c \<and> qp_qbi c < 0"

definition total_gain :: "qbi_component list \<Rightarrow> money" where
  "total_gain cs = sum_list (map qp_qbi (filter is_gain cs))"

definition total_loss :: "qbi_component list \<Rightarrow> money" where
  "total_loss cs = sum_list (map (\<lambda>c. \<bar>qp_qbi c\<bar>) (filter is_loss cs))"

definition net_component :: "(string \<times> money) list \<Rightarrow> qbi_component \<Rightarrow> qbi_component" where
  "net_component absorbedBy c =
    (if is_gain c then c\<lparr>qp_qbiAfterNetting := qp_qbi c - amount_of absorbedBy (al_linkId (qp_share c))\<rparr>
     else if is_loss c then c\<lparr>qp_qbiAfterNetting := 0, qp_w2Wages := map_option (\<lambda>_. 0) (qp_w2Wages c),
       qp_ubia := map_option (\<lambda>_. 0) (qp_ubia c)\<rparr>
     else c)"

definition netLosses :: "qbi_component list \<Rightarrow> (qbi_component list \<times> money) eng" where
  "netLosses cs =
    (let gain = total_gain cs; loss = total_loss cs; absorbed = min loss gain; carry = floor0 (loss - gain);
         absorbedBy = allocate absorbed (map (\<lambda>c. (al_linkId (qp_share c), qp_qbi c)) (filter is_gain cs)) in
     cbind (cwhen (0 < loss) (cbind (itrace ''qbi'' ''qbi.loss_netting'' (- absorbed) SrcGlMap None None) (\<lambda>_.
       cwhen (0 < carry) (warn ''TE_QBI_NET_LOSS_CARRYFORWARD'' (Some [(''netLossCarryforward'', DAmt carry)]))))) (\<lambda>_.
     cret (map (net_component absorbedBy) cs, carry)))"

subsection \<open>Wage and property limit\<close>

definition or_zero :: "money option \<Rightarrow> money" where
  "or_zero x = (case x of None \<Rightarrow> 0 | Some q \<Rightarrow> q)"

definition wage_limit :: "qbi_params \<Rightarrow> qbi_component \<Rightarrow> money" where
  "wage_limit ps c = (let w2 = or_zero (qp_w2Wages c); w2Limb = qq_w2Pct ps * w2 in
     case qp_ubia c of None \<Rightarrow> w2Limb | Some u \<Rightarrow> max w2Limb (qq_altW2Pct ps * w2 + qq_ubiaPct ps * u))"

definition limitComponent :: "qbi_params \<Rightarrow> filing_status \<Rightarrow> bool \<Rightarrow> money \<Rightarrow> qbi_component \<Rightarrow> qbi_component eng" where
  "limitComponent ps fs aboveThreshold phaseIn c =
    (if \<not> qp_eligible c then cret c
     else let tentative = qq_rate ps * qp_qbiAfterNetting c; limit = wage_limit ps c;
              limited = (aboveThreshold \<and> 0 < qp_qbiAfterNetting c); over = (limited \<and> limit < tentative);
              component = (if over then if 1 \<le> phaseIn then limit else tentative - (tentative - limit) * phaseIn else tentative);
              thresholdKeys = [''qbi.rate'', filingStatusKey ''qbi.threshold'' fs, filingStatusKey ''qbi.phase_in_range'' fs];
              link = Some [(''linkId'', DText (al_linkId (qp_share c)))] in
       cbind (cwhen (limited \<and> qp_w2Wages c = None) (warn ''TE_QBI_W2_WAGES_MISSING'' link)) (\<lambda>_.
       cbind (cwhen (limited \<and> qp_ubia c = None) (warn ''TE_QBI_UBIA_MISSING'' link)) (\<lambda>_.
       cbind (trace_add ((row ''qbi'' (''qbi.component.'' @ al_linkId (qp_share c)) component SrcParameter)
         \<lparr>tr_person := Some (al_personId (qp_share c)), tr_keys := Some (thresholdKeys @
           (if limited then [''qbi.w2_wage_pct'', ''qbi.alt_w2_wage_pct'', ''qbi.ubia_pct''] else []))\<rparr>)) (\<lambda>_.
       cret (c\<lparr>qp_tentative := tentative, qp_wageUbiaLimit := if limited then Some limit else None, qp_limitApplied := over,
         qp_component := component\<rparr>)))))"

subsection \<open>The step\<close>

definition minimumDeduction :: "qbi_params \<Rightarrow> money \<Rightarrow> money \<Rightarrow> money \<Rightarrow> (money \<times> bool) eng" where
  "minimumDeduction ps activeQbi ti computed =
    (let floor1 = min (qq_minAmount ps) (floor0 ti) in
     if 0 < qq_minAmount ps \<and> qq_minActiveQbi ps \<le> activeQbi \<and> computed < qq_minAmount ps \<and> computed < floor1 then
       cbind (info ''TE_QBI_MINIMUM_APPLIED'' (Some [(''activeQbi'', DAmt activeQbi)])) (\<lambda>_. cret (floor1, True))
     else cret (computed, False))"

definition qbiComponents :: "qbi_context \<Rightarrow> qbi_params \<Rightarrow> filing_status \<Rightarrow> bool \<Rightarrow> money \<Rightarrow> (qbi_component list \<times> money) eng" where
  "qbiComponents q ps fs aboveThreshold phaseIn =
    cbind (cmap (person_components q aboveThreshold phaseIn (entity_by_link (qc_entities q))) (map snd (ag_byPerson (qc_income q)))) (\<lambda>css.
    cbind (netLosses (concat css)) (\<lambda>(netted, carry).
    cbind (cmap (limitComponent ps fs aboveThreshold phaseIn) netted) (\<lambda>cs.
    cbind (cdo (\<lambda>c. cwhen (\<not> qp_eligible c \<and> sumCharacters (al_share (qp_share c)) \<noteq> 0)
      (info ''TE_QBI_LINK_EXCLUDED'' (Some [(''linkId'', DText (al_linkId (qp_share c)))]))) cs) (\<lambda>_.
    cret (cs, carry)))))"

definition computeQbi :: "money option \<Rightarrow> qbi_context \<Rightarrow> qbi_result eng" where
  "computeQbi manualDeduction q =
    cbind (cget cx_fs) (\<lambda>fs.
    cbind (read_qbi_params fs) (\<lambda>ps.
    let ti = qc_taxableIncomeBeforeQbi q; excess = ti - qq_threshold ps; phaseIn = phase_in excess (qq_range ps);
        aboveThreshold = (0 < excess); persons = map snd (ag_byPerson (qc_income q));
        thresholdKeys = [''qbi.rate'', filingStatusKey ''qbi.threshold'' fs, filingStatusKey ''qbi.phase_in_range'' fs] in
    cbind (qbiComponents q ps fs aboveThreshold phaseIn) (\<lambda>(cs, carry).
    let live = filter qp_eligible cs;
        componentsTotal = sum_list (map qp_component live);
        activeQbi = sum_list (map qp_qbi (filter (\<lambda>c. al_activityType (qp_share c) = ActActive) live));
        reitPtpIncome = sum_list (map (\<lambda>p. pi_reitDividends p + pi_ptpIncome p) persons);
        reitPtpComponent = qq_rate ps * floor0 reitPtpIncome in
    cbind (cwhen (reitPtpIncome < 0) (info ''TE_QBI_PTP_LOSS_CARRYFORWARD'' None)) (\<lambda>_.
    cbind (cwhen (reitPtpIncome \<noteq> 0) (trace_add ((row ''qbi'' ''qbi.reit_ptp'' reitPtpComponent SrcParameter)\<lparr>tr_keys := Some [''qbi.rate'']\<rparr>))) (\<lambda>_.
    let combined = componentsTotal + reitPtpComponent;
        overallLimit = qq_tiLimitPct ps * floor0 (ti - qc_netCapitalGainWithQd q) in
    cbind (minimumDeduction ps activeQbi ti (floor0 (min combined overallLimit))) (\<lambda>(computed, minimumApplied).
    cbind (trace_add ((row ''qbi'' ''qbi.taxable_income_base'' ti SrcParameter)\<lparr>tr_keys := Some thresholdKeys\<rparr>)) (\<lambda>_.
    cbind (trace_add ((row ''qbi'' ''qbi.overall_limit'' overallLimit SrcParameter)\<lparr>tr_keys := Some [''qbi.taxable_income_limit_pct'']\<rparr>)) (\<lambda>_.
    let method = (case manualDeduction of Some x \<Rightarrow> QbiManual
          | None \<Rightarrow> if live \<noteq> [] \<or> 0 < reitPtpComponent then QbiComputed else QbiNone);
        deduction = (case manualDeduction of Some x \<Rightarrow> floor0 x | None \<Rightarrow> computed) in
    cbind (cwhen (manualDeduction \<noteq> None) (warn ''TE_QBI_MANUAL_OVERRIDE'' (Some [(''manual'', DAmt deduction), (''computed'', DAmt computed)]))) (\<lambda>_.
    cbind (trace_add ((row ''qbi'' ''qbi'' deduction (if method = QbiManual then SrcInput else SrcParameter))
      \<lparr>tr_keys := if method = QbiManual then None
        else Some [''qbi.taxable_income_limit_pct'', ''qbi.min_deduction_amount'', ''qbi.min_deduction_active_qbi_threshold'']\<rparr>)) (\<lambda>_.
    cret \<lparr>qr_method = method, qr_deduction = deduction, qr_computedDeduction = computed, qr_taxableIncomeBeforeQbi = ti,
      qr_threshold = qq_threshold ps, qr_phaseInRange = qq_range ps, qr_phaseInFraction = phaseIn, qr_components = cs,
      qr_netLossCarryforward = carry, qr_reitPtpIncome = reitPtpIncome, qr_reitPtpComponent = reitPtpComponent,
      qr_combined = combined, qr_overallLimit = overallLimit, qr_activeQbi = activeQbi, qr_minimumApplied = minimumApplied\<rparr>))))))))))"

lemma sound_qbi [eng_sound]:
  "sound (read_qbi_params fs)" "sound (netLosses cs)" "sound (limitComponent ps fs a ph c)" "sound (minimumDeduction ps active ti x)"
  "sound (entityW2Wages e)"
  unfolding read_qbi_params_def netLosses_def limitComponent_def minimumDeduction_def entityW2Wages_def
  by (intro eng_sound)+

lemma sound_share_component [eng_sound]: "sound (share_component q a ph m s1 s2 s)"
  unfolding share_component_def by (intro eng_sound)

lemma sound_person_components [eng_sound]: "sound (person_components q a ph m p)"
  unfolding person_components_def Let_def by (intro eng_sound)

lemma sound_qbiComponents [eng_sound]: "sound (qbiComponents q ps fs a ph)"
  unfolding qbiComponents_def by (intro eng_sound)

lemma sound_computeQbi [eng_sound]: "sound (computeQbi manual q)"
  unfolding computeQbi_def by (intro eng_sound)

subsection \<open>What the deduction guarantees\<close>

lemma phase_in_range: "0 \<le> phase_in x y \<and> phase_in x y \<le> 1"
  by (simp add: phase_in_def)

lemma allocate_parts_sum:
  "ws \<noteq> [] \<Longrightarrow> distinct (map fst out @ map fst ws) \<Longrightarrow>
   sum_list (map snd (allocate_parts pool tot ws remaining out)) = sum_list (map snd out) + remaining \<and>
   map fst (allocate_parts pool tot ws remaining out) = map fst out @ map fst ws"
proof (induction pool tot ws remaining out rule: allocate_parts.induct)
  case (2 pool tot k w ws remaining out)
  let ?part = "if ws = [] then remaining else rnd 12 (pool * w / tot)"
  have up: "AList.update k ?part out = out @ [(k, ?part)]" using "2.prems"(2) by (intro update_fresh) auto
  show ?case
  proof (cases "ws = []")
    case True
    with up show ?thesis by (simp add: Let_def)
  next
    case False
    with "2.IH" [OF refl False] "2.prems"(2) up show ?thesis by (simp add: Let_def)
  qed
qed simp

lemma allocate_sum:
  assumes "0 < pool" "0 < sum_list (map snd ws)" "distinct (map fst ws)"
  shows "sum_list (map (amount_of (allocate pool ws)) (map fst ws)) = pool"
proof -
  have "ws \<noteq> []" using assms(2) by auto
  with allocate_parts_sum [OF this, of "[]" pool "sum_list (map snd ws)" pool] assms
  have m: "total_of (allocate pool ws) = pool" "map fst (allocate pool ws) = map fst ws"
    by (simp_all add: allocate_def Let_def total_of_def)
  then show ?thesis using amounts_over_persons [of "allocate pool ws" "map fst ws"] assms(3)
    by (metis set_map order_refl)
qed

lemma sum_gain_loss: "sum_list (map qp_qbi (filter qp_eligible cs)) = total_gain cs - total_loss cs"
  by (induction cs) (auto simp: total_gain_def total_loss_def is_gain_def is_loss_def)

lemma net_component_same [simp]:
  "qp_eligible (net_component a c) = qp_eligible c" "qp_qbi (net_component a c) = qp_qbi c" "qp_share (net_component a c) = qp_share c"
  by (simp_all add: net_component_def)

lemma netted_total:
  assumes "\<forall>c \<in> set cs. qp_qbiAfterNetting c = 0"
  shows "sum_list (map qp_qbiAfterNetting (filter qp_eligible (map (net_component a) cs))) =
    total_gain cs - sum_list (map (\<lambda>c. amount_of a (al_linkId (qp_share c))) (filter is_gain cs))"
  using assms
  by (induction cs) (auto simp: total_gain_def net_component_def is_gain_def is_loss_def)

lemma netLosses_conserves:
  assumes "netLosses cs c = Inr ((cs', carry), c')" "distinct (map (\<lambda>x. al_linkId (qp_share x)) (filter is_gain cs))"
    and "\<forall>x \<in> set cs. qp_qbiAfterNetting x = 0"
  shows "sum_list (map qp_qbiAfterNetting (filter qp_eligible cs')) = sum_list (map qp_qbi (filter qp_eligible cs)) + carry \<and>
    carry = floor0 (total_loss cs - total_gain cs) \<and> map qp_share cs' = map qp_share cs \<and> map qp_qbi cs' = map qp_qbi cs \<and>
    map qp_eligible cs' = map qp_eligible cs"
proof -
  let ?ws = "map (\<lambda>x. (al_linkId (qp_share x), qp_qbi x)) (filter is_gain cs)"
  let ?ab = "min (total_loss cs) (total_gain cs)"
  from assms(1) have out: "cs' = map (net_component (allocate ?ab ?ws)) cs" "carry = floor0 (total_loss cs - total_gain cs)"
    by (auto simp: netLosses_def cbind_apply ebind_Inr_iff Let_def)
  have gain: "sum_list (map snd ?ws) = total_gain cs" by (simp add: total_gain_def comp_def)
  have nonneg: "0 \<le> total_gain cs" "0 \<le> total_loss cs"
    by (auto simp: total_gain_def total_loss_def is_gain_def intro!: sum_list_nonneg)
  have "sum_list (map (\<lambda>x. amount_of (allocate ?ab ?ws) (al_linkId (qp_share x))) (filter is_gain cs)) = ?ab"
  proof (cases "0 < ?ab")
    case True
    with allocate_sum [OF True, of ?ws] gain assms(2) show ?thesis by (simp add: comp_def)
  next
    case False
    then have zero: "?ab = 0" using nonneg by (simp add: min_def split: if_splits)
    have "sum_list (map (\<lambda>x. amount_of [] (al_linkId (qp_share x))) ys) = 0" for ys
      by (induction ys) (simp_all add: amount_of_def)
    with False show ?thesis unfolding zero by (simp add: allocate_def)
  qed
  with netted_total [OF assms(3)] sum_gain_loss [of cs] out
  show ?thesis by (auto simp: floor0_def min_def max_def comp_def)
qed

lemma limitComponentD:
  assumes "limitComponent ps fs abv ph c0 c = Inr (x, c')" "0 \<le> ph"
  shows "qp_share x = qp_share c0 \<and> qp_eligible x = qp_eligible c0 \<and> qp_qbi x = qp_qbi c0 \<and>
    qp_qbiAfterNetting x = qp_qbiAfterNetting c0 \<and> (qp_eligible x \<longrightarrow> qp_tentative x = qq_rate ps * qp_qbiAfterNetting x \<and>
      qp_component x \<le> qp_tentative x)"
  using assms
  by (auto simp: limitComponent_def cbind_apply ebind_Inr_iff Let_def split: if_splits intro!: mult_nonneg_nonneg)

lemma limitComponents:
  assumes "cmap (limitComponent ps fs abv ph) cs c = Inr (cs', c')" "0 \<le> ph"
  shows "map qp_share cs' = map qp_share cs \<and> map qp_eligible cs' = map qp_eligible cs \<and> map qp_qbi cs' = map qp_qbi cs \<and>
    map qp_qbiAfterNetting cs' = map qp_qbiAfterNetting cs \<and>
    list_all (\<lambda>x. qp_eligible x \<longrightarrow> qp_tentative x = qq_rate ps * qp_qbiAfterNetting x \<and> qp_component x \<le> qp_tentative x) cs'"
  using assms(1)
proof (induction cs arbitrary: c cs')
  case (Cons c0 cs)
  from Cons.prems obtain x xs c1 where run: "limitComponent ps fs abv ph c0 c = Inr (x, c1)"
      "cmap (limitComponent ps fs abv ph) cs c1 = Inr (xs, c')" "cs' = x # xs"
    by (auto simp: cbind_apply ebind_Inr_iff)
  from limitComponentD [OF run(1) assms(2)] Cons.IH [OF run(2)] run(3) show ?case by auto
qed simp

lemma filter_by_flags:
  "map qp_eligible xs = map qp_eligible ys \<Longrightarrow> map f xs = map f ys \<Longrightarrow> map f (filter qp_eligible xs) = map f (filter qp_eligible ys)"
  by (induction xs ys rule: list_induct2') auto

lemma share_component_start: "share_component q abv ph m a1 a2 s c = Inr (x, c') \<Longrightarrow> qp_qbiAfterNetting x = 0"
  by (auto simp: share_component_def cbind_apply ebind_Inr_iff Let_def split: if_splits)

lemma person_components_start:
  assumes "person_components q abv ph m p c = Inr (xs, c')"
  shows "list_all (\<lambda>x. qp_qbiAfterNetting x = 0) xs"
proof -
  from assms obtain a1 a2 c1 where "cmap (share_component q abv ph m a1 a2) (pi_shares p) c1 = Inr (xs, c')"
    by (auto simp: person_components_def cbind_apply ebind_Inr_iff Let_def)
  then show ?thesis by (rule cmap_all) (rule share_component_start)
qed

text \<open>
  C35: the netting within the year moves losses and creates none: over the qualified businesses the income
  after netting less the loss carried forward is the sum of the incomes and losses before it; each
  component is at most the rate times the income after netting; without the minimum the computed
  deduction is the smaller of the components' tot and the overall limit, floored at zero, and the
  manual amount only replaces the deduction taken.
\<close>

theorem qbi_accounts:
  assumes "computeQbi manual q c = Inr (r, c')"
    and "distinct (map (\<lambda>x. al_linkId (qp_share x)) (filter is_gain (qr_components r)))"
  shows "sum_list (map qp_qbiAfterNetting (filter qp_eligible (qr_components r))) - qr_netLossCarryforward r =
      sum_list (map qp_qbi (filter qp_eligible (qr_components r))) \<and>
    0 \<le> qr_netLossCarryforward r \<and>
    (\<forall>x. x \<in> set (qr_components r) \<longrightarrow> qp_eligible x \<longrightarrow> qp_component x \<le> stored_num (cx_params c) ''qbi.rate'' * qp_qbiAfterNetting x) \<and>
    qr_combined r = sum_list (map qp_component (filter qp_eligible (qr_components r))) + qr_reitPtpComponent r \<and>
    (\<not> qr_minimumApplied r \<longrightarrow> qr_computedDeduction r = floor0 (min (qr_combined r) (qr_overallLimit r))) \<and>
    qr_deduction r = (case manual of None \<Rightarrow> qr_computedDeduction r | Some x \<Rightarrow> floor0 x)"
proof -
  from assms(1) obtain ps carry abv fs active c1 c2 c5 c6 where
      ps: "read_qbi_params fs c = Inr (ps, c1)"
    and comps: "qbiComponents q ps fs abv (phase_in (qc_taxableIncomeBeforeQbi q - qq_threshold ps) (qq_range ps)) c1 =
        Inr ((qr_components r, carry), c2)"
    and r: "qr_netLossCarryforward r = carry"
      "qr_combined r = sum_list (map qp_component (filter qp_eligible (qr_components r))) + qr_reitPtpComponent r"
      "minimumDeduction ps active (qc_taxableIncomeBeforeQbi q) (floor0 (min (qr_combined r) (qr_overallLimit r))) c5 =
        Inr ((qr_computedDeduction r, qr_minimumApplied r), c6)"
      "qr_deduction r = (case manual of None \<Rightarrow> qr_computedDeduction r | Some x \<Rightarrow> floor0 x)"
    unfolding computeQbi_def Let_def by (auto simp: cbind_apply ebind_Inr_iff cong: option.case_cong)
  define ph where "ph = phase_in (qc_taxableIncomeBeforeQbi q - qq_threshold ps) (qq_range ps)"
  from comps obtain css netted c3 c4 where
      css: "cmap (person_components q abv ph (entity_by_link (qc_entities q))) (map snd (ag_byPerson (qc_income q))) c1 = Inr (css, c3)"
    and net: "netLosses (concat css) c3 = Inr ((netted, carry), c4)"
    and lim: "\<exists>c7. cmap (limitComponent ps fs abv ph) netted c4 = Inr (qr_components r, c7)"
    unfolding qbiComponents_def ph_def [symmetric] by (auto simp: cbind_apply ebind_Inr_iff)
  from lim obtain c7 where lim: "cmap (limitComponent ps fs abv ph) netted c4 = Inr (qr_components r, c7)" by blast
  have min: "\<not> qr_minimumApplied r \<longrightarrow> qr_computedDeduction r = floor0 (min (qr_combined r) (qr_overallLimit r))"
    using r(3) by (auto simp: minimumDeduction_def cbind_apply ebind_Inr_iff Let_def split: if_splits)
  have rate: "qq_rate ps = stored_num (cx_params c) ''qbi.rate''"
    using ps unfolding read_qbi_params_def by (auto simp: cbind_apply ebind_Inr_iff dest!: p_rateD)
  have zero: "\<forall>x \<in> set (concat css). qp_qbiAfterNetting x = 0"
    using cmap_all [OF css person_components_start] by (auto simp: list_all_iff)
  have "0 \<le> ph" using phase_in_range by (simp add: ph_def)
  note L = limitComponents [OF lim this]
  have same: "map (\<lambda>x. (qp_share x, qp_eligible x, qp_qbi x)) netted = map (\<lambda>x. (qp_share x, qp_eligible x, qp_qbi x)) (qr_components r)"
    using L by (simp add: list_eq_iff_nth_eq)
  have gains: "map (\<lambda>x. al_linkId (qp_share x)) (filter is_gain xs) =
      map (\<lambda>(s, e, b). al_linkId s) (filter (\<lambda>(s, e, b). e \<and> 0 < b) (map (\<lambda>x. (qp_share x, qp_eligible x, qp_qbi x)) xs))" for xs
    by (induction xs) (auto simp: is_gain_def)
  from net obtain ab where netted: "netted = map (net_component ab) (concat css)"
    by (auto simp: netLosses_def cbind_apply ebind_Inr_iff Let_def)
  have before: "map (\<lambda>x. (qp_share x, qp_eligible x, qp_qbi x)) (concat css) = map (\<lambda>x. (qp_share x, qp_eligible x, qp_qbi x)) netted"
    by (simp add: netted)
  have "distinct (map (\<lambda>x. al_linkId (qp_share x)) (filter is_gain (concat css)))"
    using assms(2) unfolding gains same [symmetric] before .
  from netLosses_conserves [OF net this zero] have N: "carry = floor0 (total_loss (concat css) - total_gain (concat css))"
      "sum_list (map qp_qbiAfterNetting (filter qp_eligible netted)) = sum_list (map qp_qbi (filter qp_eligible (concat css))) + carry"
      "map qp_qbi netted = map qp_qbi (concat css)" "map qp_eligible netted = map qp_eligible (concat css)" by simp_all
  have "sum_list (map qp_qbiAfterNetting (filter qp_eligible (qr_components r))) = sum_list (map qp_qbiAfterNetting (filter qp_eligible netted))"
    "sum_list (map qp_qbi (filter qp_eligible (qr_components r))) = sum_list (map qp_qbi (filter qp_eligible (concat css)))"
    using L N(3,4) by (metis filter_by_flags)+
  with N(1,2) r(1,2,4) min L rate show ?thesis by (auto simp: list_all_iff)
qed

definition shop_share :: "string \<Rightarrow> money \<Rightarrow> allocated_share" where
  "shop_share l x = passive_share\<lparr>al_linkId := l, al_entityType := SchC, al_activityType := ActActive, al_partnerSeStatus := None,
     al_share := no_characters(Ordinary := x), al_allowedLossOverride := None\<rparr>"

definition shop_keeper :: qbi_context where
  "shop_keeper = \<lparr>qc_taxableIncomeBeforeQbi = 90000, qc_netCapitalGainWithQd = 0,
     qc_income = \<lparr>ag_byPerson = [(''p1'', add_share (shop_share ''l2'' (- 30000)) (add_share (shop_share ''l1'' 100000) (person_start sample_person)))],
       ag_otherAboveTheLine = 0, ag_itemizedOther = 0\<rparr>,
     qc_entities = [], qc_adjustments = [], qc_personDeductions = [], qc_section1231Net = 0\<rparr>"

definition sample_qbi_params :: "(string \<times> resolved) list" where
  "sample_qbi_params = num_params [(''qbi.rate'', 1 / 5), (''qbi.threshold.mfj'', 394600), (''qbi.phase_in_range.mfj'', 100000),
     (''qbi.w2_wage_pct'', 1 / 2), (''qbi.alt_w2_wage_pct'', 1 / 4), (''qbi.ubia_pct'', 25 / 1000), (''qbi.taxable_income_limit_pct'', 1 / 5),
     (''qbi.min_deduction_amount'', 0), (''qbi.min_deduction_active_qbi_threshold'', 0)]"

lemma qbi_accounts_witness:
  "\<exists>r c'. computeQbi None shop_keeper (new_ctx sample_qbi_params 2025 Mfj) = Inr (r, c') \<and>
     sum_list (map qp_qbiAfterNetting (filter qp_eligible (qr_components r))) = 70000 \<and> qr_deduction r = 14000"
proof -
  let ?c = "new_ctx sample_qbi_params 2025 Mfj"
  have "(case computeQbi None shop_keeper ?c of Inr (r, c') \<Rightarrow>
      map (\<lambda>x. al_linkId (qp_share x)) (filter is_gain (qr_components r)) = [''l1''] \<and> qr_netLossCarryforward r = 0 \<and>
      sum_list (map qp_qbi (filter qp_eligible (qr_components r))) = 70000 \<and> qr_computedDeduction r = 14000 | Inl x \<Rightarrow> False)" by code_simp
  then obtain r c' where r: "computeQbi None shop_keeper ?c = Inr (r, c')"
      "map (\<lambda>x. al_linkId (qp_share x)) (filter is_gain (qr_components r)) = [''l1'']" "qr_netLossCarryforward r = 0"
      "sum_list (map qp_qbi (filter qp_eligible (qr_components r))) = 70000" "qr_computedDeduction r = 14000"
    by (auto split: sum.splits)
  from qbi_accounts [OF r(1)] r show ?thesis by auto
qed

end
