(* ===== verification/Totality.thy ===== *)
theory Totality
  imports Qbi PayrollTaxes RegularTax OwnerDeductions Dependents
begin

section \<open>When the steps return\<close>

text \<open>
  A step throws on a missing or ill-typed parameter, on a division by zero and on a taxpayer without
  persons.  \<open>params_complete\<close> lists what the parameter set must hold for a filing status; under it every
  step returns, whatever its other inputs, and the values some steps need of each other are stated as
  postconditions of \<open>runs_to\<close>.
\<close>

record env =
  ev_params :: "(string \<times> resolved) list"
  ev_fs :: filing_status
  ev_persons :: "person_ref list"

definition in_env :: "env \<Rightarrow> ectx \<Rightarrow> bool" where
  "in_env E c \<longleftrightarrow> cx_params c = ev_params E \<and> cx_fs c = ev_fs E \<and> cx_persons c = ev_persons E"

definition runs_to :: "env \<Rightarrow> ('a \<Rightarrow> bool) \<Rightarrow> 'a eng \<Rightarrow> bool" where
  "runs_to E Q m \<longleftrightarrow> (\<forall>c. in_env E c \<longrightarrow> (\<exists>x c'. m c = Inr (x, c') \<and> in_env E c' \<and> Q x))"

abbreviation runs :: "env \<Rightarrow> 'a eng \<Rightarrow> bool" where
  "runs E m \<equiv> runs_to E (\<lambda>_. True) m"

named_theorems runs_rules "computations that return"

lemma runs_toD: "runs_to E Q m \<Longrightarrow> in_env E c \<Longrightarrow> \<exists>x c'. m c = Inr (x, c') \<and> in_env E c' \<and> Q x"
  by (simp add: runs_to_def)

lemma runs_to_weaken: "runs_to E Q m \<Longrightarrow> (\<And>x. Q x \<Longrightarrow> R x) \<Longrightarrow> runs_to E R m"
  unfolding runs_to_def by blast

lemma runs_to_bind:
  assumes "runs_to E Q m" "\<And>x. Q x \<Longrightarrow> runs_to E R (f x)"
  shows "runs_to E R (cbind m f)"
  unfolding runs_to_def
proof (intro allI impI)
  fix c assume "in_env E c"
  then obtain x c1 where x: "m c = Inr (x, c1)" "in_env E c1" "Q x" using assms(1) by (meson runs_toD)
  then obtain y c2 where "f x c1 = Inr (y, c2)" "in_env E c2" "R y" using assms(2) by (meson runs_toD)
  with x show "\<exists>y c'. cbind m f c = Inr (y, c') \<and> in_env E c' \<and> R y" by (simp add: cbind_def)
qed

lemma runs_cret [runs_rules]: "Q x \<Longrightarrow> runs_to E Q (cret x)"
  by (simp add: runs_to_def)

lemma runs_bind: "runs E m \<Longrightarrow> (\<And>x. runs_to E R (f x)) \<Longrightarrow> runs_to E R (cbind m f)"
  by (rule runs_to_bind)

lemma runs_bind_fs [runs_rules]: "runs_to E Q (f (ev_fs E)) \<Longrightarrow> runs_to E Q (cbind (cget cx_fs) f)"
  by (auto simp: runs_to_def cbind_def in_env_def)

lemma runs_cget: "runs E (cget g)"
  by (simp add: runs_to_def)

lemma runs_bind_clift:
  "\<exists>x. r = Inr x \<Longrightarrow> (\<And>x. r = Inr x \<Longrightarrow> runs_to E Q (f x)) \<Longrightarrow> runs_to E Q (cbind (clift r) f)"
  by (auto simp: runs_to_def cbind_def)

lemma runs_if [runs_rules]: "(b \<Longrightarrow> runs_to E Q m) \<Longrightarrow> (\<not> b \<Longrightarrow> runs_to E Q n) \<Longrightarrow> runs_to E Q (if b then m else n)"
  by simp

lemma runs_when [runs_rules]: "(b \<Longrightarrow> runs E m) \<Longrightarrow> runs E (cwhen b m)"
  by (cases b) (auto simp: cwhen_def intro: runs_cret)

text \<open>A key or a computation bound by \<open>let\<close> is put in place, an amount is left arbitrary.\<close>

lemma runs_Let_key:
  fixes k :: string
  shows "runs_to E Q (f k) \<Longrightarrow> runs_to E Q (let x = k in f x)"
  by simp

lemma runs_Let_step:
  fixes m :: "unit eng"
  shows "runs_to E Q (f m) \<Longrightarrow> runs_to E Q (let x = m in f x)"
  by simp

lemma runs_Let: "(\<And>x. runs_to E Q (f x)) \<Longrightarrow> runs_to E Q (let x = e in f x)"
  by simp

lemma runs_case_option [runs_rules]:
  "(x = None \<Longrightarrow> runs_to E Q m) \<Longrightarrow> (\<And>y. x = Some y \<Longrightarrow> runs_to E Q (f y)) \<Longrightarrow> runs_to E Q (case x of None \<Rightarrow> m | Some y \<Rightarrow> f y)"
  by (cases x) auto

lemma runs_case_prod [runs_rules]: "(\<And>a b. p = (a, b) \<Longrightarrow> runs_to E Q (f a b)) \<Longrightarrow> runs_to E Q (case p of (a, b) \<Rightarrow> f a b)"
  by (cases p) simp

lemma runs_case_list [runs_rules]:
  "runs_to E Q m \<Longrightarrow> (\<And>x xs. runs_to E Q (f x xs)) \<Longrightarrow> runs_to E Q (case l of [] \<Rightarrow> m | x # xs \<Rightarrow> f x xs)"
  by (cases l) auto

lemma runs_trace_warn [runs_rules]:
  "runs E (trace_add r)" "runs E (warn_sev k d s)" "runs E (warn k d)" "runs E (info k d)" "runs E (itrace step ident x src p e)"
  by (auto simp: row_def runs_to_def trace_add_def warn_def info_def warn_sev_def itrace_def in_env_def)

lemma runs_cfold:
  assumes "\<And>x s. x \<in> set xs \<Longrightarrow> I s \<Longrightarrow> runs_to E I (f x s)" "I s"
  shows "runs_to E I (cfold f xs s)"
  using assms by (induction xs arbitrary: s) (auto intro!: runs_cret intro: runs_to_bind)

lemma runs_cmap:
  assumes "\<And>x. x \<in> set xs \<Longrightarrow> runs_to E Q (f x)"
  shows "runs_to E (list_all Q) (cmap f xs)"
  using assms
proof (induction xs)
  case (Cons x xs)
  then have "runs_to E (list_all Q) (cbind (cmap f xs) (\<lambda>ys. cret (y # ys)))" if "Q y" for y
    using that by (auto intro!: runs_to_bind [of _ "list_all Q"] runs_cret)
  with Cons.prems show ?case by (auto intro!: runs_to_bind [of _ Q])
qed (simp add: runs_cret)

lemma runs_cfold_plain [runs_rules]: "(\<And>x s. runs E (f x s)) \<Longrightarrow> runs E (cfold f xs s)"
  by (rule runs_cfold) auto

lemma runs_cmap_plain [runs_rules]: "(\<And>x. runs E (f x)) \<Longrightarrow> runs E (cmap f xs)"
  by (rule runs_to_weaken [OF runs_cmap]) auto

lemma runs_cdo [runs_rules]: "(\<And>x. runs E (f x)) \<Longrightarrow> runs E (cdo f xs)"
  by (simp add: cdo_def runs_cfold_plain)

subsection \<open>Reading the parameters\<close>

definition number_at :: "env \<Rightarrow> string \<Rightarrow> bool" where
  "number_at E k = (case map_of (ev_params E) k of Some p \<Rightarrow> is_num (rp_value p) | None \<Rightarrow> False)"

definition integer_at :: "env \<Rightarrow> string \<Rightarrow> bool" where
  "integer_at E k = (case map_of (ev_params E) k of Some p \<Rightarrow> is_integer (rp_value p) | None \<Rightarrow> False)"

definition list_at :: "env \<Rightarrow> (json \<Rightarrow> bool) \<Rightarrow> nat \<Rightarrow> string \<Rightarrow> bool" where
  "list_at E P n k = (case map_of (ev_params E) k of
     Some p \<Rightarrow> (case rp_value p of JArr xs \<Rightarrow> list_all P xs \<and> n \<le> length xs | _ \<Rightarrow> False) | None \<Rightarrow> False)"

definition brackets_at :: "env \<Rightarrow> string \<Rightarrow> bool" where
  "brackets_at E k = (case map_of (ev_params E) k of
     Some p \<Rightarrow> (case as_brackets k (rp_value p) of Inr bs \<Rightarrow> True | Inl e \<Rightarrow> False) | None \<Rightarrow> False)"

lemma runs_p_read:
  assumes "\<exists>p. map_of (ev_params E) k = Some p \<and> g k (rp_value p) = Inr y" "Q y"
  shows "runs_to E Q (p_read g k)"
  using assms by (auto simp: runs_to_def p_read_def p_raw_def cbind_def in_env_def note_use_def)

lemma runs_p_money: "number_at E k \<Longrightarrow> runs_to E (\<lambda>x. x = stored_num (ev_params E) k) (p_money k)"
  unfolding p_money_def
  by (rule runs_p_read) (auto simp: number_at_def as_number_def stored_num_def stored_def num_of_def is_num_def
      split: option.splits json.splits)

lemma runs_bind_money [runs_rules]:
  "number_at E k \<Longrightarrow> runs_to E Q (f (stored_num (ev_params E) k)) \<Longrightarrow> runs_to E Q (cbind (p_money k) f)"
  "number_at E k \<Longrightarrow> runs_to E Q (f (stored_num (ev_params E) k)) \<Longrightarrow> runs_to E Q (cbind (p_rate k) f)"
  "number_at E (filingStatusKey k fs) \<Longrightarrow> runs_to E Q (f (stored_num (ev_params E) (filingStatusKey k fs))) \<Longrightarrow>
    runs_to E Q (cbind (p_moneyFs k fs) f)"
  using runs_to_bind [OF runs_p_money [of E k]] runs_to_bind [OF runs_p_money [of E "filingStatusKey k fs"]]
  by (auto simp: p_rate_def p_money_def p_moneyFs_def)

lemma runs_bind_int [runs_rules]:
  assumes "integer_at E k" "\<And>x. runs_to E Q (f x)"
  shows "runs_to E Q (cbind (p_int k) f)"
proof -
  have "runs E (p_int k)"
    unfolding p_int_def using assms(1)
    by (intro runs_p_read [where y = "\<lfloor>stored_num (ev_params E) k\<rfloor>"])
      (auto simp: integer_at_def as_int_def stored_num_def stored_def num_of_def is_integer_def split: option.splits json.splits)
  with assms(2) show ?thesis by (blast intro: runs_bind)
qed

lemma runs_as_list:
  assumes "list_at E P n k"
  shows "runs_to E (\<lambda>xs. n \<le> length xs) (p_read (as_list P g what) k)"
proof -
  from assms obtain p xs where "map_of (ev_params E) k = Some p" "rp_value p = JArr xs" "list_all P xs" "n \<le> length xs"
    by (auto simp: list_at_def split: option.splits json.splits)
  then show ?thesis by (intro runs_p_read [where y = "map g xs"]) (auto simp: as_list_def)
qed

text \<open>Two entries where the code indexes the list, none where it does not.\<close>

lemma runs_bind_list [runs_rules]:
  "list_at E is_num 0 k \<Longrightarrow> (\<And>xs. runs_to E Q (f xs)) \<Longrightarrow> runs_to E Q (cbind (p_moneyList k) f)"
  "list_at E is_num 2 k \<Longrightarrow> (\<And>xs. 2 \<le> length xs \<Longrightarrow> runs_to E Q (f xs)) \<Longrightarrow> runs_to E Q (cbind (p_rateList k) f)"
  "list_at E is_num 2 (filingStatusKey k fs) \<Longrightarrow> (\<And>xs. 2 \<le> length xs \<Longrightarrow> runs_to E Q (f xs)) \<Longrightarrow>
    runs_to E Q (cbind (p_moneyListFs k fs) f)"
  "list_at E is_integer 0 k \<Longrightarrow> (\<And>xs. runs_to E Q (g xs)) \<Longrightarrow> runs_to E Q (cbind (p_intList k) g)"
  unfolding p_moneyList_def p_rateList_def p_moneyListFs_def p_intList_def
  by (blast intro: runs_to_bind [OF runs_as_list])+

lemma runs_bind_brackets [runs_rules]:
  assumes "brackets_at E (filingStatusKey k fs)" "\<And>bs. bs \<noteq> [] \<Longrightarrow> runs_to E Q (f bs)"
  shows "runs_to E Q (cbind (p_bracketsFs k fs) f)"
proof -
  let ?k = "filingStatusKey k fs"
  from assms(1) obtain p bs where p: "map_of (ev_params E) ?k = Some p" "as_brackets ?k (rp_value p) = Inr bs"
    by (auto simp: brackets_at_def split: option.splits sum.splits)
  then have "bs \<noteq> []" by (auto simp: as_brackets_def dest!: emap_Inr_length split: json.splits if_splits)
  with p have "runs_to E (\<lambda>bs. bs \<noteq> []) (p_bracketsFs k fs)"
    unfolding p_bracketsFs_def p_brackets_def by (intro runs_p_read [where y = bs]) auto
  with assms(2) show ?thesis by (auto intro: runs_to_bind)
qed

lemmas runs_intro = runs_Let_key runs_Let_step runs_Let runs_rules runs_bind_clift runs_cget runs_bind

subsection \<open>What the parameter set must hold\<close>

definition NUMBER_KEYS :: "string list" where
  "NUMBER_KEYS = [''se.nese_factor'', ''se.min_nese'', ''se.ss_rate'', ''se.medicare_rate'', ''se.ss_wage_base'', ''se.deduction_factor'',
     ''retirement.sep.pct_of_comp'', ''retirement.sep.dollar_limit'', ''retirement.comp_limit'', ''retirement.401k.deferral'',
     ''retirement.simple.deferral'', ''retirement.simple.match_pct'', ''retirement.401k.catch_up_60_63'', ''retirement.401k.catch_up_50'',
     ''retirement.simple.catch_up'', ''hsa.limit.family'', ''hsa.limit.self'', ''hsa.catch_up_55'', ''addl_medicare.rate'', ''niit.rate'',
     ''capital_loss.limit.mfs'', ''capital_loss.limit.standard'', ''ebl.threshold.mfj'', ''ebl.threshold.standard'',
     ''passive.rental_allowance.standard'', ''passive.rental_allowance.mfs_living_apart'',
     ''passive.rental_allowance_phaseout_start.standard'', ''passive.rental_allowance_phaseout_start.mfs_living_apart'',
     ''passive.rental_allowance_phaseout_end.standard'', ''passive.rental_allowance_phaseout_end.mfs_living_apart'',
     ''std_deduction.additional_65_blind.married'', ''std_deduction.additional_65_blind.unmarried'',
     ''salt.cap.mfs'', ''salt.cap.standard'', ''salt.phase_down.threshold.mfs'', ''salt.phase_down.threshold.standard'',
     ''salt.floor.mfs'', ''salt.floor.standard'', ''salt.phase_down.rate'', ''charity.agi_floor_pct'', ''itemized.benefit_cap_rate'',
     ''sch1a.phaseout_step'', ''sch1a.senior.amount'', ''sch1a.senior.phaseout_rate'', ''sch1a.tips.max'', ''sch1a.tips.phaseout_rate'',
     ''sch1a.overtime.max.mfj'', ''sch1a.overtime.max.standard'', ''sch1a.overtime.phaseout_rate'', ''sch1a.car_interest.max'',
     ''sch1a.car_interest.phaseout_rate'', ''qbi.rate'', ''qbi.w2_wage_pct'', ''qbi.alt_w2_wage_pct'', ''qbi.ubia_pct'',
     ''qbi.taxable_income_limit_pct'', ''qbi.min_deduction_amount'', ''qbi.min_deduction_active_qbi_threshold'',
     ''unrecaptured_1250_rate'', ''collectibles_rate'', ''care.max_rate'', ''care.rate_step'', ''care.phase1.start'',
     ''care.phase1.agi_step'', ''care.phase1.min_rate'', ''care.phase2.min_rate'', ''care.phase2.start.mfj'', ''care.phase2.start.standard'',
     ''care.phase2.agi_step.mfj'', ''care.phase2.agi_step.standard'', ''care.expense_limit.one'', ''care.expense_limit.two_plus'',
     ''ctc.amount'', ''ctc.odc_amount'', ''ctc.phaseout_threshold.mfj'', ''ctc.phaseout_threshold.standard'', ''ctc.phaseout_step'',
     ''ctc.phaseout_reduction'', ''ctc.refundable_max'', ''ctc.earned_income_floor'', ''ctc.earned_income_rate'']"

definition STATUS_NUMBER_KEYS :: "string list" where
  "STATUS_NUMBER_KEYS = [''std_deduction'', ''charity.nonitemizer'', ''sch1a.senior.phaseout_threshold'', ''sch1a.tips.phaseout_threshold'',
     ''sch1a.overtime.phaseout_threshold'', ''sch1a.car_interest.phaseout_threshold'', ''qbi.threshold'', ''qbi.phase_in_range'',
     ''addl_medicare.threshold'', ''niit.threshold'']"

definition INTEGER_KEYS :: "string list" where
  "INTEGER_KEYS = [''std_deduction.additional_age'', ''sch1a.first_year'', ''sch1a.last_year'', ''sch1a.senior.age'',
     ''retirement.catch_up_age'', ''hsa.catch_up_age'', ''care.qualifying_age'', ''ctc.child_age_limit'', ''dependents.qc_age_limit'',
     ''dependents.qc_student_age_limit'', ''dependents.residency_min_months'', ''ctc.alt_formula_min_children'']"

text \<open>The divisors.\<close>

definition NONZERO_KEYS :: "string list" where
  "NONZERO_KEYS = [''care.phase1.agi_step'', ''care.phase2.agi_step.mfj'', ''care.phase2.agi_step.standard'', ''ctc.phaseout_step'']"

definition params_complete :: "env \<Rightarrow> bool" where
  "params_complete E \<longleftrightarrow> list_all (number_at E) NUMBER_KEYS \<and>
     list_all (\<lambda>k. number_at E (filingStatusKey k (ev_fs E))) STATUS_NUMBER_KEYS \<and> list_all (integer_at E) INTEGER_KEYS \<and>
     list_all (\<lambda>k. stored_num (ev_params E) k \<noteq> 0) NONZERO_KEYS \<and> stored_num (ev_params E) ''retirement.sep.pct_of_comp'' \<noteq> - 1 \<and>
     0 \<le> stored_num (ev_params E) ''itemized.benefit_cap_rate'' \<and>
     list_at E is_integer 0 ''retirement.401k.catch_up_60_63_ages'' \<and>
     list_at E is_num 0 ''eitc.max_agi.mfj'' \<and> list_at E is_num 0 ''eitc.max_agi.standard'' \<and>
     list_at E is_num 2 ''ltcg.rates'' \<and> list_at E is_num 2 (filingStatusKey ''ltcg.breakpoints'' (ev_fs E)) \<and>
     brackets_at E (filingStatusKey ''brackets'' (ev_fs E))"

text \<open>One fact per key, for the simplifier.\<close>

lemma complete_numbers:
  assumes "params_complete E"
  shows "number_at E ''se.nese_factor'' \<and> number_at E ''se.min_nese'' \<and> number_at E ''se.ss_rate'' \<and>
    number_at E ''se.medicare_rate'' \<and> number_at E ''se.ss_wage_base'' \<and> number_at E ''se.deduction_factor'' \<and>
    number_at E ''retirement.sep.pct_of_comp'' \<and> number_at E ''retirement.sep.dollar_limit'' \<and>
    number_at E ''retirement.comp_limit'' \<and> number_at E ''retirement.401k.deferral'' \<and>
    number_at E ''retirement.simple.deferral'' \<and> number_at E ''retirement.simple.match_pct'' \<and>
    number_at E ''retirement.401k.catch_up_60_63'' \<and> number_at E ''retirement.401k.catch_up_50'' \<and>
    number_at E ''retirement.simple.catch_up'' \<and> number_at E ''hsa.limit.family'' \<and> number_at E ''hsa.limit.self'' \<and>
    number_at E ''hsa.catch_up_55'' \<and> number_at E ''addl_medicare.rate'' \<and> number_at E ''niit.rate'' \<and>
    number_at E ''capital_loss.limit.mfs'' \<and> number_at E ''capital_loss.limit.standard'' \<and>
    number_at E ''ebl.threshold.mfj'' \<and> number_at E ''ebl.threshold.standard'' \<and>
    number_at E ''passive.rental_allowance.standard'' \<and> number_at E ''passive.rental_allowance.mfs_living_apart'' \<and>
    number_at E ''passive.rental_allowance_phaseout_start.standard'' \<and>
    number_at E ''passive.rental_allowance_phaseout_start.mfs_living_apart'' \<and>
    number_at E ''passive.rental_allowance_phaseout_end.standard'' \<and>
    number_at E ''passive.rental_allowance_phaseout_end.mfs_living_apart'' \<and>
    number_at E ''std_deduction.additional_65_blind.married'' \<and> number_at E ''std_deduction.additional_65_blind.unmarried'' \<and>
    number_at E ''salt.cap.mfs'' \<and> number_at E ''salt.cap.standard'' \<and> number_at E ''salt.phase_down.threshold.mfs'' \<and>
    number_at E ''salt.phase_down.threshold.standard'' \<and> number_at E ''salt.floor.mfs'' \<and>
    number_at E ''salt.floor.standard'' \<and> number_at E ''salt.phase_down.rate'' \<and> number_at E ''charity.agi_floor_pct'' \<and>
    number_at E ''itemized.benefit_cap_rate'' \<and> number_at E ''sch1a.phaseout_step'' \<and> number_at E ''sch1a.senior.amount'' \<and>
    number_at E ''sch1a.senior.phaseout_rate'' \<and> number_at E ''sch1a.tips.max'' \<and> number_at E ''sch1a.tips.phaseout_rate'' \<and>
    number_at E ''sch1a.overtime.max.mfj'' \<and> number_at E ''sch1a.overtime.max.standard'' \<and>
    number_at E ''sch1a.overtime.phaseout_rate'' \<and> number_at E ''sch1a.car_interest.max'' \<and>
    number_at E ''sch1a.car_interest.phaseout_rate'' \<and> number_at E ''qbi.rate'' \<and> number_at E ''qbi.w2_wage_pct'' \<and>
    number_at E ''qbi.alt_w2_wage_pct'' \<and> number_at E ''qbi.ubia_pct'' \<and> number_at E ''qbi.taxable_income_limit_pct'' \<and>
    number_at E ''qbi.min_deduction_amount'' \<and> number_at E ''qbi.min_deduction_active_qbi_threshold'' \<and>
    number_at E ''unrecaptured_1250_rate'' \<and> number_at E ''collectibles_rate'' \<and> number_at E ''care.max_rate'' \<and>
    number_at E ''care.rate_step'' \<and> number_at E ''care.phase1.start'' \<and> number_at E ''care.phase1.agi_step'' \<and>
    number_at E ''care.phase1.min_rate'' \<and> number_at E ''care.phase2.min_rate'' \<and> number_at E ''care.phase2.start.mfj'' \<and>
    number_at E ''care.phase2.start.standard'' \<and> number_at E ''care.phase2.agi_step.mfj'' \<and>
    number_at E ''care.phase2.agi_step.standard'' \<and> number_at E ''care.expense_limit.one'' \<and>
    number_at E ''care.expense_limit.two_plus'' \<and> number_at E ''ctc.amount'' \<and> number_at E ''ctc.odc_amount'' \<and>
    number_at E ''ctc.phaseout_threshold.mfj'' \<and> number_at E ''ctc.phaseout_threshold.standard'' \<and>
    number_at E ''ctc.phaseout_step'' \<and> number_at E ''ctc.phaseout_reduction'' \<and> number_at E ''ctc.refundable_max'' \<and>
    number_at E ''ctc.earned_income_floor'' \<and> number_at E ''ctc.earned_income_rate''"
  using assms unfolding params_complete_def NUMBER_KEYS_def list.pred_inject by simp

lemma complete_others:
  assumes "params_complete E"
  shows "integer_at E ''std_deduction.additional_age'' \<and> integer_at E ''sch1a.first_year'' \<and> integer_at E ''sch1a.last_year'' \<and>
    integer_at E ''sch1a.senior.age'' \<and> integer_at E ''retirement.catch_up_age'' \<and> integer_at E ''hsa.catch_up_age'' \<and>
    integer_at E ''care.qualifying_age'' \<and> integer_at E ''ctc.child_age_limit'' \<and> integer_at E ''dependents.qc_age_limit'' \<and>
    integer_at E ''dependents.qc_student_age_limit'' \<and> integer_at E ''dependents.residency_min_months'' \<and>
    integer_at E ''ctc.alt_formula_min_children''"
    "number_at E (filingStatusKey ''std_deduction'' (ev_fs E)) \<and> number_at E (filingStatusKey ''charity.nonitemizer'' (ev_fs E)) \<and>
    number_at E (filingStatusKey ''sch1a.senior.phaseout_threshold'' (ev_fs E)) \<and>
    number_at E (filingStatusKey ''sch1a.tips.phaseout_threshold'' (ev_fs E)) \<and>
    number_at E (filingStatusKey ''sch1a.overtime.phaseout_threshold'' (ev_fs E)) \<and>
    number_at E (filingStatusKey ''sch1a.car_interest.phaseout_threshold'' (ev_fs E)) \<and>
    number_at E (filingStatusKey ''qbi.threshold'' (ev_fs E)) \<and> number_at E (filingStatusKey ''qbi.phase_in_range'' (ev_fs E)) \<and>
    number_at E (filingStatusKey ''addl_medicare.threshold'' (ev_fs E)) \<and> number_at E (filingStatusKey ''niit.threshold'' (ev_fs E))"
    "stored_num (ev_params E) ''care.phase1.agi_step'' \<noteq> 0 \<and>
    stored_num (ev_params E) ''care.phase2.agi_step.mfj'' \<noteq> 0 \<and>
    stored_num (ev_params E) ''care.phase2.agi_step.standard'' \<noteq> 0 \<and> stored_num (ev_params E) ''ctc.phaseout_step'' \<noteq> 0"
  using assms unfolding params_complete_def STATUS_NUMBER_KEYS_def INTEGER_KEYS_def NONZERO_KEYS_def list.pred_inject by simp_all

lemma key_cases:
  "number_at E (if b then x else y) \<longleftrightarrow> (if b then number_at E x else number_at E y)"
  "a @ (if b then x else y) = (if b then a @ x else a @ y)"
  by simp_all

lemma complete_lists:
  assumes "params_complete E"
  shows "list_at E is_integer 0 ''retirement.401k.catch_up_60_63_ages''" "list_at E is_num 0 ''eitc.max_agi.mfj''"
    "list_at E is_num 0 ''eitc.max_agi.standard''" "list_at E is_num 2 ''ltcg.rates''"
    "list_at E is_num 2 (filingStatusKey ''ltcg.breakpoints'' (ev_fs E))" "brackets_at E (filingStatusKey ''brackets'' (ev_fs E))"
    "stored_num (ev_params E) ''retirement.sep.pct_of_comp'' \<noteq> - 1" "0 \<le> stored_num (ev_params E) ''itemized.benefit_cap_rate''"
  using assms by (simp_all add: params_complete_def)

subsection \<open>Every step returns\<close>

lemmas key_facts = complete_numbers complete_others complete_lists

lemma runs_Let_eq: "(\<And>x. x = e \<Longrightarrow> runs_to E Q (f x)) \<Longrightarrow> runs_to E Q (let x = e in f x)"
  by simp

lemma quo_total: "b \<noteq> 0 \<Longrightarrow> \<exists>x. quo a b = Inr x"
  by (simp add: quo_def)

lemma dCeilDiv_total: "b \<noteq> 0 \<Longrightarrow> \<exists>x. dCeilDiv a b = Inr x"
  by (simp add: dCeilDiv_def quo_def Let_def)

lemma phasedOut_total: "\<exists>x. phasedOut a m magi t r s rd = Inr x"
  by (auto simp: phasedOut_def dCeilDiv_def dFloorDiv_def quo_def Let_def split: option.split)

lemma top_bracket_total: "bs \<noteq> [] \<Longrightarrow> \<exists>b. top_bracket bs = Inr b"
  by (simp add: top_bracket_def)

lemma marginal_total: "bs \<noteq> [] \<Longrightarrow> \<exists>x. marginalBracketRate y bs = Inr x"
  by (auto simp: marginalBracketRate_def split: option.split)

lemma effective_total: "\<exists>x. effective_rate t y = Inr x"
  by (auto simp: effective_rate_def quo_def)

lemma result_total:
  "\<exists>x. Inr y = Inr x"
  "\<exists>x. r = Inr x \<Longrightarrow> (\<And>x. \<exists>w. f x = Inr w) \<Longrightarrow> \<exists>w. ebind r f = Inr w"
  "(\<And>x. \<exists>w. f x = Inr w) \<Longrightarrow> \<exists>w. (let x = e in f x) = Inr w"
  "(b \<Longrightarrow> \<exists>w. r = Inr w) \<Longrightarrow> (\<not> b \<Longrightarrow> \<exists>w. s = Inr w) \<Longrightarrow> \<exists>w. (if b then r else s) = Inr w"
  by auto

lemma elem_total: "2 \<le> length xs \<Longrightarrow> i = 0 \<or> i = 1 \<or> i = length xs - 1 \<Longrightarrow> \<exists>x. elem_at xs i = Inr x"
  by (auto simp: elem_at_def)

lemma worksheet_total:
  "2 \<le> length bp \<Longrightarrow> 2 \<le> length rs \<Longrightarrow> \<exists>w. capitalGainWorksheet ti qd l u co bs bp rs a b = Inr w"
  unfolding capitalGainWorksheet_def by (intro result_total elem_total) auto

lemma pct_not_minus_one: "x \<noteq> - 1 \<Longrightarrow> 1 + x \<noteq> (0 :: rat)"
  by (simp add: add_eq_0_iff)

lemma runs_steps_of_one_person:
  assumes "params_complete E"
  shows "runs E (computeSeTax i)" "runs E (computeRetirementLimit r)" "runs E (computeSehiLimit h)" "runs E (computeHsaLimit s)"
  unfolding computeSeTax_def computeRetirementLimit_def planLimit_def soloCatchUp_def simpleCatchUp_def computeSehiLimit_def
    computeHsaLimit_def hsaLimit_def
  subgoal by (intro runs_intro) (simp_all add: key_facts [OF assms])
  subgoal by (intro runs_intro quo_total) (simp_all add: key_facts [OF assms] pct_not_minus_one)
  subgoal by (intro runs_intro) (simp_all add: quo_def)
  subgoal by (intro runs_intro) (simp_all add: key_facts [OF assms])
  done

lemma runs_other_taxes:
  assumes "params_complete E"
  shows "runs E (computeOtherTaxes i oc)"
  unfolding computeOtherTaxes_def computeAdditionalMedicare_def computeNiit_def
  by (intro runs_intro) (simp_all add: key_facts [OF assms])

lemma runs_benefit_reduction: "0 \<le> cap \<Longrightarrow> runs E (benefit_reduction cap b s u t)"
  unfolding benefit_reduction_def by (intro runs_intro quo_total) auto

lemma runs_deductions:
  assumes "params_complete E"
  shows "runs E (computeStandardDeduction ps x)" "runs E (chooseDeduction mode st ix)" "runs E (computeSch1a ps magi)"
    "runs E (computeItemizedDeductions it y magi ti)"
  unfolding computeStandardDeduction_def chooseDeduction_def computeSch1a_def sch1a_row_def dtrace_def
  subgoal by (intro runs_intro) (simp_all add: key_facts [OF assms])
  subgoal by (intro runs_intro) simp_all
  subgoal by (intro runs_intro phasedOut_total) (simp_all add: key_facts [OF assms])
  subgoal unfolding computeItemizedDeductions_def dtrace_def
    by (intro runs_intro runs_benefit_reduction top_bracket_total) (simp_all add: key_facts [OF assms] key_cases)
  done

lemma runs_worksheet:
  assumes "params_complete E" "bs \<noteq> []" "0 < floor0 (ri_taxableIncome i)"
  shows "runs E (regularTaxWorksheet i (ev_fs E) bs)"
  unfolding regularTaxWorksheet_def traceBrackets_def
  by (rule runs_Let_eq, rule runs_Let_eq)
    (intro runs_intro marginal_total worksheet_total result_total elem_total quo_total,
      simp_all add: key_facts [OF assms(1)] assms(2) less_imp_neq [OF assms(3), symmetric])

lemma runs_regular_tax:
  assumes "params_complete E"
  shows "runs E (computeRegularTax i)"
  unfolding computeRegularTax_def regularTaxOverride_def regularTaxOrdinary_def traceBrackets_def
  by (rule runs_intro, rule runs_Let_eq, rule runs_Let_eq)
    (intro runs_intro marginal_total effective_total runs_worksheet; (simp add: key_facts [OF assms] assms)?)

lemma runs_care_rate: "params_complete E \<Longrightarrow> runs E (careRateFor agi)"
  unfolding careRateFor_def
  by (intro runs_intro result_total dCeilDiv_total) (simp_all add: key_facts key_cases)

lemma runs_child_credit:
  assumes "params_complete E"
  shows "runs E (ctcCredit i m n t x)"
  unfolding ctcCredit_def actcCredit_def ctrace_def
  by (intro runs_intro dCeilDiv_total) (simp_all add: key_facts [OF assms] key_cases)

lemma runs_dependents:
  assumes "params_complete E"
  shows "runs E (computeDependentCredits i)"
  unfolding computeDependentCredits_def computedCredits_def fixedCredits_def eitcWarning_def
    ctrace_def careCredit_def careEarnedLimit_def classify_def ageGroup_def
  by (intro runs_intro runs_care_rate runs_child_credit assms) (simp_all add: key_facts [OF assms] key_cases)

subsection \<open>Income by person\<close>

text \<open>\<open>keyed ids m\<close>: the map has an entry for each of these persons and for no other, under the id it carries.\<close>

definition keyed :: "string set \<Rightarrow> by_person \<Rightarrow> bool" where
  "keyed ids m \<longleftrightarrow> set (map fst m) = ids \<and> list_all (\<lambda>(k, p). pi_personId p = k) m"

definition env_ids :: "env \<Rightarrow> string set" where
  "env_ids E = set (map pr_id (ev_persons E))"

lemma keyed_lookup: "keyed ids m \<Longrightarrow> r \<in> ids \<Longrightarrow> \<exists>p. map_of m r = Some p \<and> pi_personId p = r"
  by (cases "map_of m r") (auto simp: keyed_def list_all_iff map_of_eq_None_iff dest!: map_of_SomeD)

lemma keyed_entry:
  assumes "keyed ids m" "(k, p) \<in> set m"
  shows "k \<in> ids \<and> pi_personId p = k"
proof -
  from assms(2) have "fst (k, p) \<in> set (map fst m)" unfolding set_map by (rule imageI)
  moreover have "case (k, p) of (k, p) \<Rightarrow> pi_personId p = k"
    using assms unfolding keyed_def list_all_iff by (elim conjE) (rule bspec)
  ultimately show ?thesis using assms(1) by (simp add: keyed_def)
qed

lemma keyed_update:
  assumes "keyed ids m" "pi_personId p = r"
  shows "keyed (insert r ids) (AList.update r p m)"
proof -
  have "set (map fst (AList.update r p m)) = insert r (set (map fst m))" by (auto simp: update_keys)
  moreover have "list_all (\<lambda>(k, p). pi_personId p = k) m \<Longrightarrow> list_all (\<lambda>(k, p). pi_personId p = k) (AList.update r p m)"
    by (induction m) (auto simp: assms(2))
  ultimately show ?thesis using assms(1) unfolding keyed_def by blast
qed

lemma keyed_same: "keyed ids m \<Longrightarrow> r \<in> ids \<Longrightarrow> pi_personId p = r \<Longrightarrow> keyed ids (AList.update r p m)"
  using keyed_update [of ids m p r] by (simp add: insert_absorb)

lemma runs_resolvePerson:
  assumes "ev_persons E \<noteq> []"
  shows "runs_to E (\<lambda>r. r \<in> env_ids E) (resolvePerson pid)"
proof -
  obtain r rs where ps: "ev_persons E = r # rs" using assms by (cases "ev_persons E") auto
  have found: "find (\<lambda>r. pr_role r = Primary) (ev_persons E) = Some q \<Longrightarrow> pr_id q \<in> env_ids E" for q
    by (auto simp: env_ids_def find_Some_iff)
  have "pr_id r \<in> env_ids E" by (simp add: env_ids_def ps)
  with found show ?thesis
    unfolding resolvePerson_def
    by (auto simp: runs_to_def cbind_def in_env_def warn_def warn_sev_def env_ids_def Let_def ps split: option.splits)
qed

lemma runs_get_person:
  assumes "ev_persons E \<noteq> []" "keyed (env_ids E) m"
  shows "runs_to E (\<lambda>(r, p). r \<in> env_ids E \<and> map_of m r = Some p \<and> pi_personId p = r) (get_person m pid)"
  unfolding get_person_def
proof (rule runs_to_bind [OF runs_resolvePerson [OF assms(1)]])
  fix r assume "r \<in> env_ids E"
  with keyed_lookup [OF assms(2) this]
  show "runs_to E (\<lambda>(r, p). r \<in> env_ids E \<and> map_of m r = Some p \<and> pi_personId p = r)
      (case map_of m r of None \<Rightarrow> cthrow (JsError ''TE_NO_PERSONS'' []) | Some p \<Rightarrow> cret (r, p))"
    by (auto intro!: runs_cret)
qed

lemma runs_start_persons: "runs_to E (keyed (set (map en_personId ps) \<union> ids)) (cfold start_person ps m)" if "keyed ids m"
  using that
proof (induction ps arbitrary: ids m)
  case (Cons p ps)
  have "runs_to E (keyed (insert (en_personId p) ids)) (start_person p m)"
    unfolding start_person_def
    by (intro runs_intro) (simp add: keyed_update [OF Cons.prems] person_start_def)
  then have "runs_to E (keyed (set (map en_personId ps) \<union> insert (en_personId p) ids)) (cfold start_person (p # ps) m)"
    unfolding cfold.simps by (rule runs_to_bind) (rule Cons.IH)
  then show ?case by simp
qed (simp add: runs_cret)

lemma runs_aggregate_share:
  assumes "ev_persons E \<noteq> []" "keyed (env_ids E) m"
  shows "runs_to E (keyed (env_ids E)) (aggregate_share s m)"
  unfolding aggregate_share_def
  by (rule runs_to_bind [OF runs_get_person [OF assms]])
    (auto intro!: runs_cret keyed_same [OF assms(2)] simp: add_share_def Let_def)

lemma runs_note_deduction: "runs E (note_deduction a pool)"
  unfolding note_deduction_def Let_def by (intro runs_intro) simp_all

lemma runs_aggregate_adjustment:
  assumes "ev_persons E \<noteq> []" "keyed (env_ids E) (ag_byPerson agg)"
  shows "runs_to E (\<lambda>agg. keyed (env_ids E) (ag_byPerson agg)) (aggregate_adjustment a agg)"
  unfolding aggregate_adjustment_def
  by (rule runs_if, simp add: runs_cret assms, rule runs_to_bind [OF runs_resolvePerson [OF assms(1)]],
      rule runs_to_bind [OF runs_get_person [OF assms]], intro runs_intro)
    (auto intro!: runs_note_deduction keyed_same [OF assms(2)] simp: person_deduction_def person_adjustment_def Let_def split: deduction_pool.split)

lemma runs_aggregate:
  assumes "ev_persons E \<noteq> []" "env_ids E = set (map en_personId ps)"
  shows "runs_to E (\<lambda>agg. keyed (env_ids E) (ag_byPerson agg)) (aggregatePersons es ps as)"
proof -
  have start: "runs_to E (keyed (env_ids E)) (cfold start_person ps [])"
    using runs_start_persons [of "{}" "[]" E ps] assms(2) by (simp add: keyed_def)
  have shares: "keyed (env_ids E) m \<Longrightarrow> runs_to E (keyed (env_ids E)) (cfold (\<lambda>ae. cfold aggregate_share (ae_shares ae)) es m)" for m
    by (rule runs_cfold, rule runs_cfold) (auto intro: runs_aggregate_share [OF assms(1)])
  show ?thesis
    unfolding aggregatePersons_def
    by (rule runs_to_bind [OF start], rule runs_to_bind [OF shares], assumption, rule runs_cfold)
      (auto intro: runs_aggregate_adjustment [OF assms(1)])
qed

subsection \<open>Allocation, net income, loss limits and QBI\<close>

lemma entity_trend_total: "\<exists>t. entity_trend e = Inr t"
proof (cases "ee_priorYearTrend e")
  case (Some t)
  obtain rr where "runRate (entity_figures e) = Inr rr" using runRate_total by blast
  with Some show ?thesis
    by (auto simp: entity_trend_def evaluatePriorYearTrend_def scaled_trend_def quo_pos Let_def split: option.split trend_method.split prod.split)
qed (simp add: entity_trend_def)

lemma runs_ownerPerson: "ev_persons E \<noteq> [] \<Longrightarrow> runs E (ownerPerson e pid)"
  unfolding ownerPerson_def by (intro runs_intro runs_to_weaken [OF runs_resolvePerson]) simp_all

lemma runs_allocateEntity:
  assumes "ev_persons E \<noteq> []"
  shows "runs E (allocateEntity e as)"
  unfolding allocateEntity_def traceTrend_def linkFractions_def owner_amounts_of_def per_person_def add_person_amount_def
    owner_item_maps_def add_owner_item_def link_share_def applyLinkAdjustments_def link_adjustment_def unlinked_share_def
  by (intro runs_intro entity_trend_total runs_ownerPerson assms runs_to_weaken [OF runs_resolvePerson [OF assms]] TrueI)

lemma runs_netIncome:
  assumes "params_complete E"
  shows "runs E (netIncome ps)"
  unfolding netIncome_def capitalNetting_def by (intro runs_intro) (simp_all add: key_facts [OF assms] key_cases)

lemma keyed_rebuild:
  "list_all (\<lambda>(k, p). pi_personId p = k) ps \<Longrightarrow> keyed ids out \<Longrightarrow> keyed (set (map fst ps) \<union> ids) (rebuild ps ws out)"
proof (induction ps ws out arbitrary: ids rule: rebuild.induct)
  case (2 k p ps ws out)
  have "keyed (insert k ids) (AList.update (pi_personId p) (limited_person p (take (length (pi_shares p)) ws)) out)"
    using 2(2) keyed_update [OF 2(3), of "limited_person p (take (length (pi_shares p)) ws)" "pi_personId p"]
    by (simp add: limited_person_def)
  from 2(1) [OF refl _ this] 2(2) show ?case by (simp add: Let_def)
qed simp

lemma keyed_add_back:
  "keyed ids m \<Longrightarrow> fst ` set ls \<subseteq> ids \<Longrightarrow> keyed ids (add_back_ebl x t ls rem m)"
proof (induction x t ls rem m rule: add_back_ebl.induct)
  case (2 excess lossSum pid v ls remaining m)
  from keyed_lookup [OF 2(2), of pid] 2(3) obtain p where p: "map_of m pid = Some p" "pi_personId p = pid" by auto
  then have "keyed ids (AList.update pid (p\<lparr>pi_character := (pi_character p)(Ordinary := pi_character p Ordinary + part)\<rparr>) m)" for part
    using 2(2,3) by (intro keyed_same) auto
  with 2(1) [OF refl refl] 2(3) p show ?case by (simp add: Let_def)
qed simp

lemma runs_excess_business_loss:
  assumes "params_complete E" "keyed (env_ids E) m"
  shows "runs_to E (\<lambda>(t, e, m'). keyed (env_ids E) m') (excessBusinessLoss m b)"
  unfolding excessBusinessLoss_def Let_def
  by (intro runs_intro) (auto simp: key_facts [OF assms(1)] key_cases assms(2) dest: keyed_entry [OF assms(2)] intro!: keyed_add_back)

lemma runs_rental_allowance:
  assumes "params_complete E"
  shows "runs E (rentalAllowance x opts)"
  unfolding rentalAllowance_def by (intro runs_intro) (simp_all add: key_facts [OF assms] key_cases)

lemma runs_loss_limits:
  assumes "params_complete E" "keyed (env_ids E) (ag_byPerson agg)"
  shows "runs_to E (\<lambda>r. keyed (env_ids E) (ag_byPerson (ll_income r))) (applyLossLimitations agg opts)"
proof -
  have "keyed (env_ids E) (rebuild (ag_byPerson agg) ws [])" for ws
    using keyed_rebuild [of "ag_byPerson agg" "{}" "[]"] assms(2) by (simp add: keyed_def)
  note ebl = runs_excess_business_loss [OF assms(1) this]
  show ?thesis
    unfolding applyLossLimitations_def override_share_def suspendLosses_def Let_def
    by (intro runs_to_bind [OF ebl] runs_intro runs_rental_allowance assms(1)) auto
qed

lemma runs_share_component: "runs E (share_component q a ph m s1 s2 s)"
  unfolding share_component_def entityW2Wages_def by (intro runs_intro TrueI)

lemma runs_qbi_components: "runs E (qbiComponents q ps fs a ph)"
  unfolding qbiComponents_def person_components_def netLosses_def limitComponent_def
  by (intro runs_intro runs_share_component TrueI)

lemma runs_qbi_params: "params_complete E \<Longrightarrow> runs E (read_qbi_params (ev_fs E))"
  unfolding read_qbi_params_def by (intro runs_intro) (simp_all add: key_facts)

lemma runs_qbi:
  assumes "params_complete E"
  shows "runs E (computeQbi x q)"
  unfolding computeQbi_def minimumDeduction_def
  by (intro runs_intro runs_qbi_components runs_qbi_params assms TrueI)

end
