(* ===== verification/Federal.thy ===== *)
theory Federal
  imports Totality
begin

section \<open>The federal calculation (engine/federal.ts)\<close>

text \<open>
  \<open>computeFederal\<close> runs the fourteen steps in order on one context.  The probe for the rental allowance
  and the itemized total before the benefit cap run on scratch contexts, whose records are dropped.  The
  result holds the exact amounts; the copies rounded for the client and the per-person and per-entity
  reports are left out.
\<close>

record engine_year_inputs =
  ey_rateMode :: rate_mode
  ey_effectiveRateOverride :: "money option"
  ey_deductionMode :: deduction_mode
  ey_itemized :: engine_itemized
  ey_creditsNonrefundable :: money
  ey_creditsRefundable :: money
  ey_careExpenses :: "money option"
  ey_fixedDependentCredits :: "fixed_dependent_credits option"
  ey_unrecaptured1250Gain :: money
  ey_collectiblesGain :: money
  ey_amtExposureFlagged :: bool
  ey_mfsLivedApartAllYear :: bool

record federal_input =
  fi_taxYear :: int
  fi_filingStatus :: filing_status
  fi_parameters :: "(string \<times> resolved) list"
  fi_persons :: "engine_person list"
  fi_dependents :: "engine_dependent list"
  fi_entities :: "engine_entity list"
  fi_adjustments :: "engine_adjustment list"
  fi_year :: engine_year_inputs
  fi_qbi :: "money option"
  fi_otherTaxes :: other_taxes_input

definition person_refs :: "engine_person list \<Rightarrow> person_ref list" where
  "person_refs = map (\<lambda>p. \<lparr>pr_id = en_personId p, pr_role = en_role p\<rparr>)"

definition scratchContext :: "federal_input \<Rightarrow> ectx" where
  "scratchContext input = (new_ctx (fi_parameters input) (fi_taxYear input) (fi_filingStatus input))\<lparr>cx_persons := person_refs (fi_persons input)\<rparr>"

definition on_scratch :: "federal_input \<Rightarrow> 'a eng \<Rightarrow> 'a eng" where
  "on_scratch input m = clift (ebind (m (scratchContext input)) (\<lambda>(x, c). Inr x))"

subsection \<open>Steps 4 to 7\<close>

text \<open>The exact figures of a person that the result carries for Schedule AI.\<close>

record person_figures =
  pg_personId :: string
  pg_seIncome :: money
  pg_socialSecurityWages :: money

record agi_block =
  ab_personFigures :: "person_figures list"
  ab_deductionPersons :: "deduction_person list"
  ab_personDeductions :: "(string \<times> qbi_deductions) list"
  ab_otherTaxPersons :: "other_taxes_person list"
  ab_earnedPersons :: "earned_income_person list"
  ab_income :: income_exact
  ab_seTax :: money
  ab_halfSeTax :: money
  ab_retirement :: money
  ab_sehi :: money
  ab_hsa :: money
  ab_otherAboveTheLine :: money
  ab_adjustmentsTotal :: money
  ab_agi :: money

text \<open>What one person contributes to the block.\<close>

record person_agi =
  pb_figures :: person_figures
  pb_deductionPerson :: deduction_person
  pb_qbiDeductions :: qbi_deductions
  pb_otherTaxPerson :: other_taxes_person
  pb_earnedPerson :: earned_income_person
  pb_seTax :: money
  pb_halfSeTax :: money
  pb_retirement :: money
  pb_sehi :: money
  pb_hsa :: money
  pb_otherAboveTheLine :: money

definition warn_ss_default :: "engine_person \<Rightarrow> person_income \<Rightarrow> se_tax \<Rightarrow> unit eng" where
  "warn_ss_default p inc se =
    (let d = Some [(''personId'', DText (en_personId p)), (''maxOverstatement'', DAmt (rnd 0 (se_socialSecurity se)))] in
     cwhen (en_w2SocialSecurityWages p = None \<and> 0 < en_w2Wages p \<and> 0 < pi_seIncome inc)
       (if 0 < se_socialSecurity se then warn ''TE_SS_WAGES_DEFAULTED'' d else info ''TE_SS_WAGES_DEFAULTED'' d))"

definition personAgi :: "int \<Rightarrow> by_person \<Rightarrow> engine_person \<Rightarrow> person_agi eng" where
  "personAgi taxYear byPerson p = (case map_of byPerson (en_personId p) of None \<Rightarrow> cthrow (JsError ''TypeError'' [])
    | Some inc \<Rightarrow>
      let pid = en_personId p; age = ageAtYearEnd (en_dateOfBirth p) taxYear False; ageJan1 = ageAtYearEnd (en_dateOfBirth p) taxYear True in
      cbind (computeSeTax \<lparr>si_personId = pid, si_seIncome = pi_seIncome inc, si_socialSecurityWages = pi_socialSecurityWages inc\<rparr>) (\<lambda>se.
      cbind (warn_ss_default p inc se) (\<lambda>_.
      cbind (computeRetirementLimit \<lparr>rl_personId = pid, rl_planType = en_retirementPlan p, rl_contributed = pi_retirementContributions inc,
        rl_employeeDeferral = en_retirementEmployeeDeferral p, rl_seIncome = pi_seIncome inc, rl_halfSeTax = se_halfSeTax se, rl_age = age\<rparr>) (\<lambda>ret.
      let officerWages = sum_list (map al_officerWages (filter (\<lambda>s. al_entityType s = SCorp) (pi_shares inc)));
          cap = floor0 (seEarnedIncomeBase (pi_seIncome inc) (se_halfSeTax se) - re_deducted ret) + officerWages in
      cbind (computeSehiLimit \<lparr>sl_personId = pid, sl_premiums = pi_sehiPremiums inc, sl_eligibleMonths = en_sehiEligibleMonths p,
        sl_earnedIncomeCap = cap\<rparr>) (\<lambda>sehi.
      cbind (computeHsaLimit \<lparr>hl_personId = pid, hl_coverage = en_hsaCoverage p,
        hl_contributed = pi_hsaContributions inc + en_hsaContribution p, hl_age = age\<rparr>) (\<lambda>hsa.
      cret \<lparr>pb_figures = \<lparr>pg_personId = pid, pg_seIncome = pi_seIncome inc, pg_socialSecurityWages = pi_socialSecurityWages inc\<rparr>,
        pb_deductionPerson = \<lparr>dp_personId = pid, dp_role = en_role p, dp_age = ageJan1, dp_isBlind = en_isBlind p, dp_sch1a = en_sch1a p\<rparr>,
        pb_qbiDeductions = \<lparr>qd_halfSeTax = se_halfSeTax se, qd_sehi = sh_deducted sehi, qd_retirement = re_deducted ret\<rparr>,
        pb_otherTaxPerson = \<lparr>op_personId = pid, op_medicareWages = max (en_w2Wages p) (case en_w2SocialSecurityWages p of None \<Rightarrow> 0 | Some w \<Rightarrow> w)
          + sum_list (map al_officerWages (pi_shares inc)), op_nese = se_nese se\<rparr>,
        pb_earnedPerson = \<lparr>ei_personId = pid, ei_role = en_role p, ei_earned = pi_wages inc + pi_seIncome inc - se_halfSeTax se\<rparr>,
        pb_seTax = se_seTax se, pb_halfSeTax = se_halfSeTax se, pb_retirement = re_deducted ret, pb_sehi = sh_deducted sehi,
        pb_hsa = ha_deducted hsa, pb_otherAboveTheLine = pi_otherAboveTheLine inc\<rparr>))))))"

definition computeAgiBlock :: "federal_input \<Rightarrow> aggregated_income \<Rightarrow> agi_block eng" where
  "computeAgiBlock input agg =
    cbind (netIncome (map snd (ag_byPerson agg))) (\<lambda>inc.
    cbind (cmap (personAgi (fi_taxYear input) (ag_byPerson agg)) (fi_persons input)) (\<lambda>ps.
    let halfSe = sum_list (map pb_halfSeTax ps); ret = sum_list (map pb_retirement ps); sehi = sum_list (map pb_sehi ps);
        hsa = sum_list (map pb_hsa ps); other = ag_otherAboveTheLine agg + sum_list (map pb_otherAboveTheLine ps);
        adjustmentsTotal = sum_list [halfSe, ret, sehi, hsa, other]; agi = in_totalIncome inc - adjustmentsTotal in
    cbind (itrace ''agi'' ''agi'' agi SrcGlMap None None) (\<lambda>_.
    cret \<lparr>ab_personFigures = map pb_figures ps, ab_deductionPersons = map pb_deductionPerson ps,
      ab_personDeductions = fold (\<lambda>(p, b) m. AList.update (en_personId p) (pb_qbiDeductions b) m) (zip (fi_persons input) ps) [],
      ab_otherTaxPersons = map pb_otherTaxPerson ps, ab_earnedPersons = map pb_earnedPerson ps, ab_income = inc,
      ab_seTax = sum_list (map pb_seTax ps), ab_halfSeTax = halfSe, ab_retirement = ret, ab_sehi = sehi, ab_hsa = hsa,
      ab_otherAboveTheLine = other, ab_adjustmentsTotal = adjustmentsTotal, ab_agi = agi\<rparr>)))"

subsection \<open>Steps 1 to 3\<close>

definition entityIncome :: "federal_input \<Rightarrow> (allocated_entity list \<times> aggregated_income) eng" where
  "entityIncome input =
    cbind (cmap (\<lambda>e. allocateEntity e (fi_adjustments input)) (fi_entities input)) (\<lambda>allocated.
    cbind (aggregatePersons allocated (fi_persons input) (fi_adjustments input)) (\<lambda>agg.
    cret (allocated, agg)))"

text \<open>The MAGI of the rental allowance: the AGI with every excess passive loss suspended, when it matters.\<close>

definition probeMagi :: "federal_input \<Rightarrow> aggregated_income \<Rightarrow> money option eng" where
  "probeMagi input agg = on_scratch input (
    cbind (applyLossLimitations agg \<lparr>lo_magi = None, lo_mfsLivedApartAllYear = ey_mfsLivedApartAllYear (fi_year input)\<rparr>) (\<lambda>probe.
    if ll_needsMagi probe then cbind (computeAgiBlock input (ll_income probe)) (\<lambda>block. cret (Some (ab_agi block))) else cret None))"

definition limitLosses :: "federal_input \<Rightarrow> aggregated_income \<Rightarrow> loss_limitation eng" where
  "limitLosses input agg =
    cbind (probeMagi input agg) (\<lambda>magi.
    applyLossLimitations agg \<lparr>lo_magi = magi, lo_mfsLivedApartAllYear = ey_mfsLivedApartAllYear (fi_year input)\<rparr>)"

subsection \<open>Steps 8 to 10\<close>

definition skip_itemized :: "engine_year_inputs \<Rightarrow> aggregated_income \<Rightarrow> bool" where
  "skip_itemized y limited \<longleftrightarrow> ey_deductionMode y \<noteq> DmItemized \<and> (let i = ey_itemized y in
     list_all (\<lambda>v. v = 0) [it_saltPaid i, it_mortgageInterest i, it_charitableCash i, it_charitableNoncash i, it_other i, ag_itemizedOther limited])"

definition no_itemized :: itemized_exact where
  "no_itemized = \<lparr>ix_saltPaid = 0, ix_saltCap = 0, ix_saltAllowed = 0, ix_mortgageInterest = 0, ix_charitableGross = 0, ix_charitableFloor = 0,
     ix_charitableAllowed = 0, ix_other = 0, ix_beforeBenefitCap = 0, ix_benefitCapReduction = 0, ix_total = 0\<rparr>"

definition pre_deduction :: "deduction_mode \<Rightarrow> standard_deduction \<Rightarrow> itemized_exact \<Rightarrow> money" where
  "pre_deduction mode st it = (case mode of DmStandard \<Rightarrow> sd_total st | DmItemized \<Rightarrow> ix_total it | DmAuto \<Rightarrow> max (sd_total st) (ix_total it))"

record taxable_block =
  tb_chosen :: deduction_choice
  tb_deduction :: money
  tb_sch1a :: money
  tb_qbi :: money
  tb_taxableIncomeBeforeQbi :: money
  tb_taxableIncome :: money

definition taxableIncome :: "federal_input \<Rightarrow> allocated_entity list \<Rightarrow> aggregated_income \<Rightarrow> agi_block \<Rightarrow> taxable_block eng" where
  "taxableIncome input allocated limited block =
    (let y = fi_year input; agi = ab_agi block; inc = ab_income block in
     cbind (computeStandardDeduction (ab_deductionPersons block) (it_charitableCash (ey_itemized y))) (\<lambda>standard.
     cbind (computeSch1a (ab_deductionPersons block) agi) (\<lambda>sch1a.
     let itemize = (\<lambda>base. if skip_itemized y limited then cret no_itemized
       else computeItemizedDeductions (ey_itemized y) (ag_itemizedOther limited) agi base) in
     cbind (if skip_itemized y limited then cret no_itemized else on_scratch input (itemize 0)) (\<lambda>itemizedPre.
     let preDeduction = pre_deduction (ey_deductionMode y) standard itemizedPre;
         netCapitalGainWithQd = floor0 (in_netLongTermGainForWorksheet inc) + floor0 (in_qualifiedDividends inc) in
     cbind (computeQbi (fi_qbi input) \<lparr>qc_taxableIncomeBeforeQbi = agi - preDeduction - sx_total sch1a, qc_netCapitalGainWithQd = netCapitalGainWithQd,
       qc_income = limited, qc_entities = allocated, qc_adjustments = fi_adjustments input, qc_personDeductions = ab_personDeductions block,
       qc_section1231Net = in_section1231 inc\<rparr>) (\<lambda>qbi.
     cbind (itemize (agi - sx_total sch1a - qr_deduction qbi)) (\<lambda>itemized.
     cbind (chooseDeduction (ey_deductionMode y) standard itemized) (\<lambda>(chosen, deduction).
     cbind (cwhen (chosen = ChooseItemized \<and> 0 < ix_benefitCapReduction itemized)
       (info ''TE_QBI_PRE_68_BASIS'' (Some [(''reduction'', DAmt (ix_benefitCapReduction itemized))]))) (\<lambda>_.
     let preQbi = agi - deduction - sx_total sch1a; ti = floor0 (preQbi - qr_deduction qbi) in
     cbind (itrace ''taxable_income'' ''taxable_income'' ti SrcGlMap None None) (\<lambda>_.
     cret \<lparr>tb_chosen = chosen, tb_deduction = deduction, tb_sch1a = sx_total sch1a, tb_qbi = qr_deduction qbi, tb_taxableIncomeBeforeQbi = preQbi,
       tb_taxableIncome = ti\<rparr>)))))))))"

subsection \<open>Steps 11 to 14\<close>

definition regularTaxFor :: "federal_input \<Rightarrow> agi_block \<Rightarrow> money \<Rightarrow> regular_tax eng" where
  "regularTaxFor input block ti = (let y = fi_year input; inc = ab_income block in
     computeRegularTax \<lparr>ri_taxableIncome = ti, ri_qualifiedDividends = in_qualifiedDividends inc,
       ri_netLongTermGain = in_netLongTermGainForWorksheet inc, ri_unrecaptured1250 = ey_unrecaptured1250Gain y,
       ri_collectibles = ey_collectiblesGain y, ri_rateMode = ey_rateMode y, ri_effectiveRateOverride = ey_effectiveRateOverride y\<rparr>)"

record credits_block =
  cb_dependents :: dependent_credits
  cb_nonrefundableRequested :: money
  cb_otherNonrefundableAllowed :: money
  cb_careAllowed :: money
  cb_ctcOdcAllowed :: money
  cb_nonrefundableAllowed :: money
  cb_actc :: money
  cb_otherRefundable :: money
  cb_refundable :: money

definition creditsFor :: "federal_input \<Rightarrow> agi_block \<Rightarrow> money \<Rightarrow> credits_block eng" where
  "creditsFor input block regularTax = (let y = fi_year input in
     cbind (computeDependentCredits \<lparr>di_dependents = fi_dependents input, di_filingStatus = fi_filingStatus input, di_taxYear = fi_taxYear input,
       di_agi = ab_agi block, di_regularTax = regularTax, di_persons = ab_earnedPersons block,
       di_careExpenses = (case ey_careExpenses y of None \<Rightarrow> 0 | Some x \<Rightarrow> x), di_fixed = ey_fixedDependentCredits y\<rparr>) (\<lambda>dep.
     let requested = floor0 (ey_creditsNonrefundable y); allowed = min requested (floor0 (dc_taxAfterDependentCredits dep));
         otherRefundable = floor0 (ey_creditsRefundable y) in
     cbind (cwhen (allowed < requested) (warn ''TE_NONREFUNDABLE_CREDIT_CAPPED'' (Some [(''requested'', DAmt requested), (''allowed'', DAmt allowed)]))) (\<lambda>_.
     cbind (itrace ''credits'' ''credits.nonrefundable'' allowed SrcInput None None) (\<lambda>_.
     cbind (cwhen (0 < otherRefundable) (itrace ''credits'' ''credits.refundable'' otherRefundable SrcInput None None)) (\<lambda>_.
     cret \<lparr>cb_dependents = dep, cb_nonrefundableRequested = requested, cb_otherNonrefundableAllowed = allowed, cb_careAllowed = dc_careAllowed dep,
       cb_ctcOdcAllowed = dc_ctcOdcAllowed dep, cb_nonrefundableAllowed = sum_list [dc_careAllowed dep, dc_ctcOdcAllowed dep, allowed],
       cb_actc = dc_actc dep, cb_otherRefundable = otherRefundable, cb_refundable = dc_actc dep + otherRefundable\<rparr>)))))"

definition passive_ordinary :: "aggregated_income \<Rightarrow> money" where
  "passive_ordinary limited = sum_list (map (\<lambda>s. al_share s Ordinary) (filter (\<lambda>s. isPassiveActivity (al_activityType s) \<or>
     al_activityType s = ActInvestment) (shares_of (ag_byPerson limited))))"

record federal_result =
  fr_lossLimitations :: loss_limitation
  fr_agiBlock :: agi_block
  fr_taxable :: taxable_block
  fr_regular :: regular_tax
  fr_credits :: credits_block
  fr_seTax :: money
  fr_additionalMedicareTax :: money
  fr_niit :: money
  fr_federalTotal :: money

definition federalSteps :: "federal_input \<Rightarrow> federal_result eng" where
  "federalSteps input =
    cbind (setPersons (person_refs (fi_persons input))) (\<lambda>_.
    cbind (entityIncome input) (\<lambda>(allocated, agg).
    cbind (limitLosses input agg) (\<lambda>losses.
    let limited = ll_income losses in
    cbind (computeAgiBlock input limited) (\<lambda>block.
    cbind (taxableIncome input allocated limited block) (\<lambda>taxable.
    cbind (regularTaxFor input block (tb_taxableIncome taxable)) (\<lambda>regular.
    cbind (creditsFor input block (rg_tax regular)) (\<lambda>credits.
    let inc = ab_income block in
    cbind (computeOtherTaxes (fi_otherTaxes input) \<lparr>oc_persons = ab_otherTaxPersons block, oc_interest = in_interest inc,
      oc_dividends = in_dividends inc, oc_capitalGains = in_capitalGainNet inc, oc_rental = in_rental inc,
      oc_passiveOrdinary = passive_ordinary limited, oc_agi = ab_agi block\<rparr>) (\<lambda>other.
    let medicare = am_tax (ot_additionalMedicare other); niit = ni_tax (ot_niit other) in
    cbind (cwhen (ey_amtExposureFlagged (fi_year input)) (warn ''TE_AMT_NOT_MODELLED'' None)) (\<lambda>_.
    let federalTotal = sum_list [rg_tax regular - cb_nonrefundableAllowed credits, ab_seTax block, medicare, niit] - cb_refundable credits in
    cbind (itrace ''federal_total'' ''federal_total'' federalTotal SrcGlMap None None) (\<lambda>_.
    cbind (cwhen (federalTotal = 0 \<and> in_totalIncome inc = 0) (info ''TE_NO_INCOME'' None)) (\<lambda>_.
    cret \<lparr>fr_lossLimitations = losses, fr_agiBlock = block, fr_taxable = taxable, fr_regular = regular, fr_credits = credits,
      fr_seTax = ab_seTax block, fr_additionalMedicareTax = medicare, fr_niit = niit, fr_federalTotal = federalTotal\<rparr>)))))))))))"

definition computeFederal :: "federal_input \<Rightarrow> (federal_result \<times> ectx) result" where
  "computeFederal input = (if fi_persons input = [] then Inl (JsError ''TE_NO_PERSONS'' [])
     else federalSteps input (new_ctx (fi_parameters input) (fi_taxYear input) (fi_filingStatus input)))"

subsection \<open>What the steps keep\<close>

lemma sound_on_scratch [eng_sound]: "sound (on_scratch input m)"
  by (simp add: on_scratch_def sound_clift)

lemma sound_agi [eng_sound]: "sound (computeAgiBlock input agg)"
  unfolding computeAgiBlock_def personAgi_def warn_ss_default_def Let_def by (intro eng_sound)

lemma sound_income_steps [eng_sound]: "sound (entityIncome input)" "sound (limitLosses input agg)"
  unfolding entityIncome_def limitLosses_def probeMagi_def by (intro eng_sound)+

lemma sound_taxableIncome [eng_sound]: "sound (taxableIncome input allocated limited block)"
  unfolding taxableIncome_def Let_def by (intro eng_sound)

lemma sound_tax_steps [eng_sound]: "sound (regularTaxFor input block ti)" "sound (creditsFor input block t)"
  unfolding regularTaxFor_def creditsFor_def Let_def by (intro eng_sound)+

lemma sound_federalSteps [eng_sound]: "sound (federalSteps input)"
  unfolding federalSteps_def Let_def by (intro eng_sound)

subsection \<open>The accounts of the result\<close>

text \<open>Each record of the result by the step that makes it.\<close>

lemma agi_block_accounts:
  assumes "computeAgiBlock input agg c = Inr (b, c')"
  shows "ab_agi b = in_totalIncome (ab_income b) - ab_adjustmentsTotal b \<and>
    ab_adjustmentsTotal b = ab_halfSeTax b + ab_retirement b + ab_sehi b + ab_hsa b + ab_otherAboveTheLine b"
  using assms unfolding computeAgiBlock_def Let_def by (auto simp: cbind_apply ebind_Inr_iff)

lemma taxable_block_accounts:
  assumes "taxableIncome input allocated limited block c = Inr (t, c')"
  shows "tb_taxableIncome t = floor0 (ab_agi block - tb_deduction t - tb_sch1a t - tb_qbi t)"
  using assms unfolding taxableIncome_def Let_def by (auto simp: cbind_apply ebind_Inr_iff simp del: if_split)

lemma credits_block_accounts:
  assumes "creditsFor input block tax c = Inr (k, c')"
  shows "cb_nonrefundableAllowed k = cb_careAllowed k + cb_ctcOdcAllowed k + cb_otherNonrefundableAllowed k \<and>
    cb_nonrefundableAllowed k \<le> floor0 tax \<and> cb_refundable k = cb_actc k + cb_otherRefundable k"
proof -
  from assms(1) obtain dep i c1 where dep: "computeDependentCredits i c = Inr (dep, c1)" "di_regularTax i = tax"
    and k: "cb_careAllowed k = dc_careAllowed dep" "cb_ctcOdcAllowed k = dc_ctcOdcAllowed dep"
      "cb_otherNonrefundableAllowed k \<le> floor0 (dc_taxAfterDependentCredits dep)"
      "cb_nonrefundableAllowed k = cb_careAllowed k + cb_ctcOdcAllowed k + cb_otherNonrefundableAllowed k"
      "cb_refundable k = cb_actc k + cb_otherRefundable k"
    unfolding creditsFor_def Let_def by (auto simp: cbind_apply ebind_Inr_iff simp del: if_split)
  from tax_after_dependent_credits [OF dep(1)] dep(2) k show ?thesis by auto
qed

text \<open>The steps behind a result, in the order they ran.\<close>

lemma federalStepsE:
  assumes "federalSteps input c = Inr (r, c')"
  obtains c1 c2 c3 c4 c5 c6 c7 limited allocated b where
    "computeAgiBlock input limited c1 = Inr (fr_agiBlock r, c2)"
    "taxableIncome input allocated limited (fr_agiBlock r) c2 = Inr (fr_taxable r, c3)"
    "regularTaxFor input (fr_agiBlock r) (tb_taxableIncome (fr_taxable r)) c3 = Inr (fr_regular r, c4)"
    "creditsFor input (fr_agiBlock r) (rg_tax (fr_regular r)) c4 = Inr (fr_credits r, c5)"
    "fr_federalTotal r = sum_list [rg_tax (fr_regular r) - cb_nonrefundableAllowed (fr_credits r), fr_seTax r, fr_additionalMedicareTax r,
      fr_niit r] - cb_refundable (fr_credits r)"
    "itrace ''federal_total'' ''federal_total'' (fr_federalTotal r) SrcGlMap None None c6 = Inr ((), c7)"
    "cwhen b (info ''TE_NO_INCOME'' None) c7 = Inr ((), c')"
proof -
  show ?thesis
    using assms that unfolding federalSteps_def Let_def
    by (auto simp: cbind_apply [of "setPersons x" for x] cbind_apply [of "entityIncome x" for x]
      cbind_apply [of "limitLosses x y" for x y] cbind_apply [of "computeAgiBlock x y" for x y]
      cbind_apply [of "taxableIncome a b c d" for a b c d] cbind_apply [of "regularTaxFor a b c" for a b c]
      cbind_apply [of "creditsFor a b c" for a b c] cbind_apply [of "computeOtherTaxes a b" for a b]
      cbind_apply [of "cwhen a b" for a b] cbind_apply [of "itrace a b c d e f" for a b c d e f] ebind_Inr_iff simp del: if_split)
qed

lemma itrace_row: "itrace step ident x src p e c = Inr (u, c') \<Longrightarrow> \<exists>w \<in> set (cx_trace c'). tr_id w = ident \<and> tr_exact w = x"
  by (auto simp: itrace_def trace_add_def row_def)

lemma info_keeps_trace: "cwhen b (info k d) c = Inr (u, c') \<Longrightarrow> cx_trace c' = cx_trace c"
  by (auto simp: cwhen_def info_def warn_sev_def split: if_splits)

text \<open>
  C36: the federal calculation adds up: the adjusted gross income is the total income less the adjustments, the
  taxable income is what the deduction, Schedule 1-A and the QBI deduction leave of it, never below zero; the
  nonrefundable credits are the three allowed credits and never exceed the regular tax; the total is the
  regular tax less those, plus the self-employment tax, the Additional Medicare tax and the NIIT, less the
  refundable credits; it is the amount of the \<open>federal_total\<close> row of the trace.
\<close>

theorem federal_total_accounts:
  assumes "computeFederal input = Inr (r, c)"
  shows "ab_agi (fr_agiBlock r) = in_totalIncome (ab_income (fr_agiBlock r)) - (ab_halfSeTax (fr_agiBlock r) +
      ab_retirement (fr_agiBlock r) + ab_sehi (fr_agiBlock r) + ab_hsa (fr_agiBlock r) + ab_otherAboveTheLine (fr_agiBlock r)) \<and>
    tb_taxableIncome (fr_taxable r) =
      floor0 (ab_agi (fr_agiBlock r) - tb_deduction (fr_taxable r) - tb_sch1a (fr_taxable r) - tb_qbi (fr_taxable r)) \<and>
    cb_nonrefundableAllowed (fr_credits r) = cb_careAllowed (fr_credits r) + cb_ctcOdcAllowed (fr_credits r) +
      cb_otherNonrefundableAllowed (fr_credits r) \<and>
    cb_nonrefundableAllowed (fr_credits r) \<le> floor0 (rg_tax (fr_regular r)) \<and>
    fr_federalTotal r = rg_tax (fr_regular r) - cb_nonrefundableAllowed (fr_credits r) + fr_seTax r + fr_additionalMedicareTax r +
      fr_niit r - cb_refundable (fr_credits r) \<and>
    (\<exists>w \<in> set (cx_trace c). tr_id w = ''federal_total'' \<and> tr_exact w = fr_federalTotal r)"
proof -
  from assms have run: "federalSteps input (new_ctx (fi_parameters input) (fi_taxYear input) (fi_filingStatus input)) = Inr (r, c)"
    by (simp add: computeFederal_def split: if_splits)
  from run show ?thesis
  proof (rule federalStepsE)
    fix c1 c2 c3 c4 c5 c6 c7 limited allocated b
    assume "computeAgiBlock input limited c1 = Inr (fr_agiBlock r, c2)"
      "taxableIncome input allocated limited (fr_agiBlock r) c2 = Inr (fr_taxable r, c3)"
      "creditsFor input (fr_agiBlock r) (rg_tax (fr_regular r)) c4 = Inr (fr_credits r, c5)"
      "itrace ''federal_total'' ''federal_total'' (fr_federalTotal r) SrcGlMap None None c6 = Inr ((), c7)"
      "cwhen b (info ''TE_NO_INCOME'' None) c7 = Inr ((), c)"
    note agi_block_accounts [OF this(1)] taxable_block_accounts [OF this(2)] credits_block_accounts [OF this(3)]
      itrace_row [OF this(4)] info_keeps_trace [OF this(5)]
    moreover assume "fr_federalTotal r = sum_list [rg_tax (fr_regular r) - cb_nonrefundableAllowed (fr_credits r), fr_seTax r,
      fr_additionalMedicareTax r, fr_niit r] - cb_refundable (fr_credits r)"
    ultimately show ?thesis by (simp add: add.assoc)
  qed
qed

text \<open>
  C37: the calculation throws on a taxpayer without persons, and otherwise its records are well formed: every
  parameter it used is recorded once, with the status and value of the parameter set, every trace amount is its
  exact amount in whole dollars, and no warning is repeated.
\<close>

theorem federal_records_ok:
  "case computeFederal input of
     Inl e \<Rightarrow> fi_persons input = [] \<longrightarrow> e = JsError ''TE_NO_PERSONS'' []
   | Inr (r, c) \<Rightarrow> fi_persons input \<noteq> [] \<and> ctx_ok c \<and> cx_params c = fi_parameters input \<and> cx_fs c = fi_filingStatus input"
proof (cases "computeFederal input")
  case (Inr x)
  then obtain r c where x: "x = (r, c)" "fi_persons input \<noteq> []"
      and run: "federalSteps input (new_ctx (fi_parameters input) (fi_taxYear input) (fi_filingStatus input)) = Inr (r, c)"
    by (cases x) (auto simp: computeFederal_def split: if_splits)
  from soundD [OF sound_federalSteps run ctx_ok_new] x Inr show ?thesis
    by (simp add: grows_def new_ctx_def)
qed (auto simp: computeFederal_def)


subsection \<open>The calculation returns\<close>

definition federal_env :: "federal_input \<Rightarrow> env" where
  "federal_env input = \<lparr>ev_params = fi_parameters input, ev_fs = fi_filingStatus input, ev_persons = person_refs (fi_persons input)\<rparr>"

lemma federal_env_ids: "env_ids (federal_env input) = set (map en_personId (fi_persons input))"
  by (simp add: env_ids_def federal_env_def person_refs_def)

lemma runs_on_scratch: "runs (federal_env input) m \<Longrightarrow> runs_to E (\<lambda>_. True) (on_scratch input m)"
  by (auto simp: on_scratch_def runs_to_def in_env_def federal_env_def scratchContext_def new_ctx_def split: prod.split
      dest!: spec [of _ "scratchContext input"])

lemma runs_person:
  assumes "params_complete E" "keyed (env_ids E) m" "en_personId p \<in> env_ids E"
  shows "runs E (personAgi y m p)"
proof -
  obtain inc where "map_of m (en_personId p) = Some inc" using keyed_lookup [OF assms(2,3)] by blast
  then show ?thesis
    unfolding personAgi_def warn_ss_default_def
    by (simp only: option.case) (intro runs_intro runs_steps_of_one_person assms(1) TrueI)
qed

lemma runs_agi_block:
  assumes "params_complete E" "keyed (env_ids E) (ag_byPerson agg)" "env_ids E = set (map en_personId (fi_persons input))"
  shows "runs E (computeAgiBlock input agg)"
proof -
  have "runs_to E (list_all (\<lambda>_. True)) (cmap (personAgi (fi_taxYear input) (ag_byPerson agg)) (fi_persons input))"
    by (rule runs_cmap, rule runs_person [OF assms(1,2)]) (simp add: assms(3))
  then show ?thesis
    unfolding computeAgiBlock_def
    by (intro runs_bind [OF runs_netIncome] runs_bind [OF runs_to_weaken] runs_intro assms(1) TrueI)
qed

lemma runs_limitLosses:
  assumes "params_complete (federal_env input)" "keyed (env_ids (federal_env input)) (ag_byPerson agg)"
  shows "runs_to (federal_env input) (\<lambda>r. keyed (env_ids (federal_env input)) (ag_byPerson (ll_income r))) (limitLosses input agg)"
proof -
  have ids: "env_ids (federal_env input) = set (map en_personId (fi_persons input))" by (rule federal_env_ids)
  have probe: "runs (federal_env input) (probeMagi input agg)"
    unfolding probeMagi_def
    by (intro runs_on_scratch runs_to_bind [OF runs_loss_limits [OF assms]] runs_if runs_bind runs_agi_block [OF assms(1) _ ids] runs_cret TrueI)
  show ?thesis
    unfolding limitLosses_def by (intro runs_bind [OF probe] runs_loss_limits assms)
qed

lemma runs_taxable:
  assumes "params_complete (federal_env input)"
  shows "runs (federal_env input) (taxableIncome input allocated limited block)"
  unfolding taxableIncome_def Let_def
  by (intro runs_intro runs_on_scratch runs_deductions runs_qbi assms TrueI)

lemma runs_last_steps:
  assumes "params_complete (federal_env input)"
  shows "runs (federal_env input) (regularTaxFor input block ti)" "runs (federal_env input) (creditsFor input block t)"
  unfolding regularTaxFor_def creditsFor_def
  by (intro runs_intro runs_regular_tax runs_dependents assms TrueI)+

lemma runs_setPersons:
  assumes "runs E (f ())" "cx_params c = ev_params E" "cx_fs c = ev_fs E" "ps = ev_persons E"
  shows "\<exists>x. cbind (setPersons ps) f c = Inr x"
  using runs_toD [OF assms(1), of "c\<lparr>cx_persons := ps\<rparr>"] assms(2-4)
  by (auto simp: setPersons_def cbind_def in_env_def)

lemma runs_federalSteps:
  assumes "params_complete (federal_env input)" "fi_persons input \<noteq> []"
  shows "\<exists>x. federalSteps input (new_ctx (fi_parameters input) (fi_taxYear input) (fi_filingStatus input)) = Inr x"
proof -
  let ?E = "federal_env input"
  have ps: "ev_persons ?E \<noteq> []" using assms(2) by (simp add: federal_env_def person_refs_def)
  note ids = federal_env_ids [of input]
  have income: "runs_to ?E (\<lambda>(a, agg). keyed (env_ids ?E) (ag_byPerson agg)) (entityIncome input)"
    unfolding entityIncome_def
    by (intro runs_bind [OF runs_cmap_plain] runs_allocateEntity ps runs_to_bind [OF runs_aggregate [OF ps ids]] runs_cret) simp
  show ?thesis
    unfolding federalSteps_def Let_def
    by (rule runs_setPersons [where E = ?E], rule runs_to_bind [OF income], rule runs_case_prod, clarify,
        rule runs_to_bind [OF runs_limitLosses [OF assms(1)]], assumption,
        rule runs_bind [OF runs_agi_block [OF assms(1) _ ids]], assumption,
        intro runs_bind [OF runs_taxable [OF assms(1)]] runs_bind [OF runs_last_steps(1) [OF assms(1)]]
          runs_bind [OF runs_last_steps(2) [OF assms(1)]] runs_bind [OF runs_other_taxes [OF assms(1)]] runs_intro TrueI)
      (simp_all add: federal_env_def new_ctx_def)
qed

text \<open>
  C38: the calculation returns on every taxpayer with a person when the parameter set is complete for the filing
  status: no step divides by zero, indexes past a list, misses a person or reads a missing or ill-typed parameter.
\<close>

theorem federal_returns:
  assumes "params_complete (federal_env input)" and "fi_persons input \<noteq> []"
  shows "\<exists>r c. computeFederal input = Inr (r, c)"
proof -
  from runs_federalSteps [OF assms] obtain x where
    "federalSteps input (new_ctx (fi_parameters input) (fi_taxYear input) (fi_filingStatus input)) = Inr x" by blast
  with assms(2) show ?thesis by (cases x) (simp add: computeFederal_def)
qed

subsection \<open>An example\<close>

text \<open>A couple with one earner, a shop that made 18,000 in six months, and one child; the amounts of the parameters are placeholders.\<close>

definition sample_shop :: engine_entity where
  "sample_shop = (sample_partnership [(sample_link ''l1'' ''p1'')\<lparr>li_profitPct := Some 100, li_partnerSeStatus := None\<rparr>])\<lparr>ee_entityType := SchC,
     ee_ytd := no_characters(Ordinary := 18000), ee_recurringYtd := no_characters(Ordinary := 18000), ee_guaranteedPayments := []\<rparr>"

definition sample_year :: engine_year_inputs where
  "sample_year = \<lparr>ey_rateMode = RmBrackets, ey_effectiveRateOverride = None, ey_deductionMode = DmAuto,
     ey_itemized = \<lparr>it_saltPaid = 0, it_mortgageInterest = 0, it_charitableCash = 0, it_charitableNoncash = 0, it_other = 0\<rparr>,
     ey_creditsNonrefundable = 0, ey_creditsRefundable = 0, ey_careExpenses = None, ey_fixedDependentCredits = None,
     ey_unrecaptured1250Gain = 0, ey_collectiblesGain = 0, ey_amtExposureFlagged = False, ey_mfsLivedApartAllYear = False\<rparr>"

definition sample_lists :: "(string \<times> resolved) list" where
  "sample_lists = map (\<lambda>(k, v). (k, \<lparr>rp_value = v, rp_status = Verified\<rparr>))
     [(''brackets.mfj'', sample_brackets), (''ltcg.rates'', JArr [JNum 0, JNum (3 / 20), JNum (1 / 5)]),
      (''ltcg.breakpoints.mfj'', JArr [JNum 96700, JNum 600050]), (''retirement.401k.catch_up_60_63_ages'', JArr [JNum 60, JNum 63]),
      (''eitc.max_agi.mfj'', JArr [JNum 57554]), (''eitc.max_agi.standard'', JArr [JNum 50434])]"

definition sample_number_keys :: "string list" where
  "sample_number_keys = NUMBER_KEYS @ INTEGER_KEYS @ map (\<lambda>k. filingStatusKey k Mfj) STATUS_NUMBER_KEYS"

definition sample_federal_params :: "(string \<times> resolved) list" where
  "sample_federal_params = sample_lists @ num_params (map (\<lambda>k. (k, 1)) sample_number_keys)"

definition sample_return :: federal_input where
  "sample_return = \<lparr>fi_taxYear = 2025, fi_filingStatus = Mfj, fi_parameters = sample_federal_params, fi_persons = [sample_person],
     fi_dependents = di_dependents sample_family, fi_entities = [sample_shop], fi_adjustments = [], fi_year = sample_year,
     fi_qbi = None, fi_otherTaxes = \<lparr>oi_additionalMedicareTax = None, oi_niit = None, oi_niiAllocableDeductions = None\<rparr>\<rparr>"

lemma map_of_placeholders:
  "map_of (num_params (map (\<lambda>k. (k, q)) ks)) k = (if k \<in> set ks then Some \<lparr>rp_value = JNum q, rp_status = Verified\<rparr> else None)"
  by (induction ks) (auto simp: num_params_def)

lemma sample_keys:
  "set NONZERO_KEYS \<subseteq> set NUMBER_KEYS" "''retirement.sep.pct_of_comp'' \<in> set NUMBER_KEYS" "''itemized.benefit_cap_rate'' \<in> set NUMBER_KEYS"
  "fst ` set sample_lists \<inter> set sample_number_keys = {}"
  by code_simp+

lemma sample_number:
  assumes "k \<in> set sample_number_keys"
  shows "map_of (ev_params (federal_env sample_return)) k = Some \<lparr>rp_value = JNum 1, rp_status = Verified\<rparr>"
proof -
  have "map_of sample_lists k = None" using assms sample_keys(4) by (auto simp: map_of_eq_None_iff)
  with assms show ?thesis
    by (simp add: federal_env_def sample_return_def sample_federal_params_def map_of_append map_add_def map_of_placeholders)
qed

lemma sample_complete: "params_complete (federal_env sample_return)"
proof -
  have one: "k \<in> set sample_number_keys \<Longrightarrow> stored_num (ev_params (federal_env sample_return)) k = 1" for k
    by (simp add: stored_num_def stored_def sample_number num_of_def)
  have fs: "ev_fs (federal_env sample_return) = Mfj" by (simp add: federal_env_def sample_return_def)
  have "list_all (number_at (federal_env sample_return)) NUMBER_KEYS" "list_all (integer_at (federal_env sample_return)) INTEGER_KEYS"
    "list_all (\<lambda>k. number_at (federal_env sample_return) (filingStatusKey k Mfj)) STATUS_NUMBER_KEYS"
    "list_all (\<lambda>k. stored_num (ev_params (federal_env sample_return)) k \<noteq> 0) NONZERO_KEYS"
    using sample_keys(1)
    by (auto simp: list_all_iff number_at_def integer_at_def sample_number sample_number_keys_def is_integer_def is_num_def one)
  moreover have "list_at (federal_env sample_return) is_integer 0 ''retirement.401k.catch_up_60_63_ages''"
    "list_at (federal_env sample_return) is_num 0 ''eitc.max_agi.mfj''" "list_at (federal_env sample_return) is_num 0 ''eitc.max_agi.standard''"
    "list_at (federal_env sample_return) is_num 2 ''ltcg.rates''" "list_at (federal_env sample_return) is_num 2 (filingStatusKey ''ltcg.breakpoints'' Mfj)"
    "brackets_at (federal_env sample_return) (filingStatusKey ''brackets'' Mfj)"
    by code_simp+
  moreover have "stored_num (ev_params (federal_env sample_return)) ''retirement.sep.pct_of_comp'' = 1"
    "stored_num (ev_params (federal_env sample_return)) ''itemized.benefit_cap_rate'' = 1"
    using sample_keys(2,3) by (simp_all add: one sample_number_keys_def)
  ultimately show ?thesis by (simp add: params_complete_def fs)
qed

lemma sample_persons: "fi_persons sample_return \<noteq> []"
  by (simp add: sample_return_def)

lemma federal_returns_witness: "\<exists>r c. computeFederal sample_return = Inr (r, c)"
  using federal_returns [OF sample_complete sample_persons] .

lemma federal_total_accounts_witness:
  "\<exists>r c. computeFederal sample_return = Inr (r, c) \<and> (\<exists>w \<in> set (cx_trace c). tr_id w = ''federal_total'' \<and>
     tr_exact w = rg_tax (fr_regular r) - cb_nonrefundableAllowed (fr_credits r) + fr_seTax r + fr_additionalMedicareTax r +
       fr_niit r - cb_refundable (fr_credits r))"
proof -
  from runs_federalSteps [OF sample_complete sample_persons] sample_persons obtain r c where
    "computeFederal sample_return = Inr (r, c)" by (auto simp: computeFederal_def)
  with federal_total_accounts [OF this] show ?thesis by auto
qed

lemma federal_records_ok_witness:
  "computeFederal (sample_return\<lparr>fi_persons := []\<rparr>) = Inl (JsError ''TE_NO_PERSONS'' [])"
  using federal_records_ok [of "sample_return\<lparr>fi_persons := []\<rparr>"] by (simp split: sum.splits prod.splits)

end
