(* ===== verification/SafeHarbor.thy ===== *)
theory SafeHarbor
  imports EstimateBase
begin

section \<open>Safe harbor (engine/safe-harbor.ts)\<close>

text \<open>
  The required annual payment under the current-year and the prior-year rule.  \<open>resolveSafeHarbor\<close> is the
  core without parameters, the federal wrapper reads the rates through a policy.  Labels, notes and the
  reason texts are left out; the reasons are kept.
\<close>

datatype safe_harbor_rule = RuleCurrentYear | RulePriorYear | RuleLesserOf

datatype rule_source = FromYear | FromTaxpayer | FromFirmDefault

record prior_year_input =
  pyi_tax :: "money option"
  pyi_agi :: "money option"
  pyi_twelveMonths :: bool
  pyi_filed :: bool

definition NO_PRIOR_YEAR :: prior_year_input where
  "NO_PRIOR_YEAR = \<lparr>pyi_tax = None, pyi_agi = None, pyi_twelveMonths = False, pyi_filed = False\<rparr>"

subsection \<open>Policies\<close>

record safe_harbor_policy =
  hp_currentPctKey :: string
  hp_priorPctKey :: "string option"
  hp_priorPctHighAgiKey :: "string option"
  hp_highAgiThresholdBase :: "string option"
  hp_minBalanceDueKey :: "string option"

definition INDIVIDUAL_SAFE_HARBOR_POLICY :: safe_harbor_policy where
  "INDIVIDUAL_SAFE_HARBOR_POLICY = \<lparr>hp_currentPctKey = ''safe_harbor.current_pct'', hp_priorPctKey = Some ''safe_harbor.prior_pct'',
     hp_priorPctHighAgiKey = Some ''safe_harbor.prior_pct_high_agi'', hp_highAgiThresholdBase = Some ''safe_harbor.high_agi_threshold'',
     hp_minBalanceDueKey = Some ''safe_harbor.min_balance_due''\<rparr>"

definition FARMER_SAFE_HARBOR_POLICY :: safe_harbor_policy where
  "FARMER_SAFE_HARBOR_POLICY = \<lparr>hp_currentPctKey = ''farmer.safe_harbor_current_pct'', hp_priorPctKey = Some ''farmer.safe_harbor_prior_pct'',
     hp_priorPctHighAgiKey = None, hp_highAgiThresholdBase = None, hp_minBalanceDueKey = Some ''safe_harbor.min_balance_due''\<rparr>"

definition CCORP_SAFE_HARBOR_POLICY :: safe_harbor_policy where
  "CCORP_SAFE_HARBOR_POLICY = \<lparr>hp_currentPctKey = ''ccorp.safe_harbor_current_pct'', hp_priorPctKey = Some ''ccorp.safe_harbor_prior_pct'',
     hp_priorPctHighAgiKey = None, hp_highAgiThresholdBase = None, hp_minBalanceDueKey = None\<rparr>"

subsection \<open>The core\<close>

record safe_harbor_rates =
  hr_currentPct :: money
  hr_priorPct :: "money option"
  hr_priorPctHighAgi :: "money option"
  hr_highAgiThreshold :: "money option"
  hr_priorHarborCurrentAgiCutoff :: "money option"
  hr_keys :: "string list"
  hr_priorUnavailableReason :: "string option"

record safe_harbor_core_input =
  hc_jurisdiction :: string
  hc_currentYearTax :: money
  hc_currentYearAgi :: "money option"
  hc_priorYear :: prior_year_input
  hc_rule :: safe_harbor_rule
  hc_ruleSource :: rule_source
  hc_rates :: safe_harbor_rates

datatype prior_year_reason = Unfiled | ShortYear | TaxUnknown | NoPriorYearRule | CurrentAgiCutoff | OtherReason

record safe_harbor_prior_year =
  hy_available :: bool
  hy_unavailableReason :: "prior_year_reason option"
  hy_tax :: "money option"
  hy_agi :: "money option"
  hy_pct :: "money option"
  hy_highAgiApplied :: bool
  hy_highAgiUntested :: bool
  hy_amount :: "money option"

record safe_harbor_exact =
  hx_currentYearAmount :: money
  hx_priorYearAmount :: "money option"
  hx_requiredAnnualPayment :: money

record safe_harbor_result =
  ho_jurisdiction :: string
  ho_rule :: safe_harbor_rule
  ho_ruleSource :: rule_source
  ho_appliedRule :: safe_harbor_rule
  ho_currentTax :: money
  ho_currentPct :: money
  ho_currentAmount :: money
  ho_priorYear :: safe_harbor_prior_year
  ho_requiredAnnualPayment :: money
  ho_noPenalty :: bool
  ho_verify :: bool
  ho_keys :: "string list"
  ho_exact :: safe_harbor_exact

text \<open>Only a non-empty text counts as given.\<close>

definition given_text :: "string option \<Rightarrow> string option" where
  "given_text s = (case s of None \<Rightarrow> None | Some t \<Rightarrow> if t = [] then None else Some t)"

definition priorYearStatus :: "safe_harbor_core_input \<Rightarrow> prior_year_reason option" where
  "priorYearStatus i = (let py = hc_priorYear i; r = hc_rates i in
     if given_text (hr_priorUnavailableReason r) \<noteq> None then Some OtherReason
     else if hr_priorPct r = None then Some NoPriorYearRule
     else if \<not> pyi_filed py then Some Unfiled
     else if \<not> pyi_twelveMonths py then Some ShortYear
     else if pyi_tax py = None then Some TaxUnknown
     else case (hr_priorHarborCurrentAgiCutoff r, hc_currentYearAgi i) of
         (Some cutoff, Some agi) \<Rightarrow> if cutoff \<le> agi then Some CurrentAgiCutoff else None
       | _ \<Rightarrow> None)"

text \<open>The percentage of an available prior year, whether the high one applies, and whether its test was skipped.\<close>

definition prior_pct :: "safe_harbor_core_input \<Rightarrow> money \<times> bool \<times> bool" where
  "prior_pct i = (let r = hc_rates i; base = (case hr_priorPct r of None \<Rightarrow> 0 | Some p \<Rightarrow> p) in
     case (hr_priorPctHighAgi r, hr_highAgiThreshold r) of
       (Some high, Some threshold) \<Rightarrow> (case pyi_agi (hc_priorYear i) of
           None \<Rightarrow> (base, False, True)
         | Some agi \<Rightarrow> if threshold < agi then (high, True, False) else (base, False, False))
     | _ \<Rightarrow> (base, False, False))"

definition prior_tax :: "safe_harbor_core_input \<Rightarrow> money" where
  "prior_tax i = (case pyi_tax (hc_priorYear i) of None \<Rightarrow> 0 | Some t \<Rightarrow> t)"

definition required_payment :: "safe_harbor_rule \<Rightarrow> money \<Rightarrow> money option \<Rightarrow> safe_harbor_rule \<times> money" where
  "required_payment rule current prior = (case rule of
      RuleCurrentYear \<Rightarrow> (rule, current)
    | RulePriorYear \<Rightarrow> (case prior of None \<Rightarrow> (RuleCurrentYear, current) | Some p \<Rightarrow> (rule, p))
    | RuleLesserOf \<Rightarrow> (case prior of None \<Rightarrow> (RuleCurrentYear, current) | Some p \<Rightarrow> (rule, min current p)))"

definition harbor_trace :: "string \<Rightarrow> string \<Rightarrow> money \<Rightarrow> trace_source \<Rightarrow> string list option \<Rightarrow> unit est" where
  "harbor_trace j what x src ks = est_add ((est_row_of ''safe_harbor'' j (j @ ''.safe_harbor.'' @ what) x src)\<lparr>er_parameterKeys := ks\<rparr>)"

text \<open>The amounts of both rules, and the rule applied with the payment it requires.\<close>

definition harbor_amounts :: "safe_harbor_core_input \<Rightarrow> safe_harbor_exact \<times> safe_harbor_rule" where
  "harbor_amounts i =
    (let current = hr_currentPct (hc_rates i) * hc_currentYearTax i;
         prior = (if priorYearStatus i = None then Some (fst (prior_pct i) * prior_tax i) else None);
         (applied, required) = required_payment (hc_rule i) current prior in
     (\<lparr>hx_currentYearAmount = current, hx_priorYearAmount = prior, hx_requiredAnnualPayment = required\<rparr>, applied))"

definition harbor_prior_year :: "safe_harbor_core_input \<Rightarrow> safe_harbor_exact \<Rightarrow> safe_harbor_prior_year" where
  "harbor_prior_year i x =
    (let available = (priorYearStatus i = None); (pct, highAgi, untested) = prior_pct i in
     \<lparr>hy_available = available, hy_unavailableReason = priorYearStatus i, hy_tax = map_option (rnd 0) (pyi_tax (hc_priorYear i)),
       hy_agi = map_option (rnd 0) (pyi_agi (hc_priorYear i)), hy_pct = (if available then Some pct else None),
       hy_highAgiApplied = (available \<and> highAgi), hy_highAgiUntested = (available \<and> untested),
       hy_amount = map_option (rnd 0) (hx_priorYearAmount x)\<rparr>)"

definition harbor_result :: "safe_harbor_core_input \<Rightarrow> safe_harbor_exact \<Rightarrow> safe_harbor_rule \<Rightarrow> safe_harbor_result" where
  "harbor_result i x applied =
    (let r = hc_rates i; reason = priorYearStatus i; py = harbor_prior_year i x in
     \<lparr>ho_jurisdiction = hc_jurisdiction i, ho_rule = hc_rule i, ho_ruleSource = hc_ruleSource i, ho_appliedRule = applied,
       ho_currentTax = rnd 0 (hc_currentYearTax i), ho_currentPct = hr_currentPct r, ho_currentAmount = rnd 0 (hx_currentYearAmount x),
       ho_priorYear = py, ho_requiredAnnualPayment = rnd 0 (hx_requiredAnnualPayment x),
       ho_noPenalty = (hy_available py \<and> prior_tax i = 0),
       ho_verify = (hy_highAgiUntested py \<or> reason = Some OtherReason \<or> reason = Some CurrentAgiCutoff),
       ho_keys = hr_keys r, ho_exact = x\<rparr>)"

definition resolveSafeHarbor :: "safe_harbor_core_input \<Rightarrow> safe_harbor_result est" where
  "resolveSafeHarbor i =
    (let j = hc_jurisdiction i; ks = Some (hr_keys (hc_rates i)); (x, applied) = harbor_amounts i in
     cbind (cwhen (hy_highAgiUntested (harbor_prior_year i x))
       (est_warn ''TE_SAFE_HARBOR_PRIOR_AGI_MISSING'' (Some [(''jurisdiction'', DText j)]))) (\<lambda>_.
     cbind (harbor_trace j ''current'' (hx_currentYearAmount x) SrcParameter ks) (\<lambda>_.
     cbind (case hx_priorYearAmount x of None \<Rightarrow> cret () | Some p \<Rightarrow> harbor_trace j ''prior'' p SrcParameter ks) (\<lambda>_.
     cbind (harbor_trace j ''required'' (hx_requiredAnnualPayment x) SrcInput None) (\<lambda>_.
     cret (harbor_result i x applied))))))"

subsection \<open>The federal wrapper\<close>

text \<open>An override of the prior percentage may be absent, null (no prior rule) or a percentage.\<close>

record pct_overrides =
  po_currentPct :: "money option"
  po_priorPct :: "money option option"
  po_priorUnavailableReason :: "string option"

definition no_overrides :: pct_overrides where
  "no_overrides = \<lparr>po_currentPct = None, po_priorPct = None, po_priorUnavailableReason = None\<rparr>"

record federal_safe_harbor_input =
  hf_currentYearTax :: money
  hf_currentYearAgi :: "money option"
  hf_priorYear :: prior_year_input
  hf_rule :: safe_harbor_rule
  hf_ruleSource :: rule_source
  hf_policy :: "safe_harbor_policy option"
  hf_pctOverrides :: "pct_overrides option"

definition threshold_key :: "string \<Rightarrow> filing_status \<Rightarrow> string" where
  "threshold_key base fs = base @ ''.'' @ (if fs = Mfs then ''mfs'' else ''standard'')"

definition prior_rate :: "safe_harbor_policy \<Rightarrow> pct_overrides \<Rightarrow> (money option \<times> string list) est" where
  "prior_rate policy over = (case po_priorPct over of
      Some p \<Rightarrow> cret (p, [])
    | None \<Rightarrow> (case given_text (hp_priorPctKey policy) of
        None \<Rightarrow> cret (None, [])
      | Some k \<Rightarrow> cbind (on_base (p_rate k)) (\<lambda>x. cret (Some x, [k]))))"

definition federalSafeHarborRates :: "filing_status \<Rightarrow> safe_harbor_policy \<Rightarrow> pct_overrides \<Rightarrow> safe_harbor_rates est" where
  "federalSafeHarborRates fs policy over =
    cbind (case po_currentPct over of Some p \<Rightarrow> cret p | None \<Rightarrow> on_base (p_rate (hp_currentPctKey policy))) (\<lambda>currentPct.
    cbind (prior_rate policy over) (\<lambda>(priorPct, priorKeys).
    let rates = (\<lambda>high threshold ks. \<lparr>hr_currentPct = currentPct, hr_priorPct = priorPct, hr_priorPctHighAgi = high,
          hr_highAgiThreshold = threshold, hr_priorHarborCurrentAgiCutoff = None, hr_keys = hp_currentPctKey policy # priorKeys @ ks,
          hr_priorUnavailableReason = po_priorUnavailableReason over\<rparr>) in
    case (given_text (hp_priorPctHighAgiKey policy), given_text (hp_highAgiThresholdBase policy), priorPct) of
      (Some highKey, Some base, Some p) \<Rightarrow>
        cbind (on_base (p_rate highKey)) (\<lambda>high.
        cbind (on_base (p_money (threshold_key base fs))) (\<lambda>threshold.
        cret (rates (Some high) (Some threshold) [highKey, threshold_key base fs])))
    | _ \<Rightarrow> cret (rates None None [])))"

definition computeFederalSafeHarbor :: "federal_safe_harbor_input \<Rightarrow> safe_harbor_result est" where
  "computeFederalSafeHarbor i =
    cbind (cget (cx_fs \<circ> es_base)) (\<lambda>fs.
    cbind (federalSafeHarborRates fs (case hf_policy i of None \<Rightarrow> INDIVIDUAL_SAFE_HARBOR_POLICY | Some p \<Rightarrow> p)
      (case hf_pctOverrides i of None \<Rightarrow> no_overrides | Some over \<Rightarrow> over)) (\<lambda>rates.
    resolveSafeHarbor \<lparr>hc_jurisdiction = ''federal'', hc_currentYearTax = hf_currentYearTax i, hc_currentYearAgi = hf_currentYearAgi i,
      hc_priorYear = hf_priorYear i, hc_rule = hf_rule i, hc_ruleSource = hf_ruleSource i, hc_rates = rates\<rparr>))"

definition balanceAfterWithholding :: "money \<Rightarrow> money \<Rightarrow> money" where
  "balanceAfterWithholding currentYearTax withholding = currentYearTax - withholding"

lemma est_sound_safe_harbor [est_sounds]: "est_sound (computeFederalSafeHarbor i)" "est_sound (resolveSafeHarbor j)"
  unfolding computeFederalSafeHarbor_def federalSafeHarborRates_def prior_rate_def resolveSafeHarbor_def harbor_trace_def Let_def
  by (intro est_sounds eng_sound)+

subsection \<open>The rule against Form 2210\<close>

lemma on_baseD: "on_base m c = Inr (x, c') \<Longrightarrow> m (es_base c) = Inr (x, es_base c')"
  by (auto simp: on_base_def ebind_Inr_iff)

lemma on_base_read:
  "on_base (p_rate k) c = Inr (x, c') \<Longrightarrow> x = stored_num (cx_params (es_base c)) k \<and> cx_params (es_base c') = cx_params (es_base c)"
  "on_base (p_money k) c = Inr (x, c') \<Longrightarrow> x = stored_num (cx_params (es_base c)) k \<and> cx_params (es_base c') = cx_params (es_base c)"
  by (drule on_baseD, drule p_rate_readD p_money_readD, blast)+

text \<open>What the prior-year return must show, and the amount it allows.\<close>

definition prior_return_usable :: "prior_year_input \<Rightarrow> bool" where
  "prior_return_usable py \<longleftrightarrow> pyi_filed py \<and> pyi_twelveMonths py \<and> pyi_tax py \<noteq> None"

definition high_income :: "prior_year_input \<Rightarrow> money \<Rightarrow> bool" where
  "high_income py threshold \<longleftrightarrow> (case pyi_agi py of None \<Rightarrow> False | Some agi \<Rightarrow> threshold < agi)"

lemma emits_resolve: "emits (harbor_result i (fst (harbor_amounts i)) (snd (harbor_amounts i))) (resolveSafeHarbor i)"
  unfolding resolveSafeHarbor_def harbor_trace_def Let_def case_prod_beta
  by (cases "hx_priorYearAmount (fst (harbor_amounts i))") (auto intro!: emitting)

lemma resolve_result:
  assumes "resolveSafeHarbor i c = Inr (r, c')"
  shows "hx_currentYearAmount (ho_exact r) = hr_currentPct (hc_rates i) * hc_currentYearTax i"
    "hx_priorYearAmount (ho_exact r) = (if priorYearStatus i = None then Some (fst (prior_pct i) * prior_tax i) else None)"
    "required_payment (hc_rule i) (hx_currentYearAmount (ho_exact r)) (hx_priorYearAmount (ho_exact r)) =
      (ho_appliedRule r, hx_requiredAnnualPayment (ho_exact r))"
    "ho_noPenalty r \<longleftrightarrow> priorYearStatus i = None \<and> prior_tax i = 0"
    "ho_requiredAnnualPayment r = rnd 0 (hx_requiredAnnualPayment (ho_exact r))"
proof -
  obtain c1 where "resolveSafeHarbor i c = Inr (harbor_result i (fst (harbor_amounts i)) (snd (harbor_amounts i)), c1)"
    using emitsD [OF emits_resolve] by blast
  with assms have "r = harbor_result i (fst (harbor_amounts i)) (snd (harbor_amounts i))" by simp
  then show "hx_currentYearAmount (ho_exact r) = hr_currentPct (hc_rates i) * hc_currentYearTax i"
    "hx_priorYearAmount (ho_exact r) = (if priorYearStatus i = None then Some (fst (prior_pct i) * prior_tax i) else None)"
    "required_payment (hc_rule i) (hx_currentYearAmount (ho_exact r)) (hx_priorYearAmount (ho_exact r)) =
      (ho_appliedRule r, hx_requiredAnnualPayment (ho_exact r))"
    "ho_noPenalty r \<longleftrightarrow> priorYearStatus i = None \<and> prior_tax i = 0"
    "ho_requiredAnnualPayment r = rnd 0 (hx_requiredAnnualPayment (ho_exact r))"
    by (simp_all add: harbor_result_def harbor_prior_year_def harbor_amounts_def Let_def case_prod_beta del: if_split)
qed

lemma required_payment_min:
  "required_payment rule current prior = (applied, required) \<Longrightarrow>
    required = (if rule = RuleCurrentYear \<or> prior = None then current
      else if rule = RulePriorYear then the prior else min current (the prior)) \<and>
    applied = (if prior = None then RuleCurrentYear else rule)"
  by (auto simp: required_payment_def split: safe_harbor_rule.splits option.splits)

lemma individual_rates:
  assumes "federalSafeHarborRates fs INDIVIDUAL_SAFE_HARBOR_POLICY no_overrides c = Inr (r, c')"
  shows "r = (let P = cx_params (es_base c); key = threshold_key ''safe_harbor.high_agi_threshold'' fs in
    \<lparr>hr_currentPct = stored_num P ''safe_harbor.current_pct'', hr_priorPct = Some (stored_num P ''safe_harbor.prior_pct''),
      hr_priorPctHighAgi = Some (stored_num P ''safe_harbor.prior_pct_high_agi''), hr_highAgiThreshold = Some (stored_num P key),
      hr_priorHarborCurrentAgiCutoff = None,
      hr_keys = [''safe_harbor.current_pct'', ''safe_harbor.prior_pct'', ''safe_harbor.prior_pct_high_agi'', key],
      hr_priorUnavailableReason = None\<rparr>)"
  using assms unfolding federalSafeHarborRates_def prior_rate_def Let_def
  by (auto simp: cbind_apply ebind_Inr_iff no_overrides_def INDIVIDUAL_SAFE_HARBOR_POLICY_def given_text_def dest!: on_base_read)

text \<open>
  C39: the required annual payment of an individual is that of Form 2210 Part I: the current-year amount is the
  stored percentage of this year's tax; the prior-year amount counts exactly when a twelve-month return was filed
  and its tax is known, with the high percentage when its AGI is above the threshold of the filing status; the
  rule selects between the amounts that count, falling back to the current year and saying so; the lesser of the
  two never exceeds either; a usable return without tax means no penalty.
\<close>

theorem safe_harbor_form_2210:
  assumes "computeFederalSafeHarbor i c = Inr (r, c')" and "hf_policy i = None" and "hf_pctOverrides i = None"
  shows "let P = cx_params (es_base c); py = hf_priorYear i; usable = prior_return_usable py;
      threshold = stored_num P (threshold_key ''safe_harbor.high_agi_threshold'' (cx_fs (es_base c)));
      pct = stored_num P (if high_income py threshold then ''safe_harbor.prior_pct_high_agi'' else ''safe_harbor.prior_pct'');
      current = stored_num P ''safe_harbor.current_pct'' * hf_currentYearTax i; prior = pct * the (pyi_tax py);
      required = hx_requiredAnnualPayment (ho_exact r) in
    hx_currentYearAmount (ho_exact r) = current \<and> hx_priorYearAmount (ho_exact r) = (if usable then Some prior else None) \<and>
    (ho_appliedRule r = hf_rule i \<longleftrightarrow> usable \<or> hf_rule i = RuleCurrentYear) \<and>
    required = (if \<not> usable \<or> hf_rule i = RuleCurrentYear then current
      else if hf_rule i = RulePriorYear then prior else Min {current, prior}) \<and>
    ho_requiredAnnualPayment r = rnd 0 required \<and> (ho_noPenalty r \<longleftrightarrow> usable \<and> pyi_tax py = Some 0)"
proof -
  let ?fs = "cx_fs (es_base c)"
  from assms obtain rates c1 where rates: "federalSafeHarborRates ?fs INDIVIDUAL_SAFE_HARBOR_POLICY no_overrides c = Inr (rates, c1)"
    and run: "resolveSafeHarbor \<lparr>hc_jurisdiction = ''federal'', hc_currentYearTax = hf_currentYearTax i, hc_currentYearAgi = hf_currentYearAgi i,
      hc_priorYear = hf_priorYear i, hc_rule = hf_rule i, hc_ruleSource = hf_ruleSource i, hc_rates = rates\<rparr> c1 = Inr (r, c')"
    unfolding computeFederalSafeHarbor_def by (auto simp: cbind_apply ebind_Inr_iff)
  let ?i = "\<lparr>hc_jurisdiction = ''federal'', hc_currentYearTax = hf_currentYearTax i, hc_currentYearAgi = hf_currentYearAgi i,
      hc_priorYear = hf_priorYear i, hc_rule = hf_rule i, hc_ruleSource = hf_ruleSource i, hc_rates = rates\<rparr>"
  note rates = individual_rates [OF rates]
  have status: "priorYearStatus ?i = None \<longleftrightarrow> prior_return_usable (hf_priorYear i)"
    by (auto simp: rates priorYearStatus_def prior_return_usable_def given_text_def Let_def)
  have pct: "fst (prior_pct ?i) = stored_num (cx_params (es_base c))
      (if high_income (hf_priorYear i) (stored_num (cx_params (es_base c)) (threshold_key ''safe_harbor.high_agi_threshold'' ?fs))
       then ''safe_harbor.prior_pct_high_agi'' else ''safe_harbor.prior_pct'')"
    by (auto simp: rates prior_pct_def high_income_def Let_def split: option.split)
  have tax: "pyi_tax (hf_priorYear i) \<noteq> None \<Longrightarrow> prior_tax ?i = the (pyi_tax (hf_priorYear i))"
    by (auto simp: prior_tax_def)
  note R = resolve_result [OF run]
  have current: "hr_currentPct rates = stored_num (cx_params (es_base c)) ''safe_harbor.current_pct''"
    by (simp add: rates Let_def)
  have zero: "prior_return_usable (hf_priorYear i) \<Longrightarrow> prior_tax ?i = 0 \<longleftrightarrow> pyi_tax (hf_priorYear i) = Some 0"
    by (auto simp: prior_tax_def prior_return_usable_def)
  have usable: "prior_return_usable (hf_priorYear i) \<Longrightarrow> prior_tax ?i = the (pyi_tax (hf_priorYear i))"
    by (auto simp: prior_tax_def prior_return_usable_def)
  show ?thesis
    using R(1,2,4,5) required_payment_min [OF R(3)] zero usable
    unfolding Let_def status pct current by (cases "hf_rule i"; cases "prior_return_usable (hf_priorYear i)") (auto simp: current)
qed

definition sample_harbor :: federal_safe_harbor_input where
  "sample_harbor = \<lparr>hf_currentYearTax = 35829, hf_currentYearAgi = None,
     hf_priorYear = \<lparr>pyi_tax = Some 31500, pyi_agi = Some 182000, pyi_twelveMonths = True, pyi_filed = True\<rparr>,
     hf_rule = RuleLesserOf, hf_ruleSource = FromFirmDefault, hf_policy = None, hf_pctOverrides = None\<rparr>"

definition sample_harbor_params :: "(string \<times> resolved) list" where
  "sample_harbor_params = map (\<lambda>(k, q). (k, \<lparr>rp_value = JNum q, rp_status = Verified\<rparr>))
     [(''safe_harbor.current_pct'', 9 / 10), (''safe_harbor.prior_pct'', 1), (''safe_harbor.prior_pct_high_agi'', 11 / 10),
      (''safe_harbor.high_agi_threshold.standard'', 150000)]"

lemma safe_harbor_form_2210_witness:
  "\<exists>r c'. computeFederalSafeHarbor sample_harbor (new_est sample_harbor_params 2026 Mfj) = Inr (r, c') \<and>
     hx_requiredAnnualPayment (ho_exact r) = 322461 / 10 \<and> hx_priorYearAmount (ho_exact r) = Some 34650"
proof -
  let ?c = "new_est sample_harbor_params 2026 Mfj"
  have "(case computeFederalSafeHarbor sample_harbor ?c of Inr (r, c') \<Rightarrow> True | Inl e \<Rightarrow> False)" by code_simp
  then obtain r c' where r: "computeFederalSafeHarbor sample_harbor ?c = Inr (r, c')" by (auto split: sum.splits)
  from safe_harbor_form_2210 [OF r] r show ?thesis
    by (simp add: sample_harbor_def prior_return_usable_def high_income_def new_est_def new_ctx_def threshold_key_def
        sample_harbor_params_def stored_num_def stored_def num_of_def Let_def)
qed

end
