(* ===== verification/SchAi.thy ===== *)
theory SchAi
  imports Federal SafeHarbor Dates
begin

section \<open>Schedule AI (engine/sch-ai.ts)\<close>

text \<open>
  Each period's actual figures are annualized and priced by the federal calculation, a callback of the
  code and an argument \<open>calc\<close> here; \<open>federal_calc\<close> is the calculation of theory \<open>Federal\<close>.  Lines 22 to 27 then
  give the required installments.  \<open>calc\<close> is a function, so the code's cache of the full-year result has no
  counterpart.  Labels, formulas and assumption texts are left out.
\<close>

record sch_ai_policy =
  sp_periodEndsKey :: string
  sp_factorsKey :: string
  sp_applicablePctsKey :: string
  sp_periodMonthsKey :: "string option"

definition INDIVIDUAL_SCH_AI_POLICY :: sch_ai_policy where
  "INDIVIDUAL_SCH_AI_POLICY = \<lparr>sp_periodEndsKey = ''sch_ai.period_ends'', sp_factorsKey = ''sch_ai.annualization_factors'',
     sp_applicablePctsKey = ''sch_ai.applicable_pcts'', sp_periodMonthsKey = Some ''sch_ai.period_months''\<rparr>"

definition CCORP_SCH_AI_POLICY :: sch_ai_policy where
  "CCORP_SCH_AI_POLICY = \<lparr>sp_periodEndsKey = ''ccorp.sch_ai.period_ends'', sp_factorsKey = ''ccorp.sch_ai.annualization_factors'',
     sp_applicablePctsKey = ''ccorp.sch_ai.applicable_pcts'', sp_periodMonthsKey = None\<rparr>"

subsection \<open>Annualizing a scenario\<close>

type_synonym sehi_fraction = "string option \<Rightarrow> engine_entity option \<Rightarrow> money option"

definition scaled_sehi :: "money \<Rightarrow> money \<Rightarrow> money option \<Rightarrow> money" where
  "scaled_sehi v f fraction = (case fraction of None \<Rightarrow> v * f | Some q \<Rightarrow> v * (f * q))"

definition scale_amount :: "money \<Rightarrow> person_amount \<Rightarrow> person_amount" where
  "scale_amount f g = g\<lparr>pa_amount := pa_amount g * f\<rparr>"

definition annualizeEntity :: "engine_entity \<Rightarrow> money \<Rightarrow> sehi_fraction \<Rightarrow> engine_entity" where
  "annualizeEntity e f sehiFraction = e\<lparr>ee_monthsElapsed := 12, ee_monthsRemaining := 0,
     ee_ytd := (\<lambda>k. ee_ytd e k * f), ee_recurringYtd := (\<lambda>k. ee_recurringYtd e k * f),
     ee_ownerItems := map (\<lambda>i. i\<lparr>oi_sehi := scaled_sehi (oi_sehi i) f (sehiFraction (oi_personId i) (Some e)),
       oi_retirement := oi_retirement i * f, oi_sehiAsW2Wages := oi_sehiAsW2Wages i * f\<rparr>) (ee_ownerItems e),
     ee_guaranteedPayments := map (scale_amount f) (ee_guaranteedPayments e),
     ee_officerWages := map (scale_amount f) (ee_officerWages e),
     ee_taxDepreciationBookYtd := ee_taxDepreciationBookYtd e * f,
     ee_w2WagesEffective := map_option (\<lambda>v. v * f) (ee_w2WagesEffective e), ee_priorYearTrend := None\<rparr>"

definition annualizePerson :: "engine_person \<Rightarrow> money \<Rightarrow> money option \<Rightarrow> engine_person" where
  "annualizePerson p f sehiFraction = p\<lparr>
     en_sehiEligibleMonths := (if sehiFraction = None then en_sehiEligibleMonths p else replicate 12 True),
     en_w2Wages := en_w2Wages p * f, en_w2SocialSecurityWages := map_option (\<lambda>v. v * f) (en_w2SocialSecurityWages p),
     en_retirementEmployeeDeferral := map_option (\<lambda>v. v * f) (en_retirementEmployeeDeferral p),
     en_hsaContribution := en_hsaContribution p * f,
     en_sch1a := \<lparr>sp_qualifiedTips = sp_qualifiedTips (en_sch1a p) * f, sp_qualifiedOvertime = sp_qualifiedOvertime (en_sch1a p) * f,
       sp_carLoanInterest = sp_carLoanInterest (en_sch1a p) * f\<rparr>\<rparr>"

definition annualizeAdjustment :: "engine_adjustment \<Rightarrow> money \<Rightarrow> sehi_fraction \<Rightarrow> engine_adjustment" where
  "annualizeAdjustment a f sehiFraction =
    (let fraction = (if aj_kind a = AdjDeduction \<and> aj_typeCode a = Some ''owner_health_insurance'' then sehiFraction (aj_personId a) None else None) in
     a\<lparr>aj_amount := scaled_sehi (aj_amount a) f fraction\<rparr>)"

definition primary_person :: "engine_person list \<Rightarrow> engine_person option" where
  "primary_person ps = (case find (\<lambda>p. en_role p = Primary) ps of Some p \<Rightarrow> Some p
     | None \<Rightarrow> (case ps of [] \<Rightarrow> None | p # _ \<Rightarrow> Some p))"

definition within_year :: "int option \<Rightarrow> bool" where
  "within_year months = (case months of None \<Rightarrow> False | Some m \<Rightarrow> 0 < m \<and> m < 12)"

text \<open>The fraction of each person; a person whose flags are malformed has none.\<close>

definition person_fraction :: "int \<Rightarrow> engine_person \<Rightarrow> money option" where
  "person_fraction months p = (if length (en_sehiEligibleMonths p) \<noteq> 12 then None
     else Some (rnd 12 (of_nat (length (filter id (take (nat months) (en_sehiEligibleMonths p)))) / of_int months)))"

definition sehiFractionResolver :: "federal_input \<Rightarrow> int option \<Rightarrow> sehi_fraction" where
  "sehiFractionResolver actuals periodMonths = (\<lambda>personId entity.
     case periodMonths of None \<Rightarrow> None | Some months \<Rightarrow> if \<not> within_year periodMonths then None else
       let fractions = fold (\<lambda>p m. AList.update (en_personId p) (person_fraction months p) m) (fi_persons actuals) [];
           pid = (case personId of Some p \<Rightarrow> Some p
             | None \<Rightarrow> (case map_option ee_links entity of Some [l] \<Rightarrow> Some (li_personId l) | _ \<Rightarrow> None));
           known = (case pid of None \<Rightarrow> False | Some p \<Rightarrow> p \<in> set (map fst fractions));
           pid' = (if known then pid else map_option en_personId (primary_person (fi_persons actuals))) in
       case pid' of None \<Rightarrow> None | Some p \<Rightarrow> (case map_of fractions p of None \<Rightarrow> None | Some q \<Rightarrow> q))"

definition annualizeYear :: "engine_year_inputs \<Rightarrow> money \<Rightarrow> engine_year_inputs" where
  "annualizeYear y f = (let i = ey_itemized y in y\<lparr>
     ey_itemized := \<lparr>it_saltPaid = it_saltPaid i * f, it_mortgageInterest = it_mortgageInterest i * f,
       it_charitableCash = it_charitableCash i * f, it_charitableNoncash = it_charitableNoncash i * f, it_other = it_other i * f\<rparr>,
     ey_unrecaptured1250Gain := ey_unrecaptured1250Gain y * f, ey_collectiblesGain := ey_collectiblesGain y * f\<rparr>)"

definition annualizeFederalInput :: "federal_input \<Rightarrow> money \<Rightarrow> int option \<Rightarrow> federal_input" where
  "annualizeFederalInput actuals f periodMonths = (let sehiFraction = sehiFractionResolver actuals periodMonths in actuals\<lparr>
     fi_persons := map (\<lambda>p. annualizePerson p f
       (if within_year periodMonths \<and> length (en_sehiEligibleMonths p) = 12 then sehiFraction (Some (en_personId p)) None else None)) (fi_persons actuals),
     fi_entities := map (\<lambda>e. annualizeEntity e f sehiFraction) (fi_entities actuals),
     fi_adjustments := map (\<lambda>a. annualizeAdjustment a f sehiFraction) (fi_adjustments actuals),
     fi_year := annualizeYear (fi_year actuals) f\<rparr>)"

subsection \<open>The callback\<close>

text \<open>What Schedule AI reads of a federal result; the dependent credits are those the result shows, in whole dollars.\<close>

record ai_figures =
  ar_persons :: "person_figures list"
  ar_warnings :: "warning list"
  ar_parametersUsed :: "param_use list"
  ar_dependentCredits :: "fixed_dependent_credits option"
  ar_standardDeduction :: "money option"
  ar_agi :: money
  ar_taxableIncome :: money
  ar_regularTax :: money
  ar_qbi :: money
  ar_seTax :: money
  ar_additionalMedicareTax :: money
  ar_niit :: money
  ar_nonrefundableCredits :: money
  ar_refundableCredits :: money
  ar_federalTotal :: money

type_synonym federal_calculator = "federal_input \<Rightarrow> ai_figures result"

definition figures_of :: "federal_result \<Rightarrow> ectx \<Rightarrow> ai_figures" where
  "figures_of r c = (let k = fr_credits r; d = cb_dependents k; t = fr_taxable r in
     \<lparr>ar_persons = ab_personFigures (fr_agiBlock r), ar_warnings = allWarnings c, ar_parametersUsed = cx_used c,
       ar_dependentCredits = (if dc_method d = CrNone then None
         else Some \<lparr>fd_care = rnd 0 (dc_careTentative d), fd_ctcOdc = rnd 0 (dc_ctcOdcAfterPhaseOut d), fd_actc = rnd 0 (dc_actc d)\<rparr>),
       ar_standardDeduction = (if tb_chosen t = ChooseStandard then Some (rnd 0 (tb_deduction t)) else None),
       ar_agi = ab_agi (fr_agiBlock r), ar_taxableIncome = tb_taxableIncome t, ar_regularTax = rg_tax (fr_regular r), ar_qbi = tb_qbi t,
       ar_seTax = fr_seTax r, ar_additionalMedicareTax = fr_additionalMedicareTax r, ar_niit = fr_niit r,
       ar_nonrefundableCredits = cb_nonrefundableAllowed k, ar_refundableCredits = cb_refundable k, ar_federalTotal = fr_federalTotal r\<rparr>)"

definition federal_calc :: federal_calculator where
  "federal_calc scenario = ebind (computeFederal scenario) (\<lambda>(r, c). Inr (figures_of r c))"

subsection \<open>Part II\<close>

record sch_ai_part_ii =
  pt_personId :: string
  pt_periodSeIncome :: money
  pt_periodNese :: money
  pt_proratedWageBase :: money
  pt_periodSocialSecurityWages :: money
  pt_periodSeTax :: money
  pt_annualizedSeTax :: money

definition partIi_person :: "money \<Rightarrow> money \<Rightarrow> money \<Rightarrow> money \<Rightarrow> money \<Rightarrow> person_figures \<Rightarrow> sch_ai_part_ii result" where
  "partIi_person factor neseFactor ssRate medicareRate prorated p =
    ebind (quo (pg_seIncome p) factor) (\<lambda>periodSeIncome.
    let periodNese = (if 0 < periodSeIncome then periodSeIncome * neseFactor else 0) in
    ebind (quo (pg_socialSecurityWages p) factor) (\<lambda>periodSsWages.
    let remainingBase = floor0 (prorated - periodSsWages);
        periodSeTax = ssRate * min periodNese remainingBase + medicareRate * periodNese in
    Inr \<lparr>pt_personId = pg_personId p, pt_periodSeIncome = periodSeIncome, pt_periodNese = periodNese, pt_proratedWageBase = prorated,
      pt_periodSocialSecurityWages = periodSsWages, pt_periodSeTax = periodSeTax, pt_annualizedSeTax = periodSeTax * factor\<rparr>))"

definition partIi :: "ai_figures \<Rightarrow> money \<Rightarrow> int \<Rightarrow> sch_ai_part_ii list est" where
  "partIi res factor months =
    cbind (on_base (p_rate ''se.nese_factor'')) (\<lambda>neseFactor.
    cbind (on_base (p_rate ''se.ss_rate'')) (\<lambda>ssRate.
    cbind (on_base (p_rate ''se.medicare_rate'')) (\<lambda>medicareRate.
    cbind (on_base (p_money ''se.ss_wage_base'')) (\<lambda>wageBase.
    clift (emap (partIi_person factor neseFactor ssRate medicareRate (rnd 12 (wageBase * of_int months / 12))) (ar_persons res))))))"

definition withFixedDependentCredits :: "federal_input \<Rightarrow> ai_figures \<Rightarrow> federal_input" where
  "withFixedDependentCredits scenario full = (case ar_dependentCredits full of None \<Rightarrow> scenario
     | Some d \<Rightarrow> scenario\<lparr>fi_year := (fi_year scenario)\<lparr>ey_fixedDependentCredits := Some d\<rparr>\<rparr>)"

subsection \<open>The columns\<close>

record ai_lines =
  al_line22 :: money
  al_line23 :: money
  al_line24 :: money
  al_line25 :: money
  al_line26 :: money
  al_line27 :: money

record sch_ai_period_exact =
  ax_agi :: money
  ax_taxableIncome :: money
  ax_incomeTax :: money
  ax_qbi :: money
  ax_engineSeTax :: money
  ax_partIiSeTax :: money
  ax_otherTaxes :: money
  ax_creditsFullYear :: money
  ax_totalTax :: money

record sch_ai_period =
  ap_period :: nat
  ap_periodEnd :: string
  ap_months :: "int option"
  ap_factor :: money
  ap_applicablePct :: money
  ap_available :: bool
  ap_isProjection :: bool
  ap_standardDeductionFullYear :: "money option"
  ap_requiredCumulative :: money
  ap_annualizedInstallment :: money
  ap_regularInstallment :: money
  ap_regularWithRecapture :: money
  ap_requiredInstallment :: money
  ap_usedAnnualized :: bool
  ap_partIi :: "sch_ai_part_ii list"
  ap_exact :: sch_ai_period_exact
  ap_lines :: ai_lines

record schedule_ai_input =
  as_base :: federal_input
  as_baseResult :: "ai_figures option"
  as_periodActuals :: "federal_input option list"
  as_requiredAnnualPayment :: money
  as_installmentPcts :: "money list"
  as_calc :: federal_calculator
  as_policy :: "sch_ai_policy option"

text \<open>The period parameters, read once.\<close>

record sch_ai_shape =
  sh_periodEnds :: "string list"
  sh_factors :: "money list"
  sh_pcts :: "money list"
  sh_months :: "int list option"

text \<open>Lines 23 of the next column, 26 and 27 of the previous one, and the columns so far.\<close>

record ai_state =
  at_cumulative :: money
  at_priorLine26 :: money
  at_priorLine27 :: money
  at_periods :: "sch_ai_period list"

definition no_exact :: sch_ai_period_exact where
  "no_exact = \<lparr>ax_agi = 0, ax_taxableIncome = 0, ax_incomeTax = 0, ax_qbi = 0, ax_engineSeTax = 0, ax_partIiSeTax = 0,
     ax_otherTaxes = 0, ax_creditsFullYear = 0, ax_totalTax = 0\<rparr>"

definition fullYear :: "schedule_ai_input \<Rightarrow> ai_figures result" where
  "fullYear input = (case as_baseResult input of Some r \<Rightarrow> Inr r | None \<Rightarrow> as_calc input (as_base input))"

definition column_actuals :: "schedule_ai_input \<Rightarrow> nat \<Rightarrow> nat \<Rightarrow> federal_input option" where
  "column_actuals input n i = (if i + 1 = n then Some (as_base input)
     else if i < length (as_periodActuals input) then as_periodActuals input ! i else None)"

definition column_figures :: "schedule_ai_input \<Rightarrow> nat \<Rightarrow> nat \<Rightarrow> money \<Rightarrow> int option \<Rightarrow> federal_input \<Rightarrow> ai_figures result" where
  "column_figures input n i factor months actuals =
    (if i + 1 = n then fullYear input
     else ebind (fullYear input) (\<lambda>full.
       as_calc input (withFixedDependentCredits (annualizeFederalInput actuals factor months) full)))"

definition set_period :: "nat \<Rightarrow> (string \<times> dval) list option \<Rightarrow> (string \<times> dval) list option" where
  "set_period i details = Some (AList.update ''period'' (DInt (int i + 1)) (case details of None \<Rightarrow> [] | Some d \<Rightarrow> d))"

text \<open>The warnings of an annualized column, tagged with the period, and the parameters it used.\<close>

definition forward_records :: "nat \<Rightarrow> ai_figures \<Rightarrow> unit est" where
  "forward_records i res =
    cbind (cdo (\<lambda>w. cwhen (w_code w \<noteq> ''TE_PARAM_UNVERIFIED'')
      (on_base (warn_sev (w_code w) (set_period i (w_details w)) (w_severity w)))) (ar_warnings res)) (\<lambda>_.
    on_base (noteUsed (ar_parametersUsed res)))"

definition ai_trace :: "nat \<Rightarrow> string \<Rightarrow> money \<Rightarrow> string list option \<Rightarrow> unit est" where
  "ai_trace i what x ks = est_add ((est_row_of ''schedule_ai'' ''federal'' (''federal.sch_ai.'' @ show_nat (i + 1) @ ''.'' @ what) x SrcParameter)
     \<lparr>er_parameterKeys := ks\<rparr>)"

definition ai_keys :: "sch_ai_policy \<Rightarrow> string list" where
  "ai_keys p = [sp_periodEndsKey p, sp_factorsKey p, sp_applicablePctsKey p] @
     (case given_text (sp_periodMonthsKey p) of None \<Rightarrow> [] | Some k \<Rightarrow> [k])"

definition PART_II_KEYS :: "string list" where
  "PART_II_KEYS = [''se.nese_factor'', ''se.ss_rate'', ''se.medicare_rate'', ''se.ss_wage_base'']"

definition missing_lines :: "ai_state \<Rightarrow> money \<Rightarrow> money \<Rightarrow> ai_lines" where
  "missing_lines st line25 line26 = \<lparr>al_line22 = 0, al_line23 = at_cumulative st, al_line24 = line26, al_line25 = line25,
     al_line26 = line26, al_line27 = line26\<rparr>"

definition annualized_lines :: "ai_state \<Rightarrow> money \<Rightarrow> money \<Rightarrow> money \<Rightarrow> ai_lines" where
  "annualized_lines st line22 line25 line26 = (let line24 = floor0 (line22 - at_cumulative st) in
     \<lparr>al_line22 = line22, al_line23 = at_cumulative st, al_line24 = line24, al_line25 = line25, al_line26 = line26, al_line27 = min line24 line26\<rparr>)"

definition ai_period_of :: "nat \<Rightarrow> string \<Rightarrow> int option \<Rightarrow> money \<Rightarrow> money \<Rightarrow> ai_lines \<Rightarrow> sch_ai_period" where
  "ai_period_of i periodEnd months factor pct l =
    \<lparr>ap_period = i + 1, ap_periodEnd = periodEnd, ap_months = months, ap_factor = factor, ap_applicablePct = pct, ap_available = False,
     ap_isProjection = False, ap_standardDeductionFullYear = None, ap_requiredCumulative = rnd 0 (al_line22 l),
     ap_annualizedInstallment = rnd 0 (al_line24 l), ap_regularInstallment = rnd 0 (al_line25 l),
     ap_regularWithRecapture = rnd 0 (al_line26 l), ap_requiredInstallment = rnd 0 (al_line27 l), ap_usedAnnualized = False,
     ap_partIi = [], ap_exact = no_exact, ap_lines = l\<rparr>"

definition next_state :: "ai_state \<Rightarrow> sch_ai_period \<Rightarrow> ai_state" where
  "next_state st p = \<lparr>at_cumulative = at_cumulative st + al_line27 (ap_lines p), at_priorLine26 = al_line26 (ap_lines p),
     at_priorLine27 = al_line27 (ap_lines p), at_periods = at_periods st @ [p]\<rparr>"

definition column_exact :: "ai_figures \<Rightarrow> money \<Rightarrow> sch_ai_period_exact" where
  "column_exact res partIiSeTax = \<lparr>ax_agi = ar_agi res, ax_taxableIncome = ar_taxableIncome res, ax_incomeTax = ar_regularTax res,
     ax_qbi = ar_qbi res, ax_engineSeTax = ar_seTax res, ax_partIiSeTax = partIiSeTax,
     ax_otherTaxes = ar_additionalMedicareTax res + ar_niit res, ax_creditsFullYear = ar_nonrefundableCredits res + ar_refundableCredits res,
     ax_totalTax = ar_federalTotal res - ar_seTax res + partIiSeTax\<rparr>"

text \<open>A column with figures: lines 15, 21, 22 and on.\<close>

definition available_column :: "schedule_ai_input \<Rightarrow> sch_ai_policy \<Rightarrow> nat \<Rightarrow> nat \<Rightarrow> string \<Rightarrow> int option \<Rightarrow> money \<Rightarrow> money \<Rightarrow>
    money \<Rightarrow> money \<Rightarrow> ai_state \<Rightarrow> federal_input \<Rightarrow> sch_ai_period est" where
  "available_column input policy n i periodEnd months factor pct line25 line26 st actuals =
    cbind (clift (column_figures input n i factor months actuals)) (\<lambda>res.
    cbind (cwhen (i + 1 \<noteq> n) (forward_records i res)) (\<lambda>_.
    cbind (case months of None \<Rightarrow> cret [] | Some m \<Rightarrow> partIi res factor m) (\<lambda>pii.
    let partIiSeTax = (if months = None then ar_seTax res else sum_list (map pt_annualizedSeTax pii)) in
    cbind (cwhen (months \<noteq> None \<and> rnd 0 partIiSeTax \<noteq> rnd 0 (ar_seTax res))
      (est_info ''TE_SCH_AI_SE_PART2_DIFFERS'' (Some [(''period'', DInt (int i + 1))]))) (\<lambda>_.
    let exact = column_exact res partIiSeTax; l = annualized_lines st (ax_totalTax exact * pct) line25 line26 in
    cbind (ai_trace i ''total_tax'' (ax_totalTax exact) (Some (ai_keys policy @ PART_II_KEYS))) (\<lambda>_.
    cbind (ai_trace i ''line22'' (al_line22 l) (Some [sp_applicablePctsKey policy])) (\<lambda>_.
    cbind (ai_trace i ''line27'' (al_line27 l) None) (\<lambda>_.
    cret ((ai_period_of i periodEnd months factor pct l)\<lparr>ap_available := True, ap_isProjection := (i + 1 = n),
      ap_standardDeductionFullYear := ar_standardDeduction res, ap_usedAnnualized := (al_line24 l < line26), ap_partIi := pii,
      ap_exact := exact\<rparr>))))))))"

definition ai_column :: "schedule_ai_input \<Rightarrow> sch_ai_policy \<Rightarrow> sch_ai_shape \<Rightarrow> nat \<Rightarrow> ai_state \<Rightarrow> ai_state est" where
  "ai_column input policy shape i st =
    (let n = length (sh_periodEnds shape); factor = sh_factors shape ! i; pct = sh_pcts shape ! i;
         months = map_option (\<lambda>ms. ms ! i) (sh_months shape) in
     cbind (cget (cx_year \<circ> es_base)) (\<lambda>taxYear.
     cbind (clift (monthDayInYear (sh_periodEnds shape ! i) taxYear)) (\<lambda>periodEnd.
     let line25 = as_requiredAnnualPayment input * (as_installmentPcts input ! i);
         line26 = (if i = 0 then line25 else line25 + (at_priorLine26 st - at_priorLine27 st)) in
     cbind (case column_actuals input n i of
         None \<Rightarrow> cbind (est_warn ''TE_SCH_AI_PERIOD_MISSING'' (Some [(''period'', DInt (int i + 1)), (''periodEnd'', DText periodEnd)])) (\<lambda>_.
           cret (ai_period_of i periodEnd months factor pct (missing_lines st line25 line26)))
       | Some actuals \<Rightarrow> available_column input policy n i periodEnd months factor pct line25 line26 st actuals) (\<lambda>p.
     cret (next_state st p)))))"

record schedule_ai_result =
  ai_periods :: "sch_ai_period list"
  ai_requiredInstallments :: "money list"
  ai_lowersAnyInstallment :: bool
  ai_resultKeys :: "string list"
  ai_exactInstallments :: "money list"

definition read_shape :: "sch_ai_policy \<Rightarrow> sch_ai_shape est" where
  "read_shape policy =
    cbind (on_base (p_monthDayList (sp_periodEndsKey policy))) (\<lambda>periodEnds.
    cbind (on_base (p_rateList (sp_factorsKey policy))) (\<lambda>factors.
    cbind (on_base (p_rateList (sp_applicablePctsKey policy))) (\<lambda>pcts.
    cbind (case given_text (sp_periodMonthsKey policy) of None \<Rightarrow> cret None
      | Some k \<Rightarrow> cbind (on_base (p_intList k)) (\<lambda>ms. cret (Some ms))) (\<lambda>months.
    cret \<lparr>sh_periodEnds = periodEnds, sh_factors = factors, sh_pcts = pcts, sh_months = months\<rparr>))))"

definition shape_ok :: "schedule_ai_input \<Rightarrow> sch_ai_shape \<Rightarrow> bool" where
  "shape_ok input shape = (let n = length (sh_periodEnds shape) in length (sh_factors shape) = n \<and> length (sh_pcts shape) = n \<and>
     (case sh_months shape of None \<Rightarrow> True | Some ms \<Rightarrow> length ms = n) \<and> length (as_installmentPcts input) = n)"

definition computeScheduleAi :: "schedule_ai_input \<Rightarrow> schedule_ai_result est" where
  "computeScheduleAi input =
    (let policy = (case as_policy input of None \<Rightarrow> INDIVIDUAL_SCH_AI_POLICY | Some p \<Rightarrow> p) in
     cbind (read_shape policy) (\<lambda>shape.
     if \<not> shape_ok input shape then cthrow (JsError ''TE_SCH_AI_SHAPE'' []) else
     cbind (cfold (ai_column input policy shape) [0..<length (sh_periodEnds shape)]
       \<lparr>at_cumulative = 0, at_priorLine26 = 0, at_priorLine27 = 0, at_periods = []\<rparr>) (\<lambda>st.
     cbind (cdo (\<lambda>k. est_info ''TE_SCH_AI_ASSUMPTION'' (Some [(''assumption'', DInt k)])) [1..4]) (\<lambda>_.
     let ps = at_periods st in
     cret \<lparr>ai_periods = ps, ai_requiredInstallments = map ap_requiredInstallment ps, ai_lowersAnyInstallment = list_ex ap_usedAnnualized ps,
       ai_resultKeys = ai_keys policy @ PART_II_KEYS, ai_exactInstallments = map (al_line27 \<circ> ap_lines) ps\<rparr>))))"

subsection \<open>Recapture\<close>

lemma cfold_upt:
  assumes "cfold f [0..<n] s c = Inr (s', c')" "I 0 s"
    and "\<And>i s c s' c'. i < n \<Longrightarrow> I i s \<Longrightarrow> f i s c = Inr (s', c') \<Longrightarrow> I (Suc i) s'"
  shows "I n s'"
proof -
  have append: "cfold f (xs @ ys) s = cbind (cfold f xs s) (cfold f ys)" for xs ys s
    by (induction xs arbitrary: s) (auto simp: cbind_apply fun_eq_iff ebind_def split: sum.split)
  have "m \<le> n \<Longrightarrow> cfold f [0..<m] s c = Inr (t, d) \<Longrightarrow> I m t" for m t d
  proof (induction m arbitrary: t d)
    case (Suc m)
    then obtain u e where "cfold f [0..<m] s c = Inr (u, e)" "f m u e = Inr (t, d)"
      by (auto simp: append)
    with Suc assms(3) show ?case by simp
  qed (simp add: assms(2))
  with assms(1) show ?thesis by simp
qed

definition line27_before :: "sch_ai_period list \<Rightarrow> nat \<Rightarrow> money" where
  "line27_before ps k = sum_list (map (al_line27 \<circ> ap_lines) (take k ps))"

lemma line27_before_Suc: "k < length ps \<Longrightarrow> line27_before ps (Suc k) = line27_before ps k + al_line27 (ap_lines (ps ! k))"
  by (simp add: line27_before_def take_Suc_conv_app_nth)

definition line25_through :: "sch_ai_period list \<Rightarrow> nat \<Rightarrow> money" where
  "line25_through ps k = sum_list (map (al_line25 \<circ> ap_lines) (take (Suc k) ps))"

definition column_ok :: "schedule_ai_input \<Rightarrow> sch_ai_period list \<Rightarrow> nat \<Rightarrow> bool" where
  "column_ok input ps k \<longleftrightarrow> (let p = ps ! k; l = ap_lines p in
     al_line25 l = as_requiredAnnualPayment input * as_installmentPcts input ! k \<and>
     al_line26 l = line25_through ps k - line27_before ps k \<and>
     al_line27 l = (if ap_available p then min (floor0 (al_line22 l - line27_before ps k)) (al_line26 l) else al_line26 l))"

definition ai_inv :: "schedule_ai_input \<Rightarrow> nat \<Rightarrow> ai_state \<Rightarrow> bool" where
  "ai_inv input i st \<longleftrightarrow> (let ps = at_periods st in length ps = i \<and> at_cumulative st = line27_before ps i \<and>
     (0 < i \<longrightarrow> at_priorLine26 st - at_priorLine27 st = line25_through ps (i - 1) - line27_before ps i) \<and>
     (\<forall>k < i. column_ok input ps k))"

lemma column_ok_append: "k < length ps \<Longrightarrow> column_ok input (ps @ qs) k \<longleftrightarrow> column_ok input ps k"
  by (simp add: column_ok_def line25_through_def line27_before_def nth_append Let_def)

text \<open>The lines of a column, whether or not it has figures.\<close>

lemma column_lines:
  assumes "(case column_actuals input n i of None \<Rightarrow> cbind (est_warn k d) (\<lambda>_. cret (ai_period_of i e months factor pct (missing_lines st l25 l26)))
      | Some actuals \<Rightarrow> available_column input policy n i e months factor pct l25 l26 st actuals) c = Inr (p, c')"
  shows "al_line25 (ap_lines p) = l25 \<and> al_line26 (ap_lines p) = l26 \<and>
    al_line27 (ap_lines p) = (if ap_available p then min (floor0 (al_line22 (ap_lines p) - at_cumulative st)) l26 else l26)"
  using assms unfolding available_column_def
  by (cases "column_actuals input n i")
    (auto simp: cbind_apply ebind_Inr_iff Let_def ai_period_of_def missing_lines_def annualized_lines_def simp del: if_split)

lemma ai_column_inv:
  assumes "ai_inv input i st" "ai_column input policy shape i st c = Inr (st', c')"
  shows "ai_inv input (Suc i) st'"
proof -
  define l25 where "l25 = as_requiredAnnualPayment input * (as_installmentPcts input ! i)"
  define l26 where "l26 = (if i = 0 then l25 else l25 + (at_priorLine26 st - at_priorLine27 st))"
  from assms(2) obtain p where st': "st' = next_state st p" and p: "al_line25 (ap_lines p) = l25" "al_line26 (ap_lines p) = l26"
      "al_line27 (ap_lines p) = (if ap_available p then min (floor0 (al_line22 (ap_lines p) - at_cumulative st)) l26 else l26)"
    unfolding ai_column_def Let_def l25_def [symmetric] l26_def [symmetric]
    by (auto simp: cbind_apply [of "cget g" for g] cbind_apply [of "clift g" for g] ebind_Inr_iff dest!: column_lines)
  let ?ps = "at_periods st"
  from assms(1) have inv: "length ?ps = i" "at_cumulative st = line27_before ?ps i" "\<forall>k < i. column_ok input ?ps k"
      "0 < i \<longrightarrow> at_priorLine26 st - at_priorLine27 st = line25_through ?ps (i - 1) - line27_before ?ps i"
    by (simp_all add: ai_inv_def Let_def)
  have sums: "line27_before (?ps @ [p]) i = line27_before ?ps i" "line27_before (?ps @ [p]) (Suc i) = line27_before ?ps i + al_line27 (ap_lines p)"
    "line25_through (?ps @ [p]) i = sum_list (map (al_line25 \<circ> ap_lines) ?ps) + l25"
    using inv(1) p(1) by (simp_all add: line27_before_def line25_through_def)
  have l26: "l26 = line25_through (?ps @ [p]) i - line27_before ?ps i"
    using inv unfolding sums l26_def by (cases i) (simp_all add: line25_through_def line27_before_def)
  have "column_ok input (?ps @ [p]) i"
    using p l26 inv(1,2) by (simp add: column_ok_def sums nth_append Let_def l25_def)
  moreover have "\<forall>k < i. column_ok input (?ps @ [p]) k" using inv by (simp add: column_ok_append)
  moreover have "at_priorLine26 st' - at_priorLine27 st' = line25_through (?ps @ [p]) i - line27_before (?ps @ [p]) (Suc i)"
    using p l26 by (simp add: st' next_state_def sums(1,2))
  ultimately show ?thesis
    using inv(1,2) p(3) sums(2) by (simp add: ai_inv_def st' next_state_def Let_def All_less_Suc)
qed


text \<open>C40: When the Schedule AI computation returns, it has one column per installment percentage.  In every column, line 25
  is the required annual payment times the percentage; line 26 is everything line 25 has asked for so far less what line 27
  of the earlier columns asked, so what an annualized column skipped is recaptured; line 27 is line 26 where the period has no
  figures, and otherwise the lesser of line 26 and line 22 less the earlier line 27s.  So through no column do the installments
  exceed the regular ones, and the exact installments are the line 27s.\<close>

theorem sch_ai_recapture:
  assumes "computeScheduleAi input c = Inr (r, c')"
  shows "let ps = ai_periods r; n = length (as_installmentPcts input); line = (\<lambda>f k. f (ap_lines (ps ! k))) in
    length ps = n \<and> ai_exactInstallments r = map (al_line27 \<circ> ap_lines) ps \<and> (\<forall>k < n.
      line al_line25 k = as_requiredAnnualPayment input * as_installmentPcts input ! k \<and>
      line al_line26 k = line25_through ps k - line27_before ps k \<and>
      line al_line27 k = (if ap_available (ps ! k) then min (floor0 (line al_line22 k - line27_before ps k)) (line al_line26 k) else line al_line26 k) \<and>
      line27_before ps (Suc k) \<le> line25_through ps k)"
proof -
  from assms obtain shape st d e where shape: "shape_ok input shape"
    and fold: "cfold (ai_column input (case as_policy input of None \<Rightarrow> INDIVIDUAL_SCH_AI_POLICY | Some p \<Rightarrow> p) shape)
      [0..<length (sh_periodEnds shape)] \<lparr>at_cumulative = 0, at_priorLine26 = 0, at_priorLine27 = 0, at_periods = []\<rparr> d = Inr (st, e)"
    and r: "ai_periods r = at_periods st" "ai_exactInstallments r = map (al_line27 \<circ> ap_lines) (at_periods st)"
    unfolding computeScheduleAi_def by (auto simp: cbind_apply ebind_Inr_iff Let_def cong: if_cong split: if_splits)
  have "ai_inv input (length (sh_periodEnds shape)) st"
    by (rule cfold_upt [OF fold, where I = "ai_inv input"])
      (simp add: ai_inv_def line27_before_def, rule ai_column_inv)
  with shape have inv: "ai_inv input (length (as_installmentPcts input)) st" by (simp add: shape_ok_def Let_def)
  have le: "line27_before (ai_periods r) (Suc k) \<le> line25_through (ai_periods r) k" if "k < length (as_installmentPcts input)" for k
    using inv that by (simp add: ai_inv_def Let_def r column_ok_def line27_before_Suc min_def split: if_splits)
  from inv le show ?thesis by (auto simp: ai_inv_def Let_def r column_ok_def)
qed

definition sample_ai_params :: "(string \<times> resolved) list" where
  "sample_ai_params = map (\<lambda>(k, v). (k, \<lparr>rp_value = v, rp_status = Verified\<rparr>))
     [(''ccorp.sch_ai.period_ends'', JArr (map JStr [''06-30'', ''12-31''])),
      (''ccorp.sch_ai.annualization_factors'', JArr (map JNum [2, 1])),
      (''ccorp.sch_ai.applicable_pcts'', JArr (map JNum [9 / 20, 9 / 10]))]"

definition sample_calc :: federal_calculator where
  "sample_calc scenario = Inr \<lparr>ar_persons = [], ar_warnings = [], ar_parametersUsed = [], ar_dependentCredits = None,
     ar_standardDeduction = None, ar_agi = 0, ar_taxableIncome = 0, ar_regularTax = 0, ar_qbi = 0, ar_seTax = 0,
     ar_additionalMedicareTax = 0, ar_niit = 0, ar_nonrefundableCredits = 0, ar_refundableCredits = 0,
     ar_federalTotal = sum_list (map en_w2Wages (fi_persons scenario)) / 5\<rparr>"

definition sample_schedule_ai :: schedule_ai_input where
  "sample_schedule_ai = \<lparr>as_base = sample_return, as_baseResult = None,
     as_periodActuals = [None, None], as_requiredAnnualPayment = 8000,
     as_installmentPcts = [1 / 2, 1 / 2], as_calc = sample_calc, as_policy = Some CCORP_SCH_AI_POLICY\<rparr>"

text \<open>Without period months a column reads no parameter, so it returns when its figures do.\<close>

lemma ai_column_returns:
  assumes "sh_months shape = None" "monthDayInYear (sh_periodEnds shape ! i) (cx_year (es_base c)) = Inr d"
    and "\<And>a. column_actuals input (length (sh_periodEnds shape)) i = Some a \<Longrightarrow> i + 1 = length (sh_periodEnds shape) \<and> fullYear input = Inr r"
  shows "\<exists>st' c'. ai_column input policy shape i st c = Inr (st', c') \<and> cx_year (es_base c') = cx_year (es_base c)"
  using assms by (cases "column_actuals input (length (sh_periodEnds shape)) i")
    (auto simp: ai_column_def available_column_def column_figures_def cbind_apply Let_def est_warn_def warn_def on_base_def warn_sev_def
      cwhen_def ai_trace_def est_add_def)

lemma sample_ai_shape: "\<exists>c. read_shape CCORP_SCH_AI_POLICY (new_est sample_ai_params 2026 Mfj) =
    Inr (\<lparr>sh_periodEnds = [''06-30'', ''12-31''], sh_factors = [2, 1], sh_pcts = [9 / 20, 9 / 10], sh_months = None\<rparr>, c) \<and>
    cx_year (es_base c) = 2026"
  by (simp add: exec_simps sample_ai_params_def new_est_def on_base_def read_shape_def CCORP_SCH_AI_POLICY_def given_text_def Let_def
    is_month_day_text_def month_day_re_def is_digit_def text_of_def cong: let_weak_cong)

lemma sch_ai_recapture_witness:
  "\<exists>r c'. computeScheduleAi sample_schedule_ai (new_est sample_ai_params 2026 Mfj) = Inr (r, c') \<and> length (ai_periods r) = 2 \<and>
     line27_before (ai_periods r) 2 \<le> line25_through (ai_periods r) 1 \<and> al_line25 (ap_lines (ai_periods r ! 1)) = 4000"
proof -
  let ?c = "new_est sample_ai_params 2026 Mfj" and ?in = sample_schedule_ai and ?p = CCORP_SCH_AI_POLICY
  let ?s = "\<lparr>sh_periodEnds = [''06-30'', ''12-31''], sh_factors = [2, 1], sh_pcts = [9 / 20, 9 / 10], sh_months = None\<rparr>"
  have ends: "monthDayInYear ''06-30'' 2026 = Inr ''2026-06-30''" "monthDayInYear ''12-31'' 2026 = Inr ''2026-12-31''" by code_simp+
  have base: "column_actuals ?in 2 0 = None" "column_actuals ?in 2 1 = Some sample_return" "fullYear ?in = sample_calc sample_return"
    by (simp_all add: column_actuals_def sample_schedule_ai_def fullYear_def)
  obtain r0 where r0: "sample_calc sample_return = Inr r0" by (simp add: sample_calc_def)
  obtain c0 where c0: "read_shape ?p ?c = Inr (?s, c0)" "cx_year (es_base c0) = 2026" using sample_ai_shape by blast
  obtain s1 c1 where c1: "ai_column ?in ?p ?s 0 \<lparr>at_cumulative = 0, at_priorLine26 = 0, at_priorLine27 = 0, at_periods = []\<rparr> c0 = Inr (s1, c1)"
      "cx_year (es_base c1) = 2026"
  proof -
    have "monthDayInYear (sh_periodEnds ?s ! 0) (cx_year (es_base c0)) = Inr ''2026-06-30''" by (simp add: c0(2) ends(1))
    from ai_column_returns [OF _ this, of ?in r0 ?p] base(1) c0(2) that show thesis by (auto simp: numeral_2_eq_2)
  qed
  obtain s2 c2 where c2: "ai_column ?in ?p ?s 1 s1 c1 = Inr (s2, c2)"
  proof -
    have "monthDayInYear (sh_periodEnds ?s ! 1) (cx_year (es_base c1)) = Inr ''2026-12-31''" by (simp add: c1(2) ends(2))
    from ai_column_returns [OF _ this, of ?in r0 ?p] base(2,3) r0 that show thesis by (auto simp: numeral_2_eq_2)
  qed
  obtain c3 where c3: "cdo (\<lambda>k. est_info ''TE_SCH_AI_ASSUMPTION'' (Some [(''assumption'', DInt k)])) [1..4] c2 = Inr ((), c3)"
    by (auto simp: cdo_def est_info_def on_base_def info_def warn_sev_def cbind_apply upto.simps)
  have "\<exists>r. computeScheduleAi ?in ?c = Inr (r, c3)"
    using c0(1) c1(1) c2 c3 by (simp add: computeScheduleAi_def cbind_apply Let_def sample_schedule_ai_def shape_ok_def upt_rec)
  then obtain r where r: "computeScheduleAi ?in ?c = Inr (r, c3)" by blast
  have n: "length (as_installmentPcts ?in) = 2" "as_requiredAnnualPayment ?in * as_installmentPcts ?in ! 1 = 4000"
    by (simp_all add: sample_schedule_ai_def)
  have k: "(1::nat) < 2" "Suc 1 = 2" by simp_all
  from sch_ai_recapture [OF r] have "length (ai_periods r) = 2" "line27_before (ai_periods r) 2 \<le> line25_through (ai_periods r) 1"
      "al_line25 (ap_lines (ai_periods r ! 1)) = 4000"
    unfolding n(1) Let_def using k n(2) by (metis (no_types, lifting))+
  with r show ?thesis by blast
qed

end
