(* ===== verification/Books.thy ===== *)
theory Books
  imports EngineBase "HOL-Library.AList"
begin

section \<open>The books: tables of the general ledger (packages/api/src/db/schema)\<close>

text \<open>
  The rows the ledger services read and write, with the columns they use.  An id (a uuid the database
  generates) is a natural number taken from a counter; an amount is the number its decimal string denotes;
  a column of scale 4 stores it rounded half away from zero (\<open>round4\<close>, as PostgreSQL rounds numeric(19,4)).
  A handler is a computation on the books; a database transaction that throws is rolled back, so an error
  carries no books.
\<close>

type_synonym id = nat

datatype txn_status = Draft | Posted | Void | Deleted

record account_row =
  ac_id :: id
  ac_tenant :: id
  ac_company :: "id option"
  ac_type :: string
  ac_detailType :: "string option"
  ac_systemTag :: "string option"
  ac_balance :: money

record company_row =
  co_id :: id
  co_tenant :: id
  co_lockDate :: "string option"
  co_closingPasswordHash :: "string option"

record contact_row =
  ct_id :: id
  ct_tenant :: id
  ct_company :: "id option"
  ct_contactType :: string
  ct_defaultTagId :: "id option"

record txn_row =
  tx_id :: id
  tx_tenant :: id
  tx_company :: "id option"
  tx_txnType :: string
  tx_txnNumber :: "string option"
  tx_txnDate :: string
  tx_status :: txn_status
  tx_basis :: string
  tx_contact :: "id option"
  tx_memo :: "string option"
  tx_isAdjusting :: bool
  tx_reversesTransactionId :: "id option"
  tx_voidReason :: "string option"
  tx_voidedAt :: "nat option"
  tx_createdAt :: nat
  tx_updatedAt :: nat

record line_row =
  jl_id :: id
  jl_tenant :: id
  jl_company :: "id option"
  jl_txn :: id
  jl_account :: id
  jl_debit :: money
  jl_credit :: money
  jl_description :: "string option"
  jl_tag :: "id option"
  jl_contact :: "id option"
  jl_lineOrder :: nat
  jl_isVoidReversal :: bool

record audit_row =
  au_tenant :: id
  au_action :: string
  au_entity :: string
  au_entityId :: id
  au_user :: "id option"

text \<open>
  \<open>bk_cleared\<close>: the lines cleared in a completed reconciliation; \<open>bk_depositLines\<close>: deposit, source
  and amount of each deposit line; \<open>bk_taxPayments\<close>: transaction, kind and amount of each sales tax payment line; \<open>bk_links\<close>: other records that point at a transaction, by kind; \<open>bk_now\<close>: the clock.
\<close>

record books =
  bk_accounts :: "account_row list"
  bk_companies :: "company_row list"
  bk_contacts :: "contact_row list"
  bk_txns :: "txn_row list"
  bk_lines :: "line_row list"
  bk_txnTags :: "(id \<times> id) list"
  bk_cleared :: "id list"
  bk_depositLines :: "(id \<times> id \<times> money) list"
  bk_taxPayments :: "(id \<times> string \<times> money) list"
  bk_links :: "(string \<times> id) list"
  bk_audit :: "audit_row list"
  bk_nextId :: id
  bk_now :: nat

type_synonym 'a handler = "(books, 'a) comp"

subsection \<open>Queries\<close>

definition txn_of :: "books \<Rightarrow> id \<Rightarrow> id \<Rightarrow> txn_row option" where
  "txn_of b tenant i = find (\<lambda>t. tx_tenant t = tenant \<and> tx_id t = i) (bk_txns b)"

definition lines_of :: "books \<Rightarrow> id \<Rightarrow> id \<Rightarrow> line_row list" where
  "lines_of b tenant i = filter (\<lambda>l. jl_tenant l = tenant \<and> jl_txn l = i) (bk_lines b)"

definition debits :: "line_row list \<Rightarrow> money" where
  "debits ls = sum_list (map jl_debit ls)"

definition credits :: "line_row list \<Rightarrow> money" where
  "credits ls = sum_list (map jl_credit ls)"

subsection \<open>Writes\<close>

definition round4 :: "money \<Rightarrow> money" where
  "round4 x = rnd 4 x"

definition insert_txn :: "txn_row \<Rightarrow> books \<Rightarrow> books" where
  "insert_txn t b = b\<lparr>bk_txns := bk_txns b @ [t], bk_nextId := Suc (bk_nextId b)\<rparr>"

definition insert_lines :: "line_row list \<Rightarrow> books \<Rightarrow> books" where
  "insert_lines ls b = b\<lparr>bk_lines := bk_lines b @ map (\<lambda>(k, l). l\<lparr>jl_id := bk_nextId b + k\<rparr>) (enumerate 0 ls),
     bk_nextId := bk_nextId b + length ls\<rparr>"

definition update_txn :: "id \<Rightarrow> id \<Rightarrow> (txn_row \<Rightarrow> txn_row) \<Rightarrow> books \<Rightarrow> books" where
  "update_txn tenant i f b = b\<lparr>bk_txns := map (\<lambda>t. if tx_tenant t = tenant \<and> tx_id t = i then f t else t) (bk_txns b)\<rparr>"

definition auditLog :: "id \<Rightarrow> string \<Rightarrow> string \<Rightarrow> id \<Rightarrow> id option \<Rightarrow> unit handler" where
  "auditLog tenant action entity i user = cmod (\<lambda>b. b\<lparr>bk_audit := bk_audit b @
     [\<lparr>au_tenant = tenant, au_action = action, au_entity = entity, au_entityId = i, au_user = user\<rparr>]\<rparr>)"

subsection \<open>Account balances\<close>

text \<open>A posting line: account, debit and credit.\<close>

type_synonym posting = "id \<times> money \<times> money"

definition deltas_of :: "posting list \<Rightarrow> (id \<times> money) list" where
  "deltas_of ps = fold (\<lambda>(a, d, c) m. AList.update a ((case map_of m a of None \<Rightarrow> 0 | Some x \<Rightarrow> x) + (d - c)) m) ps []"

definition add_to_balance :: "id \<Rightarrow> id \<Rightarrow> money \<Rightarrow> books \<Rightarrow> books" where
  "add_to_balance tenant a delta b = b\<lparr>bk_accounts := map (\<lambda>r. if ac_tenant r = tenant \<and> ac_id r = a
     then r\<lparr>ac_balance := ac_balance r + round4 delta\<rparr> else r) (bk_accounts b)\<rparr>"

definition updateAccountBalances :: "id \<Rightarrow> posting list \<Rightarrow> books \<Rightarrow> books" where
  "updateAccountBalances tenant ps b = (let m = deltas_of ps in
     fold (\<lambda>a b. case map_of m a of None \<Rightarrow> b | Some delta \<Rightarrow> if delta = 0 then b else add_to_balance tenant a delta b)
       (sort (map fst m)) b)"

definition swapped :: "line_row list \<Rightarrow> posting list" where
  "swapped ls = map (\<lambda>l. (jl_account l, jl_credit l, jl_debit l)) ls"

definition net_of :: "posting list \<Rightarrow> id \<Rightarrow> money" where
  "net_of ps a = sum_list (map (\<lambda>(x, d, c). if x = a then d - c else 0) ps)"

subsubsection \<open>What the balance update does\<close>

lemma net_of_simps [simp]: "net_of [] a = 0" "net_of ((x, d, c) # ps) a = (if x = a then d - c else 0) + net_of ps a"
  by (simp_all add: net_of_def)

lemma map_of_deltas:
  "map_of (deltas_of ps) a = (if a \<in> fst ` set ps then Some (net_of ps a) else None)"
proof -
  have "map_of (fold (\<lambda>(a, d, c) m. AList.update a ((case map_of m a of None \<Rightarrow> 0 | Some x \<Rightarrow> x) + (d - c)) m) ps m) a =
      (case map_of m a of None \<Rightarrow> if a \<in> fst ` set ps then Some (net_of ps a) else None
       | Some x \<Rightarrow> Some (x + net_of ps a))" for m
  proof (induction ps arbitrary: m)
    case (Cons p ps)
    obtain x d c where p: "p = (x, d, c)" by (cases p)
    from Cons.IH [of "AList.update x ((case map_of m x of None \<Rightarrow> 0 | Some x \<Rightarrow> x) + (d - c)) m"] show ?case
      by (cases "x = a"; cases "map_of m a") (auto simp: p update_conv' image_iff split: option.splits)
  qed (simp split: option.split)
  from this [of "[]"] show ?thesis by (simp add: deltas_of_def)
qed

lemma distinct_deltas: "distinct (map fst (deltas_of ps))"
proof -
  have "distinct (map fst m) \<Longrightarrow> distinct (map fst (fold (\<lambda>(a, d, c) m. AList.update a
      ((case map_of m a of None \<Rightarrow> 0 | Some x \<Rightarrow> x) + (d - c)) m) ps m))" for m
    by (induction ps arbitrary: m) (auto simp: distinct_update)
  then show ?thesis by (simp add: deltas_of_def)
qed

lemma keys_deltas: "set (map fst (deltas_of ps)) = fst ` set ps"
  using map_of_deltas [of ps] by (auto simp: dom_map_of_conv_image_fst [symmetric] dom_def split: if_splits)

definition shift_balances :: "id \<Rightarrow> (id \<Rightarrow> money) \<Rightarrow> account_row list \<Rightarrow> account_row list" where
  "shift_balances tenant f rs = map (\<lambda>r. if ac_tenant r = tenant then r\<lparr>ac_balance := ac_balance r + f (ac_id r)\<rparr> else r) rs"

lemma fold_add_to_balance:
  assumes "distinct ks"
  shows "fold (\<lambda>a b. case map_of m a of None \<Rightarrow> b | Some delta \<Rightarrow> if delta = 0 then b else add_to_balance tenant a delta b) ks b =
    b\<lparr>bk_accounts := shift_balances tenant (\<lambda>a. if a \<in> set ks then (case map_of m a of None \<Rightarrow> 0 | Some d \<Rightarrow> round4 d) else 0) (bk_accounts b)\<rparr>"
  using assms
proof (induction ks arbitrary: b)
  case Nil
  then show ?case by (simp add: shift_balances_def map_idI cong: map_cong)
next
  case (Cons k ks)
  then show ?case
    by (auto simp: shift_balances_def add_to_balance_def round4_def split: option.split intro!: arg_cong [of _ _ "\<lambda>x. b\<lparr>bk_accounts := x\<rparr>"])
qed

text \<open>Each account of the tenant moves by its net amount, rounded once; the order does not matter.\<close>

lemma updateAccountBalances_eq:
  "updateAccountBalances tenant ps b = b\<lparr>bk_accounts := shift_balances tenant (\<lambda>a. round4 (net_of ps a)) (bk_accounts b)\<rparr>"
proof -
  have "(if a \<in> set (sort (map fst (deltas_of ps))) then (case map_of (deltas_of ps) a of None \<Rightarrow> 0 | Some d \<Rightarrow> round4 d) else 0) =
      round4 (net_of ps a)" for a
  proof (cases "a \<in> fst ` set ps")
    case False
    then have "net_of ps a = 0" by (induction ps) auto
    with False show ?thesis using keys_deltas [of ps] by (simp add: round4_def)
  qed (use keys_deltas [of ps] in \<open>simp add: map_of_deltas\<close>)
  then show ?thesis
    by (simp add: updateAccountBalances_def Let_def fold_add_to_balance distinct_deltas)
qed

end
