(* ===== verification/JsNumber.thy ===== *)
theory JsNumber
  imports Prelude "HOL-Library.Log_Nat"
begin

section \<open>JavaScript numbers\<close>

text \<open>
  \<open>Number(text)\<close> of the text of a rational is the nearest IEEE double, ties to the even mantissa:
  \<open>double_of\<close>.  \<open>None\<close> is an infinity, for a value that rounds to \<open>2 ^ 1024\<close> or more.  The lemmas bound the
  relative error by \<open>2 ^ - 53\<close> outside the subnormal range.
\<close>

definition round_even :: "rat \<Rightarrow> int" where
  "round_even x = (let f = \<lfloor>x\<rfloor>; r = x - of_int f in if r < 1 / 2 \<or> r = 1 / 2 \<and> even f then f else f + 1)"

definition ilog2 :: "rat \<Rightarrow> int" where
  "ilog2 x = (let (p, q) = quotient_of x; e = int (floorlog 2 (nat p)) - int (floorlog 2 (nat q)) in
     if x < power_int 2 e then e - 1 else e)"

definition ulp :: "rat \<Rightarrow> rat" where
  "ulp x = power_int 2 (max (ilog2 \<bar>x\<bar>) (- 1022) - 52)"

definition double_of :: "rat \<Rightarrow> rat option" where
  "double_of x = (if x = 0 then Some 0 else
     let v = of_int (round_even (\<bar>x\<bar> / ulp x)) * ulp x in if 2 ^ 1024 \<le> v then None else Some (sgn x * v))"

lemma double_of_0 [simp]: "double_of 0 = Some 0"
  by (simp add: double_of_def)

lemma round_even_error: "\<bar>of_int (round_even x) - x\<bar> \<le> 1 / 2"
proof -
  have "of_int \<lfloor>x\<rfloor> \<le> x" "x < of_int \<lfloor>x\<rfloor> + 1" by linarith+
  then show ?thesis by (simp add: round_even_def Let_def)
qed

lemma floorlog_rat:
  assumes "0 < n"
  shows "power_int 2 (int (floorlog 2 n) - 1) \<le> (of_nat n :: rat)" "(of_nat n :: rat) < power_int 2 (int (floorlog 2 n))"
proof -
  let ?e = "floorlog 2 n"
  have e: "1 \<le> ?e" "2 ^ (?e - 1) \<le> n" "n < 2 ^ ?e"
    using assms floorlog_bounds [of n 2] floorlog_eq_zero_iff [of 2 n] by (auto simp: Suc_le_eq)
  then have "(2 :: rat) ^ (?e - 1) \<le> of_nat n" "of_nat n < (2 :: rat) ^ ?e"
    by (metis of_nat_le_iff of_nat_numeral of_nat_power, metis of_nat_less_iff of_nat_numeral of_nat_power)
  moreover have "int ?e - 1 = int (?e - 1)" using e(1) by simp
  ultimately show "power_int 2 (int ?e - 1) \<le> (of_nat n :: rat)" "(of_nat n :: rat) < power_int 2 (int ?e)"
    by (simp_all only: power_int_of_nat)
qed

lemma ilog2_bounds:
  assumes "0 < x"
  shows "power_int 2 (ilog2 x) \<le> x" "x < power_int 2 (ilog2 x + 1)"
proof -
  obtain p q where pq: "quotient_of x = (p, q)" by (cases "quotient_of x")
  have q: "0 < q" and x: "x = of_int p / of_int q" using quotient_of_denom_pos [OF pq] quotient_of_div [OF pq] by simp_all
  with assms have p: "0 < p" by (simp add: zero_less_divide_iff)
  define a b where "a = int (floorlog 2 (nat p))" and "b = int (floorlog 2 (nat q))"
  have P: "power_int 2 (a - 1) \<le> (of_int p :: rat)" "(of_int p :: rat) < power_int 2 a"
    and Q: "power_int 2 (b - 1) \<le> (of_int q :: rat)" "(of_int q :: rat) < power_int 2 b"
    using floorlog_rat [of "nat p"] floorlog_rat [of "nat q"] p q by (simp_all add: a_def b_def of_nat_nat)
  have "power_int 2 (a - 1) / power_int 2 b \<le> x"
    unfolding x using P Q q p by (intro frac_le) simp_all
  then have lower: "power_int 2 (a - b - 1) \<le> x" by (simp add: power_int_diff mult.commute)
  have "x < power_int 2 a / power_int 2 (b - 1)"
    unfolding x using P Q q p by (intro frac_less) simp_all
  then have upper: "x < power_int 2 (a - b + 1)" by (simp add: power_int_diff power_int_add field_simps)
  have e: "ilog2 x = (if x < power_int 2 (a - b) then a - b - 1 else a - b)"
    by (simp add: ilog2_def pq a_def b_def Let_def)
  show "power_int 2 (ilog2 x) \<le> x" "x < power_int 2 (ilog2 x + 1)" using lower upper by (auto simp: e)
qed

lemma ulp_pos: "0 < ulp x"
  by (simp add: ulp_def)

lemma double_of_ulp:
  assumes "double_of x = Some v"
  shows "\<bar>v - x\<bar> \<le> ulp x / 2"
proof (cases "x = 0")
  case False
  let ?w = "of_int (round_even (\<bar>x\<bar> / ulp x)) :: rat"
  from assms False have v: "v = sgn x * (?w * ulp x)" by (auto simp: double_of_def Let_def split: if_splits)
  have "\<bar>v - x\<bar> = \<bar>?w * ulp x - \<bar>x\<bar>\<bar>"
    using False by (cases "0 < x") (auto simp: v sgn_if)
  also have "\<dots> = \<bar>?w - \<bar>x\<bar> / ulp x\<bar> * ulp x" 
  proof -
    have "?w * ulp x - \<bar>x\<bar> = (?w - \<bar>x\<bar> / ulp x) * ulp x" using ulp_pos [of x] by (simp add: left_diff_distrib)
    then show ?thesis using ulp_pos [of x] by (simp only: abs_mult abs_of_pos)
  qed
  also have "\<dots> \<le> 1 / 2 * ulp x" using round_even_error ulp_pos [of x] by (intro mult_right_mono) auto
  finally show ?thesis by simp
qed (use assms ulp_pos [of x] in auto)

lemma double_of_error:
  assumes "double_of x = Some v" "power_int 2 (- 1022) \<le> \<bar>x\<bar>"
  shows "\<bar>v - x\<bar> \<le> \<bar>x\<bar> / 2 ^ 53"
proof -
  have x: "0 < \<bar>x\<bar>" using assms(2) by (cases "x = 0") auto
  have "- 1022 \<le> ilog2 \<bar>x\<bar>"
  proof (rule ccontr)
    assume "\<not> - 1022 \<le> ilog2 \<bar>x\<bar>"
    then have "power_int 2 (ilog2 \<bar>x\<bar> + 1) \<le> (power_int 2 (- 1022) :: rat)" by (intro power_int_increasing) simp_all
    with ilog2_bounds(2) [OF x] assms(2) show False by simp
  qed
  then have "ulp x = power_int 2 (ilog2 \<bar>x\<bar>) / 2 ^ 52"
    by (simp add: ulp_def power_int_diff)
  also have "\<dots> \<le> \<bar>x\<bar> / 2 ^ 52" using ilog2_bounds(1) [OF x] by (simp add: divide_right_mono)
  finally show ?thesis using double_of_ulp [OF assms(1)] by simp
qed

end
