(* ===== verification/Ledger.thy ===== *)
theory Ledger
  imports Books SafeHarbor JsNumber "HOL-Library.Product_Lexorder" "HOL-Library.Multiset"
begin

section \<open>Posting, voiding and deleting (packages/api/src/services/ledger.service.ts)\<close>

text \<open>
  The handlers for general entries: documents of type journal_entry or aje, whose lines name no item and bill
  no cost.  What the handlers do only for other documents (inventory costing, sales tax rows, applications of
  payments and credits, deposits' own links, billable lines) does nothing for these and is left out, as is the
  idempotency key of a request.  The guards that other records raise against a general entry (completed
  reconciliations, bank deposits, links) are kept.  A request carries its user, its lock context and the flag
  TAGS_SPLIT_LEVEL_V2; \<open>lk_matches\<close> stands for bcrypt's comparison of a password with a hash.  An error rolls the database
  transaction back; the audit row of a wrong closing password, written on a connection of its own, is left out.
\<close>

record line_input =
  li_account :: id
  li_debit :: money
  li_credit :: money
  li_description :: "string option"
  li_tag :: "id option option"
  li_bankRuleTag :: "id option"
  li_aiSuggestedTag :: "id option"
  li_contact :: "id option"

record txn_input =
  ti_txnType :: string
  ti_txnDate :: string
  ti_txnNumber :: "string option option"
  ti_status :: "txn_status option"
  ti_basis :: "string option"
  ti_contact :: "id option"
  ti_memo :: "string option"
  ti_isAdjusting :: "bool option"
  ti_reversesTransactionId :: "id option"
  ti_lines :: "line_input list"

record lock_ctx =
  lk_userType :: "string option"
  lk_overrideConfirmed :: bool
  lk_closingPassword :: "string option"
  lk_matches :: "string \<Rightarrow> string \<Rightarrow> bool"

record request =
  rq_user :: "id option"
  rq_lock :: "lock_ctx option"
  rq_tagsSplit :: bool

definition bad_request :: "string \<Rightarrow> err" where
  "bad_request m = JsError m []"

definition NOT_FOUND :: err where
  "NOT_FOUND = JsError ''NOT_FOUND'' []"

subsection \<open>Debits equal credits\<close>

definition assertBalanced :: "line_input list \<Rightarrow> (money \<times> money) result" where
  "assertBalanced ls = (let (d, c) = fold (\<lambda>l (d, c). (d + round4 (li_debit l), c + round4 (li_credit l))) ls (0, 0) in
     if d \<noteq> c then Inl (bad_request ''Transaction does not balance'') else Inr (d, c))"

subsection \<open>The closed period\<close>

record lock_override =
  lo_method :: string
  lo_company :: "id option"
  lo_lockDate :: string

definition auditLockOverride :: "request \<Rightarrow> id \<Rightarrow> lock_override \<Rightarrow> id option \<Rightarrow> unit handler" where
  "auditLockOverride rq tenant ov txnId = auditLog tenant ''override'' ''closing_date_override''
     (case txnId of Some i \<Rightarrow> i | None \<Rightarrow> (case lo_company ov of Some c \<Rightarrow> c | None \<Rightarrow> tenant)) (rq_user rq)"

definition closes :: "string \<Rightarrow> company_row \<Rightarrow> bool" where
  "closes txnDate r \<longleftrightarrow> (case co_lockDate r of None \<Rightarrow> False | Some d \<Rightarrow> txnDate \<le> d)"

definition lock_facts :: "id \<Rightarrow> string \<Rightarrow> id option \<Rightarrow> books \<Rightarrow> string option \<times> bool" where
  "lock_facts tenant txnDate company b = (case company of
     Some c \<Rightarrow> (case find (\<lambda>r. co_tenant r = tenant \<and> co_id r = c) (bk_companies b) of None \<Rightarrow> (None, False)
       | Some r \<Rightarrow> (co_lockDate r, co_closingPasswordHash r \<noteq> None))
   | None \<Rightarrow> (let rs = filter (\<lambda>r. co_tenant r = tenant) (bk_companies b); ds = List.map_filter co_lockDate rs in
       (case ds of [] \<Rightarrow> None | d # ds \<Rightarrow> Some (fold max ds d), list_ex (\<lambda>r. co_closingPasswordHash r \<noteq> None \<and> closes txnDate r) rs)))"

definition closing_hashes :: "id \<Rightarrow> string \<Rightarrow> id option \<Rightarrow> books \<Rightarrow> string option list" where
  "closing_hashes tenant txnDate company b = map co_closingPasswordHash (filter (\<lambda>r. co_tenant r = tenant \<and>
     (case company of Some c \<Rightarrow> co_id r = c | None \<Rightarrow> closes txnDate r)) (bk_companies b))"

definition CLOSING_PASSWORD_MAX_BYTES :: nat where
  "CLOSING_PASSWORD_MAX_BYTES = 72"

definition closingPasswordMatches :: "(string \<Rightarrow> string \<Rightarrow> bool) \<Rightarrow> string option \<Rightarrow> string \<Rightarrow> bool" where
  "closingPasswordMatches compare hash password = (case hash of None \<Rightarrow> False | Some h \<Rightarrow>
     if h = [] \<or> password = [] then False else if CLOSING_PASSWORD_MAX_BYTES < length password then False else compare password h)"

definition period_locked :: "string \<Rightarrow> err" where
  "period_locked lockDate = JsError ''TB_PERIOD_LOCKED'' [lockDate]"

text \<open>A permitted posting into the closed period is returned; it is audited here unless the caller defers that.\<close>

definition permit :: "request \<Rightarrow> id \<Rightarrow> id option \<Rightarrow> bool \<Rightarrow> id option \<Rightarrow> string \<Rightarrow> string \<Rightarrow> lock_override option handler" where
  "permit rq tenant company deferAudit txnId lockDate how = (let ov = \<lparr>lo_method = how, lo_company = company, lo_lockDate = lockDate\<rparr> in
     cbind (cwhen (\<not> deferAudit) (auditLockOverride rq tenant ov txnId)) (\<lambda>_. cret (Some ov)))"

definition checkLockDate :: "request \<Rightarrow> id \<Rightarrow> string \<Rightarrow> id option \<Rightarrow> bool \<Rightarrow> bool \<Rightarrow> id option \<Rightarrow> lock_override option handler" where
  "checkLockDate rq tenant txnDate company deferAudit ajeExempt txnId =
    cbind (cget (lock_facts tenant txnDate company)) (\<lambda>(lockDate, passwordSet).
    case lockDate of None \<Rightarrow> cret None | Some d \<Rightarrow>
      if d = [] \<or> d < txnDate then cret None
      else if ajeExempt \<and> \<not> passwordSet then cret None
      else (case rq_lock rq of None \<Rightarrow> cthrow (period_locked d) | Some k \<Rightarrow>
        (case lk_closingPassword k of
          Some pw \<Rightarrow> cbind (cget (closing_hashes tenant txnDate company)) (\<lambda>hs.
            if hs \<noteq> [] \<and> list_all (\<lambda>h. closingPasswordMatches (lk_matches k) h pw) hs
            then permit rq tenant company deferAudit txnId d ''password''
            else cthrow (JsError ''CLOSING_PASSWORD_INVALID'' []))
        | None \<Rightarrow> if lk_userType k = Some ''staff'' \<and> lk_overrideConfirmed k \<and> \<not> passwordSet
            then permit rq tenant company deferAudit txnId d ''confirmed'' else cthrow (period_locked d))))"

subsection \<open>Accounts in scope\<close>

definition assertAccountsInScope :: "id \<Rightarrow> id option \<Rightarrow> id list \<Rightarrow> unit handler" where
  "assertAccountsInScope tenant company accountIds = (if accountIds = [] then cret () else
     let unique = remdups accountIds in
     cbind (cget (\<lambda>b. filter (\<lambda>r. ac_tenant r = tenant \<and> ac_id r \<in> set unique) (bk_accounts b))) (\<lambda>rows.
     if length rows \<noteq> length unique then cthrow (bad_request ''account of another tenant'')
     else if company \<noteq> None \<and> list_ex (\<lambda>r. ac_company r \<noteq> None \<and> ac_company r \<noteq> company) rows
     then cthrow (bad_request ''account of another company'') else cret ()))"

subsection \<open>Tags\<close>

definition first_defined :: "'a option list \<Rightarrow> 'a option" where
  "first_defined xs = (case List.map_filter id xs of [] \<Rightarrow> None | x # _ \<Rightarrow> Some x)"

definition resolveDefaultTag :: "id option option \<Rightarrow> id option \<Rightarrow> id option \<Rightarrow> id option \<Rightarrow> id option \<Rightarrow> id option" where
  "resolveDefaultTag explicit bankRule aiSuggested itemDefault contactDefault = (case explicit of Some t \<Rightarrow> t
     | None \<Rightarrow> first_defined [bankRule, aiSuggested, itemDefault, contactDefault])"

definition loadContactDefaultTagId :: "request \<Rightarrow> id \<Rightarrow> id option \<Rightarrow> id option handler" where
  "loadContactDefaultTagId rq tenant contact = (case contact of None \<Rightarrow> cret None | Some c \<Rightarrow>
     if \<not> rq_tagsSplit rq then cret None else
     cget (\<lambda>b. case find (\<lambda>r. ct_tenant r = tenant \<and> ct_id r = c) (bk_contacts b) of None \<Rightarrow> None
       | Some r \<Rightarrow> if ct_contactType r \<noteq> ''vendor'' \<and> ct_contactType r \<noteq> ''both'' then None else ct_defaultTagId r))"

definition deriveHeaderTags :: "id option list \<Rightarrow> id list" where
  "deriveHeaderTags tags = rev (remdups (rev (List.map_filter id tags)))"

definition syncTransactionTagsFromLines :: "request \<Rightarrow> id \<Rightarrow> id \<Rightarrow> line_row list \<Rightarrow> unit handler" where
  "syncTransactionTagsFromLines rq tenant i ls = (if \<not> rq_tagsSplit rq then cret () else
     let tags = deriveHeaderTags (map jl_tag ls) in
     cbind (cget (\<lambda>b. map snd (filter (\<lambda>(t, _). t = i) (bk_txnTags b)))) (\<lambda>existing.
     cbind (cmod (\<lambda>b. b\<lparr>bk_txnTags := filter (\<lambda>(t, _). t \<noteq> i) (bk_txnTags b) @ map (Pair i) tags\<rparr>)) (\<lambda>_.
     cwhen (\<not> set existing \<subseteq> set tags) (auditLog tenant ''update'' ''transaction_tags'' i None))))"

subsection \<open>Posting\<close>

definition or_null :: "string option \<Rightarrow> string option" where
  "or_null s = given_text s"

definition new_txn :: "id \<Rightarrow> id option \<Rightarrow> txn_input \<Rightarrow> id \<Rightarrow> nat \<Rightarrow> txn_row" where
  "new_txn tenant company input i now = \<lparr>tx_id = i, tx_tenant = tenant, tx_company = company, tx_txnType = ti_txnType input,
     tx_txnNumber = (case ti_txnNumber input of None \<Rightarrow> None | Some s \<Rightarrow> or_null s), tx_txnDate = ti_txnDate input,
     tx_status = (case ti_status input of None \<Rightarrow> Posted | Some s \<Rightarrow> s),
     tx_basis = (case or_null (ti_basis input) of None \<Rightarrow> ''both'' | Some s \<Rightarrow> s), tx_contact = ti_contact input,
     tx_memo = or_null (ti_memo input),
     tx_isAdjusting = (case ti_isAdjusting input of None \<Rightarrow> ti_txnType input = ''aje'' | Some a \<Rightarrow> a),
     tx_reversesTransactionId = ti_reversesTransactionId input, tx_voidReason = None, tx_voidedAt = None,
     tx_createdAt = now, tx_updatedAt = now\<rparr>"

definition new_line :: "id \<Rightarrow> id option \<Rightarrow> id \<Rightarrow> id option \<Rightarrow> nat \<Rightarrow> line_input \<Rightarrow> line_row" where
  "new_line tenant company i contactTag k l = \<lparr>jl_id = 0, jl_tenant = tenant, jl_company = company, jl_txn = i, jl_account = li_account l,
     jl_debit = round4 (li_debit l), jl_credit = round4 (li_credit l), jl_description = or_null (li_description l),
     jl_tag = resolveDefaultTag (li_tag l) (li_bankRuleTag l) (li_aiSuggestedTag l) None contactTag,
     jl_contact = li_contact l, jl_lineOrder = k, jl_isVoidReversal = False\<rparr>"

definition new_lines :: "id \<Rightarrow> id option \<Rightarrow> id \<Rightarrow> id option \<Rightarrow> line_input list \<Rightarrow> line_row list" where
  "new_lines tenant company i contactTag ls = map (\<lambda>(k, l). new_line tenant company i contactTag k l) (enumerate 0 ls)"

definition postings :: "line_input list \<Rightarrow> posting list" where
  "postings ls = map (\<lambda>l. (li_account l, li_debit l, li_credit l)) ls"

definition postTransaction :: "request \<Rightarrow> id \<Rightarrow> txn_input \<Rightarrow> id option \<Rightarrow> id handler" where
  "postTransaction rq tenant input company =
    cbind (clift (assertBalanced (ti_lines input))) (\<lambda>(d, c).
    if d = 0 \<and> c = 0 then cthrow (bad_request ''Transaction must have non-zero amounts'') else
    cbind (checkLockDate rq tenant (ti_txnDate input) company True (ti_txnType input = ''aje'') None) (\<lambda>override.
    cbind (assertAccountsInScope tenant company (map li_account (ti_lines input))) (\<lambda>_.
    cbind (cget (\<lambda>b. new_txn tenant company input (bk_nextId b) (bk_now b))) (\<lambda>t.
    cbind (cmod (insert_txn t)) (\<lambda>_.
    cbind (loadContactDefaultTagId rq tenant (ti_contact input)) (\<lambda>contactTag.
    let rows = new_lines tenant company (tx_id t) contactTag (ti_lines input) in
    cbind (cmod (insert_lines rows)) (\<lambda>_.
    cbind (syncTransactionTagsFromLines rq tenant (tx_id t) rows) (\<lambda>_.
    cbind (cwhen (tx_status t = Posted) (cmod (updateAccountBalances tenant (postings (ti_lines input))))) (\<lambda>_.
    cbind (auditLog tenant ''create'' ''transaction'' (tx_id t) (rq_user rq)) (\<lambda>_.
    cbind (case override of None \<Rightarrow> cret () | Some ov \<Rightarrow> auditLockOverride rq tenant ov (Some (tx_id t))) (\<lambda>_.
    cret (tx_id t))))))))))))"

subsection \<open>Automatic reversals\<close>

text \<open>The key under which a reversal's lines are compared with the original's; two sorted lists of keys agree when the multisets do.\<close>

type_synonym reversal_key = "id \<times> money \<times> money \<times> id option \<times> id option"

definition reversalLineKey :: "line_row \<Rightarrow> reversal_key" where
  "reversalLineKey l = (jl_account l, jl_debit l, jl_credit l, jl_contact l, jl_tag l)"

definition swap_row :: "line_row \<Rightarrow> line_row" where
  "swap_row l = l\<lparr>jl_debit := jl_credit l, jl_credit := jl_debit l\<rparr>"

definition findLiveReversal :: "id \<Rightarrow> id \<Rightarrow> books \<Rightarrow> txn_row option" where
  "findLiveReversal tenant i b = (case sort_key (\<lambda>t. (tx_createdAt t, tx_id t)) (filter (\<lambda>t. tx_tenant t = tenant \<and>
       tx_reversesTransactionId t = Some i \<and> tx_status t \<noteq> Void \<and> tx_status t \<noteq> Deleted) (bk_txns b)) of [] \<Rightarrow> None | t # _ \<Rightarrow> Some t)"

definition reversal_unchanged :: "books \<Rightarrow> id \<Rightarrow> txn_row \<Rightarrow> line_row list \<Rightarrow> bool" where
  "reversal_unchanged b tenant r originals \<longleftrightarrow> tx_status r = Posted \<and> tx_createdAt r = tx_updatedAt r \<and>
     mset (map (reversalLineKey \<circ> swap_row) (filter (\<lambda>l. \<not> jl_isVoidReversal l) originals)) =
     mset (map reversalLineKey (filter (\<lambda>l. \<not> jl_isVoidReversal l) (lines_of b tenant (tx_id r))))"

definition assertReversalUnchanged :: "id \<Rightarrow> txn_row \<Rightarrow> line_row list \<Rightarrow> unit handler" where
  "assertReversalUnchanged tenant r originals = cbind (cget (\<lambda>b. reversal_unchanged b tenant r originals)) (\<lambda>ok.
     if ok then cret () else cthrow (JsError ''REVERSAL_EDITED'' []))"

text \<open>The live reversal of a journal entry, checked to be as it was posted.\<close>

definition checked_reversal :: "id \<Rightarrow> txn_row \<Rightarrow> line_row list \<Rightarrow> id option handler" where
  "checked_reversal tenant t originals = (if tx_txnType t \<noteq> ''journal_entry'' then cret None else
     cbind (cget (findLiveReversal tenant (tx_id t))) (\<lambda>r. case r of None \<Rightarrow> cret None | Some r \<Rightarrow>
     cbind (assertReversalUnchanged tenant r originals) (\<lambda>_. cret (Some (tx_id r)))))"

subsection \<open>Voiding and deleting\<close>

definition inOtherCompany :: "txn_row \<Rightarrow> id option \<Rightarrow> bool" where
  "inOtherCompany t company \<longleftrightarrow> company \<noteq> None \<and> tx_company t \<noteq> None \<and> tx_company t \<noteq> company"

text \<open>\<open>Some None\<close> is a time that does not parse.\<close>

definition assertNotStale :: "txn_row \<Rightarrow> nat option option \<Rightarrow> unit handler" where
  "assertNotStale t expected = (case expected of None \<Rightarrow> cret () | Some w \<Rightarrow>
     if w = Some (tx_updatedAt t) then cret () else cthrow (JsError ''STALE'' []))"

definition cleared_lines :: "id \<Rightarrow> id \<Rightarrow> books \<Rightarrow> bool" where
  "cleared_lines tenant i b \<longleftrightarrow> list_ex (\<lambda>l. jl_txn l = i \<and> jl_id l \<in> set (bk_cleared b)) (bk_lines b)"

definition liveDepositsForSource :: "id \<Rightarrow> id \<Rightarrow> books \<Rightarrow> (id \<times> money) list" where
  "liveDepositsForSource tenant i b = map (\<lambda>(dep, src, amount). (dep, amount)) (filter (\<lambda>(dep, src, amount). src = i \<and>
     list_ex (\<lambda>t. tx_id t = dep \<and> tx_tenant t = tenant \<and> tx_status t = Posted) (bk_txns b)) (bk_depositLines b))"

definition assertNotDeposited :: "id \<Rightarrow> id \<Rightarrow> unit handler" where
  "assertNotDeposited tenant i = cbind (cget (liveDepositsForSource tenant i)) (\<lambda>live.
     if live = [] then cret () else cthrow (JsError ''TXN_DEPOSITED'' []))"

definition reversal_rows :: "string \<Rightarrow> id \<Rightarrow> id \<Rightarrow> line_row list \<Rightarrow> line_row list" where
  "reversal_rows prefix tenant i originals = (let maxOrder = fold max (map jl_lineOrder originals) 0 in
     map (\<lambda>(k, l). \<lparr>jl_id = 0, jl_tenant = tenant, jl_company = jl_company l, jl_txn = i, jl_account = jl_account l,
       jl_debit = jl_credit l, jl_credit = jl_debit l,
       jl_description = Some (trim (prefix @ (case jl_description l of None \<Rightarrow> [] | Some s \<Rightarrow> s))),
       jl_tag = jl_tag l, jl_contact = jl_contact l, jl_lineOrder = maxOrder + 1 + k, jl_isVoidReversal = True\<rparr>) (enumerate 0 originals))"

text \<open>The reversing lines and the balances they move; nothing for a document without lines.\<close>

definition post_reversal_rows :: "string \<Rightarrow> id \<Rightarrow> id \<Rightarrow> line_row list \<Rightarrow> unit handler" where
  "post_reversal_rows prefix tenant i originals = (if originals = [] then cret () else
     cbind (cmod (insert_lines (reversal_rows prefix tenant i originals))) (\<lambda>_.
     cmod (updateAccountBalances tenant (swapped originals))))"

record change_options =
  vo_expectedUpdatedAt :: "nat option option"
  vo_expectType :: "string option"
  vo_company :: "id option"

text \<open>One void; it returns the automatic reversal that is voided next.  \<open>void_unlocked\<close>: what follows the closing-date check.\<close>

definition void_unlocked :: "request \<Rightarrow> id \<Rightarrow> id \<Rightarrow> string \<Rightarrow> txn_row \<Rightarrow> id option handler" where
  "void_unlocked rq tenant i reason t =
    cbind (cget (cleared_lines tenant i)) (\<lambda>cleared.
    if cleared then cthrow (bad_request ''cleared in a completed bank reconciliation'') else
    cbind (assertNotDeposited tenant i) (\<lambda>_.
    cbind (cget (\<lambda>b. lines_of b tenant i)) (\<lambda>originals.
    cbind (checked_reversal tenant t originals) (\<lambda>reversal.
    cbind (cmod (\<lambda>b. update_txn tenant i (\<lambda>t. t\<lparr>tx_status := Void, tx_voidReason := Some reason, tx_voidedAt := Some (bk_now b),
      tx_updatedAt := bk_now b\<rparr>) b)) (\<lambda>_.
    cbind (post_reversal_rows ''Void: '' tenant i originals) (\<lambda>_.
    cbind (auditLog tenant ''void'' ''transaction'' i (rq_user rq)) (\<lambda>_.
    cret reversal)))))))"

definition void_one :: "request \<Rightarrow> id \<Rightarrow> id \<Rightarrow> string \<Rightarrow> change_options \<Rightarrow> id option handler" where
  "void_one rq tenant i reason opts = cbind (cget (\<lambda>b. txn_of b tenant i)) (\<lambda>row. case row of None \<Rightarrow> cthrow NOT_FOUND | Some t \<Rightarrow>
    if tx_status t = Deleted \<or> inOtherCompany t (vo_company opts) then cthrow NOT_FOUND
    else if (case or_null (vo_expectType opts) of None \<Rightarrow> False | Some ty \<Rightarrow> tx_txnType t \<noteq> ty) then cthrow (bad_request ''Wrong transaction type'')
    else if tx_status t = Void then cthrow (bad_request ''Transaction is already void'')
    else cbind (assertNotStale t (vo_expectedUpdatedAt opts)) (\<lambda>_.
    cbind (checkLockDate rq tenant (tx_txnDate t) (tx_company t) False (tx_txnType t = ''aje'') (Some i)) (\<lambda>_.
    void_unlocked rq tenant i reason t)))"

definition DELETABLE_TXN_TYPES :: "string list" where
  "DELETABLE_TXN_TYPES = [''journal_entry'', ''expense'', ''transfer'', ''deposit'', ''cash_sale'', ''bill'', ''vendor_credit'',
     ''inventory_adjustment'']"

definition DELETE_BLOCKING_LINKS :: "string list" where
  "DELETE_BLOCKING_LINKS = [''bank_feed_match'', ''accrual'', ''payroll'', ''portal_receipt'', ''category_suggestion'',
     ''recurring_template'', ''daily_sales'', ''estimated_tax_payment'', ''bill_capture'']"

definition findDeleteBlockingLinks :: "id \<Rightarrow> books \<Rightarrow> string list" where
  "findDeleteBlockingLinks i b = filter (\<lambda>k. (k, i) \<in> set (bk_links b)) DELETE_BLOCKING_LINKS"

definition deleteTransactionTaxRows :: "request \<Rightarrow> id \<Rightarrow> id \<Rightarrow> unit handler" where
  "deleteTransactionTaxRows rq tenant i = cbind (cget (\<lambda>b. filter (\<lambda>(t, _, _). t = i) (bk_taxPayments b))) (\<lambda>gone.
     cbind (cmod (\<lambda>b. b\<lparr>bk_taxPayments := filter (\<lambda>(t, _, _). t \<noteq> i) (bk_taxPayments b)\<rparr>)) (\<lambda>_.
     cwhen (gone \<noteq> []) (auditLog tenant ''delete'' ''sales_tax_payment_lines'' i (rq_user rq))))"

definition delete_unlocked :: "request \<Rightarrow> id \<Rightarrow> id \<Rightarrow> txn_row \<Rightarrow> id option handler" where
  "delete_unlocked rq tenant i t =
    cbind (cget (cleared_lines tenant i)) (\<lambda>cleared.
    if cleared then cthrow (JsError ''RECONCILED_TRANSACTION'' []) else
    cbind (cget (liveDepositsForSource tenant i)) (\<lambda>live.
    if live \<noteq> [] then cthrow (JsError ''TXN_DELETE_LINKED'' [''deposit'']) else
    cbind (deleteTransactionTaxRows rq tenant i) (\<lambda>_.
    cbind (cget (findDeleteBlockingLinks i)) (\<lambda>links.
    if links \<noteq> [] then cthrow (JsError ''TXN_DELETE_LINKED'' links) else
    cbind (cget (\<lambda>b. sort_key jl_lineOrder (lines_of b tenant i))) (\<lambda>originals.
    cbind (checked_reversal tenant t originals) (\<lambda>reversal.
    cbind (cwhen (tx_status t = Posted) (post_reversal_rows ''Deleted: '' tenant i originals)) (\<lambda>_.
    cbind (cmod (\<lambda>b. update_txn tenant i (\<lambda>t. t\<lparr>tx_status := Deleted, tx_updatedAt := bk_now b\<rparr>) b)) (\<lambda>_.
    cbind (auditLog tenant ''delete'' ''transaction'' i (rq_user rq)) (\<lambda>_.
    cret reversal)))))))))"

definition delete_one :: "request \<Rightarrow> id \<Rightarrow> id \<Rightarrow> change_options \<Rightarrow> id option handler" where
  "delete_one rq tenant i opts = cbind (cget (\<lambda>b. txn_of b tenant i)) (\<lambda>row. case row of None \<Rightarrow> cthrow NOT_FOUND | Some t \<Rightarrow>
    if inOtherCompany t (vo_company opts) then cthrow NOT_FOUND
    else if tx_status t = Deleted then cthrow (JsError ''TXN_ALREADY_DELETED'' [])
    else if tx_txnType t = ''aje'' then cthrow (JsError ''TB_AJE_ROUTE'' [])
    else if tx_txnType t \<notin> set DELETABLE_TXN_TYPES then cthrow (JsError ''TXN_DELETE_UNSUPPORTED'' [])
    else cbind (assertNotStale t (vo_expectedUpdatedAt opts)) (\<lambda>_.
    cbind (checkLockDate rq tenant (tx_txnDate t) (tx_company t) False False (Some i)) (\<lambda>_.
    delete_unlocked rq tenant i t)))"

subsubsection \<open>What one void or delete does to the books\<close>

definition live_txns :: "books \<Rightarrow> txn_row list" where
  "live_txns b = filter (\<lambda>t. tx_status t \<noteq> Void \<and> tx_status t \<noteq> Deleted) (bk_txns b)"

text \<open>Two states that differ in the audit trail, the tags of transactions and the tax payment lines only.\<close>

definition same_books :: "books \<Rightarrow> books \<Rightarrow> bool" where
  "same_books b b' \<longleftrightarrow> bk_accounts b' = bk_accounts b \<and> bk_txns b' = bk_txns b \<and> bk_lines b' = bk_lines b \<and>
     bk_nextId b' = bk_nextId b \<and> bk_companies b' = bk_companies b \<and> bk_now b' = bk_now b"

lemma same_books_refl [simp]: "same_books b b"
  by (simp add: same_books_def)

lemma same_books_trans: "same_books a b \<Longrightarrow> same_books b c \<Longrightarrow> same_books a c"
  by (simp add: same_books_def)

text \<open>
  A property of a handler that relates the books before and after it: with a relation that is reflexive and transitive it
  passes through sequencing and branching, so a handler has it when its writes do.
\<close>

locale keeping =
  fixes R :: "books \<Rightarrow> books \<Rightarrow> bool"
  assumes keeps_refl: "R b b" and keeps_trans: "R a b \<Longrightarrow> R b c \<Longrightarrow> R a c"
begin

definition kept :: "'a handler \<Rightarrow> bool" where
  "kept m \<longleftrightarrow> (\<forall>b x b'. m b = Inr (x, b') \<longrightarrow> R b b')"

lemma keptD: "kept m \<Longrightarrow> m b = Inr (x, b') \<Longrightarrow> R b b'"
  by (simp add: kept_def)

lemma kept_bind:
  assumes "kept m" "\<And>x. kept (h x)"
  shows "kept (cbind m h)"
  unfolding kept_def
proof (intro allI impI)
  fix b y b'
  assume "cbind m h b = Inr (y, b')"
  then obtain x c where "m b = Inr (x, c)" "h x c = Inr (y, b')" by (auto simp: cbind_apply ebind_Inr_iff)
  then show "R b b'" using keptD [OF assms(1)] keptD [OF assms(2)] keeps_trans by blast
qed

lemma kept_cmod: "(\<And>b. R b (f b)) \<Longrightarrow> kept (cmod f)"
  by (simp add: kept_def)

lemma kept_rules:
  "kept (cret x)" "kept (cthrow e)" "kept (cget f)" "kept (clift r)" "kept u \<Longrightarrow> kept (cwhen c u)"
  by (auto simp: kept_def ebind_Inr_iff cwhen_def keeps_refl)

lemma kept_cases:
  "kept m \<Longrightarrow> kept n \<Longrightarrow> kept (if c then m else n)"
  "kept m \<Longrightarrow> (\<And>y. kept (h y)) \<Longrightarrow> kept (case v of None \<Rightarrow> m | Some y \<Rightarrow> h y)"
  "(\<And>y z. kept (k y z)) \<Longrightarrow> kept (case p of (y, z) \<Rightarrow> k y z)"
  "(\<And>y. kept (g y)) \<Longrightarrow> kept (let y = e in g y)"
  by (simp_all split: option.split prod.split)

end

interpretation sb: keeping same_books
  by unfold_locales (auto intro: same_books_trans)

abbreviation reads_only :: "'a handler \<Rightarrow> bool" where
  "reads_only \<equiv> sb.kept"

named_theorems reads "handlers that leave accounts, transactions and lines alone"

lemmas reads_onlyD = sb.keptD

lemmas reads_rules [reads, intro] = sb.kept_rules sb.kept_bind sb.kept_cases

lemma reads_only_audit [reads, intro]: "reads_only (auditLog tenant action entity i user)"
  unfolding auditLog_def by (rule sb.kept_cmod) (simp add: same_books_def)

lemma reads_only_guards [reads, intro]:
  "reads_only (auditLockOverride rq tenant ov j)"
  "reads_only (permit rq tenant company deferAudit j d how)"
  "reads_only (checkLockDate rq tenant date company deferAudit aje j)"
  "reads_only (assertAccountsInScope tenant company as)"
  "reads_only (loadContactDefaultTagId rq tenant contact)"
  "reads_only (assertNotStale t expected)"
  "reads_only (assertNotDeposited tenant i)"
  "reads_only (checked_reversal tenant t originals)"
  unfolding auditLockOverride_def permit_def checkLockDate_def assertAccountsInScope_def loadContactDefaultTagId_def assertNotStale_def
    assertNotDeposited_def checked_reversal_def assertReversalUnchanged_def
  by (intro reads)+

lemma reads_only_side_tables [reads, intro]:
  "reads_only (cmod (\<lambda>b. b\<lparr>bk_txnTags := f b\<rparr>))" "reads_only (cmod (\<lambda>b. b\<lparr>bk_taxPayments := g b\<rparr>))"
  by (intro sb.kept_cmod; simp add: same_books_def)+

lemma reads_only_sync [reads, intro]:
  "reads_only (syncTransactionTagsFromLines rq tenant i ls)" "reads_only (deleteTransactionTaxRows rq tenant i)"
  unfolding syncTransactionTagsFromLines_def deleteTransactionTaxRows_def by (intro reads)+

text \<open>The reversal of a document: its header changed, its reversing lines added, its balances moved back.\<close>

definition reverse_txn :: "string \<Rightarrow> id \<Rightarrow> id \<Rightarrow> line_row list \<Rightarrow> (nat \<Rightarrow> txn_row \<Rightarrow> txn_row) \<Rightarrow> books \<Rightarrow> books" where
  "reverse_txn prefix tenant i ls f b = update_txn tenant i (f (bk_now b))
     (updateAccountBalances tenant (swapped ls) (insert_lines (reversal_rows prefix tenant i ls) b))"

lemma post_reversal_rows_apply:
  "post_reversal_rows prefix tenant i ls b = Inr ((), updateAccountBalances tenant (swapped ls) (insert_lines (reversal_rows prefix tenant i ls) b))"
  by (cases "ls = []") (simp_all add: post_reversal_rows_def cbind_apply reversal_rows_def insert_lines_def swapped_def
    updateAccountBalances_def deltas_of_def Let_def)

lemma clock_kept [simp]:
  "bk_now (updateAccountBalances tenant ps b) = bk_now b" "bk_now (insert_lines ls b) = bk_now b"
  by (simp_all add: updateAccountBalances_eq insert_lines_def)

lemma same_books_writes:
  assumes "same_books a b"
  shows "same_books (reverse_txn prefix tenant i ls f a) (reverse_txn prefix tenant i ls f b)"
    and "same_books (update_txn tenant i (f (bk_now a)) a) (update_txn tenant i (f (bk_now b)) b)"
  using assms by (simp_all add: same_books_def reverse_txn_def update_txn_def updateAccountBalances_eq insert_lines_def)

lemma same_books_lines: "same_books a b \<Longrightarrow> lines_of b tenant i = lines_of a tenant i"
  by (simp add: same_books_def lines_of_def)

lemma same_audit: "auditLog tenant action entity i user b = Inr ((), b') \<Longrightarrow> same_books b b'"
  by (auto simp: auditLog_def same_books_def)

lemmas checkLockDate_same = reads_onlyD [OF reads_only_guards(3)]
lemmas assertNotStale_same = reads_onlyD [OF reads_only_guards(6)]
lemmas assertNotDeposited_same = reads_onlyD [OF reads_only_guards(7)]
lemmas checked_reversal_same = reads_onlyD [OF reads_only_guards(8)]

lemma checked_reversal_state: "checked_reversal tenant t ls b = Inr (r, b') \<Longrightarrow> b' = b"
  by (auto simp: checked_reversal_def assertReversalUnchanged_def cbind_apply ebind_Inr_iff split: if_splits option.splits)

text \<open>The reversal the check returns; it leaves the books alone.\<close>

definition reversal_check :: "id \<Rightarrow> txn_row \<Rightarrow> line_row list \<Rightarrow> books \<Rightarrow> id option result" where
  "reversal_check tenant t ls b = ebind (checked_reversal tenant t ls b) (\<lambda>(r, _). Inr r)"

lemma checked_reversal_iff: "checked_reversal tenant t ls b = Inr (r, b') \<longleftrightarrow> b' = b \<and> reversal_check tenant t ls b = Inr r"
  by (auto simp: reversal_check_def ebind_Inr_iff dest: checked_reversal_state)

lemma guards_state:
  "assertNotStale t expected b = Inr (u, b') \<Longrightarrow> b' = b"
  "assertNotDeposited tenant i b = Inr (u, b') \<Longrightarrow> b' = b"
  by (auto simp: assertNotStale_def assertNotDeposited_def cbind_apply ebind_Inr_iff split: if_splits option.splits)

definition voided :: "string \<Rightarrow> nat \<Rightarrow> txn_row \<Rightarrow> txn_row" where
  "voided reason now t = t\<lparr>tx_status := Void, tx_voidReason := Some reason, tx_voidedAt := Some now, tx_updatedAt := now\<rparr>"

definition deleted_txn :: "nat \<Rightarrow> txn_row \<Rightarrow> txn_row" where
  "deleted_txn now t = t\<lparr>tx_status := Deleted, tx_updatedAt := now\<rparr>"

lemma void_oneE:
  assumes "void_one rq tenant i reason opts b = Inr (r, b')"
  obtains t b0 where "txn_of b tenant i = Some t" "tx_status t \<noteq> Void" "tx_status t \<noteq> Deleted" "\<not> inOtherCompany t (vo_company opts)"
    "\<exists>ov. checkLockDate rq tenant (tx_txnDate t) (tx_company t) False (tx_txnType t = ''aje'') (Some i) b = Inr (ov, b0)"
    "\<not> cleared_lines tenant i b0"
    "reversal_check tenant t (lines_of b tenant i) b0 = Inr r"
    "same_books (reverse_txn ''Void: '' tenant i (lines_of b tenant i) (voided reason) b) b'"
proof -
  from assms obtain t where t: "txn_of b tenant i = Some t" "tx_status t \<noteq> Void" "tx_status t \<noteq> Deleted" "\<not> inOtherCompany t (vo_company opts)"
    by (auto simp: void_one_def cbind_apply split: option.splits if_splits)
  from assms t obtain ov b0 ls b1 where guards: "checkLockDate rq tenant (tx_txnDate t) (tx_company t) False (tx_txnType t = ''aje'') (Some i) b = Inr (ov, b0)"
      "\<not> cleared_lines tenant i b0" "ls = lines_of b0 tenant i" "reversal_check tenant t ls b0 = Inr r"
    and run: "b1 = updateAccountBalances tenant (swapped ls) (insert_lines (reversal_rows ''Void: '' tenant i ls) (update_txn tenant i (voided reason (bk_now b0)) b0))"
      "auditLog tenant ''void'' ''transaction'' i (rq_user rq) b1 = Inr ((), b')"
    unfolding void_one_def void_unlocked_def voided_def
    by (auto simp: cbind_apply ebind_Inr_iff post_reversal_rows_apply checked_reversal_iff split: if_splits dest!: guards_state)
  have same: "same_books b b0" by (rule checkLockDate_same [OF guards(1)])
  have "b1 = reverse_txn ''Void: '' tenant i ls (voided reason) b0"
    by (simp add: run(1) reverse_txn_def update_txn_def updateAccountBalances_eq insert_lines_def)
  with same_books_trans [OF same_books_writes(1) [OF same] same_audit] run(2)
  have "same_books (reverse_txn ''Void: '' tenant i ls (voided reason) b) b'" by simp
  with t guards same_books_lines [OF same] show thesis by (intro that) auto
qed

lemma delete_oneE:
  assumes "delete_one rq tenant i opts b = Inr (r, b')"
  obtains t b0 b1 ls where "txn_of b tenant i = Some t" "tx_status t \<noteq> Deleted" "\<not> inOtherCompany t (vo_company opts)"
    "\<exists>ov. checkLockDate rq tenant (tx_txnDate t) (tx_company t) False False (Some i) b = Inr (ov, b0)"
    "\<not> cleared_lines tenant i b0" "ls = sort_key jl_lineOrder (lines_of b tenant i)"
    "reversal_check tenant t ls b1 = Inr r" "same_books b b1"
    "same_books (if tx_status t = Posted then reverse_txn ''Deleted: '' tenant i ls deleted_txn b
       else update_txn tenant i (deleted_txn (bk_now b)) b) b'"
proof -
  from assms obtain t where t: "txn_of b tenant i = Some t" "tx_status t \<noteq> Deleted" "\<not> inOtherCompany t (vo_company opts)"
    by (auto simp: delete_one_def cbind_apply split: option.splits if_splits)
  from assms t obtain ov b0 b1 ls b2 where guards: "checkLockDate rq tenant (tx_txnDate t) (tx_company t) False False (Some i) b = Inr (ov, b0)"
      "\<not> cleared_lines tenant i b0" "deleteTransactionTaxRows rq tenant i b0 = Inr ((), b1)"
      "ls = sort_key jl_lineOrder (lines_of b1 tenant i)" "reversal_check tenant t ls b1 = Inr r"
    and run: "b2 = (if tx_status t = Posted then reverse_txn ''Deleted: '' tenant i ls deleted_txn b1 else update_txn tenant i (deleted_txn (bk_now b1)) b1)"
      "auditLog tenant ''delete'' ''transaction'' i (rq_user rq) b2 = Inr ((), b')"
    unfolding delete_one_def delete_unlocked_def deleted_txn_def reverse_txn_def
    by (auto simp: cbind_apply ebind_Inr_iff cwhen_def post_reversal_rows_apply checked_reversal_iff
      split: if_splits dest!: guards_state)
  have same: "same_books b b1"
    by (rule same_books_trans [OF checkLockDate_same [OF guards(1)] reads_onlyD [OF reads_only_sync(2) guards(3)]])
  from same_books_trans [OF same_books_writes(1) [OF same] same_audit] same_books_trans [OF same_books_writes(2) [OF same] same_audit] run
  have "same_books (if tx_status t = Posted then reverse_txn ''Deleted: '' tenant i ls deleted_txn b
       else update_txn tenant i (deleted_txn (bk_now b)) b) b'" by (simp split: if_splits)
  with t guards same same_books_lines [OF same] show thesis by (intro that) auto
qed

subsubsection \<open>The whole void and delete\<close>

definition is_live :: "txn_row \<Rightarrow> bool" where
  "is_live t \<longleftrightarrow> tx_status t \<noteq> Void \<and> tx_status t \<noteq> Deleted"

definition live_count :: "books \<Rightarrow> nat" where
  "live_count b = length (filter is_live (bk_txns b))"

lemma filter_map_less:
  assumes "\<And>x. x \<in> set xs \<Longrightarrow> P (g x) \<Longrightarrow> P x" "x \<in> set xs" "P x" "\<not> P (g x)"
  shows "length (filter P (map g xs)) < length (filter P xs)"
proof -
  from assms have le: "length (filter P (map g ys)) \<le> length (filter P ys)" if "set ys \<subseteq> set xs" for ys
    using that by (induction ys) auto
  from assms(2) obtain ys zs where xs: "xs = ys @ x # zs" by (meson split_list)
  then have "set ys \<subseteq> set xs" "set zs \<subseteq> set xs" by auto
  from this [THEN le] assms(3,4) show ?thesis by (simp add: xs del: filter_map)
qed

lemma txn_of_SomeD: "txn_of b tenant i = Some t \<Longrightarrow> t \<in> set (bk_txns b) \<and> tx_tenant t = tenant \<and> tx_id t = i"
  by (auto simp: txn_of_def find_Some_iff)

lemma live_count_update:
  assumes "txn_of b tenant i = Some t" "is_live t" "\<And>t. \<not> is_live (f t)"
  shows "live_count (update_txn tenant i f b) < live_count b"
proof -
  have "length (filter is_live (map (\<lambda>t. if tx_tenant t = tenant \<and> tx_id t = i then f t else t) (bk_txns b))) < length (filter is_live (bk_txns b))"
    by (rule filter_map_less [where x = t]) (use assms txn_of_SomeD [OF assms(1)] in \<open>auto split: if_splits\<close>)
  then show ?thesis by (simp add: live_count_def update_txn_def)
qed

lemma live_count_reverse:
  assumes "txn_of b tenant i = Some t" "is_live t" "\<And>n t. \<not> is_live (f n t)" "same_books (reverse_txn prefix tenant i ls f b) b'"
  shows "live_count b' < live_count b"
proof -
  have "bk_txns b' = bk_txns (update_txn tenant i (f (bk_now b)) b)"
    using assms(4) by (simp add: same_books_def reverse_txn_def update_txn_def updateAccountBalances_eq insert_lines_def)
  with live_count_update [of b tenant i t "f (bk_now b)"] assms(1-3) show ?thesis by (simp add: live_count_def)
qed

text \<open>
  Voiding a journal entry voids its automatic reversal with it, in one database transaction; a reversal could have a
  reversal of its own, so the code recurs.  Each step takes one live transaction away.
\<close>

definition only_company :: "change_options \<Rightarrow> change_options" where
  "only_company opts = \<lparr>vo_expectedUpdatedAt = None, vo_expectType = None, vo_company = vo_company opts\<rparr>"

lemma void_one_live:
  assumes "void_one rq tenant i reason opts b = Inr (r, b')"
  shows "live_count b' < live_count b"
  using assms
  by (rule void_oneE) (rule live_count_reverse, auto simp: is_live_def voided_def)

function voidTransactionInTx :: "request \<Rightarrow> id \<Rightarrow> id \<Rightarrow> string \<Rightarrow> change_options \<Rightarrow> unit handler" where
  "voidTransactionInTx rq tenant i reason opts b = (case void_one rq tenant i reason opts b of
     Inl e \<Rightarrow> Inl e
   | Inr (None, b') \<Rightarrow> Inr ((), b')
   | Inr (Some r, b') \<Rightarrow> voidTransactionInTx rq tenant r reason (only_company opts) b')"
  by pat_completeness auto
termination
proof (relation "measure (\<lambda>(rq, tenant, i, reason, opts, b). live_count b)", goal_cases)
  case (2 rq tenant i reason opts b x p b' r)
  then have "void_one rq tenant i reason opts b = Inr (Some r, b')" by simp
  then show ?case by (simp add: void_one_live)
qed simp

text \<open>A deleted transaction is never the reversal that is deleted next, so this recursion ends too.\<close>

definition undeleted :: "books \<Rightarrow> nat" where
  "undeleted b = length (filter (\<lambda>t. tx_status t \<noteq> Deleted) (bk_txns b))"

lemma undeleted_step:
  assumes "delete_one rq tenant i opts b = Inr (r, b')"
  shows "undeleted b' < undeleted b"
  using assms
proof (rule delete_oneE)
  fix t b0 b1 ls
  assume t: "txn_of b tenant i = Some t" "tx_status t \<noteq> Deleted"
    and same: "same_books (if tx_status t = Posted then reverse_txn ''Deleted: '' tenant i ls deleted_txn b
       else update_txn tenant i (deleted_txn (bk_now b)) b) b'"
  from same have "bk_txns b' = bk_txns (update_txn tenant i (deleted_txn (bk_now b)) b)"
    by (simp add: same_books_def reverse_txn_def update_txn_def updateAccountBalances_eq insert_lines_def split: if_splits)
  moreover have "length (filter (\<lambda>t. tx_status t \<noteq> Deleted) (map (\<lambda>u. if tx_tenant u = tenant \<and> tx_id u = i
      then deleted_txn (bk_now b) u else u) (bk_txns b))) < length (filter (\<lambda>t. tx_status t \<noteq> Deleted) (bk_txns b))"
    by (rule filter_map_less [where x = t]) (use t txn_of_SomeD [OF t(1)] in \<open>auto simp: deleted_txn_def split: if_splits\<close>)
  ultimately show ?thesis by (simp add: undeleted_def update_txn_def)
qed

definition delete_rest :: "change_options \<Rightarrow> change_options" where
  "delete_rest opts = opts\<lparr>vo_expectedUpdatedAt := None\<rparr>"

function deleteTransactionInTx :: "request \<Rightarrow> id \<Rightarrow> id \<Rightarrow> change_options \<Rightarrow> unit handler" where
  "deleteTransactionInTx rq tenant i opts b = (case delete_one rq tenant i opts b of
     Inl e \<Rightarrow> Inl e
   | Inr (None, b') \<Rightarrow> Inr ((), b')
   | Inr (Some r, b') \<Rightarrow> deleteTransactionInTx rq tenant r (delete_rest opts) b')"
  by pat_completeness auto
termination
proof (relation "measure (\<lambda>(rq, tenant, i, opts, b). undeleted b)", goal_cases)
  case (2 rq tenant i opts b x p b' r)
  then have "delete_one rq tenant i opts b = Inr (Some r, b')" by simp
  then show ?case by (simp add: undeleted_step)
qed simp

declare voidTransactionInTx.simps [simp del] deleteTransactionInTx.simps [simp del]

subsection \<open>Balances read from the lines\<close>

definition txn_posted :: "books \<Rightarrow> id \<Rightarrow> string option \<Rightarrow> id \<Rightarrow> bool" where
  "txn_posted b tenant asOf i \<longleftrightarrow> list_ex (\<lambda>t. tx_id t = i \<and> tx_tenant t = tenant \<and> tx_status t = Posted \<and>
     (case or_null asOf of None \<Rightarrow> True | Some d \<Rightarrow> tx_txnDate t \<le> d)) (bk_txns b)"

text \<open>
  The sums are exact (\<open>SUM\<close> of the database, \<open>Decimal\<close>); each is then rounded to four decimals and
  returned as a JavaScript number: the nearest double, \<open>None\<close> for an infinity.
\<close>

definition to_number :: "money \<Rightarrow> rat option" where
  "to_number x = double_of (round4 x)"

definition account_sums :: "books \<Rightarrow> id \<Rightarrow> id \<Rightarrow> string option \<Rightarrow> money \<times> money" where
  "account_sums b tenant account asOf = (let ls = filter (\<lambda>l. jl_tenant l = tenant \<and> jl_account l = account \<and>
       txn_posted b tenant asOf (jl_txn l)) (bk_lines b) in (debits ls, credits ls))"

definition getAccountBalance :: "books \<Rightarrow> id \<Rightarrow> id \<Rightarrow> string option \<Rightarrow> rat option \<times> rat option \<times> rat option" where
  "getAccountBalance b tenant account asOf = (case account_sums b tenant account asOf of (debit, credit) \<Rightarrow>
     (to_number debit, to_number credit, to_number (debit - credit)))"

record balance_check =
  bc_valid :: bool
  bc_totalDebits :: "rat option"
  bc_totalCredits :: "rat option"
  bc_difference :: "rat option"

definition trial_sums :: "books \<Rightarrow> id \<Rightarrow> money \<times> money" where
  "trial_sums b tenant = (let ls = filter (\<lambda>l. jl_tenant l = tenant \<and>
       list_ex (\<lambda>t. tx_id t = jl_txn l \<and> tx_status t = Posted) (bk_txns b)) (bk_lines b) in (debits ls, credits ls))"

definition validateBalance :: "books \<Rightarrow> id \<Rightarrow> balance_check" where
  "validateBalance b tenant = (case trial_sums b tenant of (totalDebits, totalCredits) \<Rightarrow>
     let difference = \<bar>totalDebits - totalCredits\<bar> in
     \<lparr>bc_valid = difference < 1 / 100, bc_totalDebits = to_number totalDebits, bc_totalCredits = to_number totalCredits,
      bc_difference = to_number difference\<rparr>)"

subsection \<open>Editing\<close>

definition assertSalesTaxLinkUnchanged :: "id \<Rightarrow> txn_row \<Rightarrow> txn_input \<Rightarrow> unit handler" where
  "assertSalesTaxLinkUnchanged tenant existing input = cbind (cget (\<lambda>b. filter (\<lambda>(t, _, _). t = tx_id existing) (bk_taxPayments b))) (\<lambda>rows.
     if rows = [] then cret () else
     cbind (cget (\<lambda>b. map ac_id (filter (\<lambda>a. ac_tenant a = tenant \<and> ac_systemTag a = Some ''sales_tax_payable'') (bk_accounts b)))) (\<lambda>stp.
     let paid = sum_list (map (\<lambda>(_, kind, amount). if kind = ''paid'' then amount else 0) rows);
         debit = sum_list (map (\<lambda>l. li_debit l - li_credit l) (filter (\<lambda>l. li_account l \<in> set stp) (ti_lines input))) in
     if ti_txnDate input \<noteq> tx_txnDate existing \<or> debit \<noteq> paid then cthrow (JsError ''SALES_TAX_LINKED'' []) else cret ()))"

definition assertDepositedAmountKept :: "id \<Rightarrow> txn_row \<Rightarrow> txn_input \<Rightarrow> unit handler" where
  "assertDepositedAmountKept tenant existing input = cbind (cget (liveDepositsForSource tenant (tx_id existing))) (\<lambda>live.
     if live = [] then cret () else
     cbind (cget (\<lambda>b. find (\<lambda>a. ac_tenant a = tenant \<and> ac_systemTag a = Some ''payments_clearing'') (bk_accounts b))) (\<lambda>clearing.
     let deposited = sum_list (map snd live);
         held = sum_list (map (\<lambda>l. li_debit l - li_credit l)
           (filter (\<lambda>l. case clearing of None \<Rightarrow> False | Some a \<Rightarrow> li_account l = ac_id a) (ti_lines input))) in
     if tx_txnType existing \<noteq> ''vendor_credit'' \<and> held = deposited then cret () else assertNotDeposited tenant (tx_id existing)))"

text \<open>
  A reconciled entry keeps its balance-sheet lines: each is matched, in order, to the first unmatched input line with
  its account and amounts; what is left of the input replaces the income and expense lines.
\<close>

definition line_key_matches :: "line_row \<Rightarrow> line_input \<Rightarrow> bool" where
  "line_key_matches r l \<longleftrightarrow> li_account l = jl_account r \<and> round4 (li_debit l) = round4 (jl_debit r) \<and> round4 (li_credit l) = round4 (jl_credit r)"

fun take_match :: "('a \<Rightarrow> bool) \<Rightarrow> 'a list \<Rightarrow> ('a \<times> 'a list) option" where
  "take_match P [] = None"
| "take_match P (x # xs) = (if P x then Some (x, xs) else map_option (\<lambda>(y, ys). (y, x # ys)) (take_match P xs))"

fun match_lines :: "line_row list \<Rightarrow> line_input list \<Rightarrow> ((line_row \<times> line_input) list \<times> line_input list) option" where
  "match_lines [] ls = Some ([], ls)"
| "match_lines (r # rs) ls = (case take_match (line_key_matches r) ls of None \<Rightarrow> None
     | Some (l, ls') \<Rightarrow> map_option (\<lambda>(ps, rest). ((r, l) # ps, rest)) (match_lines rs ls'))"

definition isBalanceSheet :: "books \<Rightarrow> id \<Rightarrow> id \<Rightarrow> bool" where
  "isBalanceSheet b tenant a \<longleftrightarrow> list_ex (\<lambda>r. ac_tenant r = tenant \<and> ac_id r = a \<and> ac_type r \<in> {''asset'', ''liability'', ''equity''}) (bk_accounts b)"

definition edited_header :: "txn_input \<Rightarrow> nat \<Rightarrow> txn_row \<Rightarrow> txn_row" where
  "edited_header input now t = t\<lparr>tx_memo := or_null (ti_memo input), tx_contact := ti_contact input,
     tx_basis := (case or_null (ti_basis input) of None \<Rightarrow> tx_basis t | Some s \<Rightarrow> s),
     tx_txnNumber := (case ti_txnNumber input of None \<Rightarrow> tx_txnNumber t | Some n \<Rightarrow> n),
     tx_isAdjusting := (case ti_isAdjusting input of None \<Rightarrow> tx_isAdjusting t | Some a \<Rightarrow> a), tx_updatedAt := now\<rparr>"

definition delete_lines :: "(line_row \<Rightarrow> bool) \<Rightarrow> books \<Rightarrow> books" where
  "delete_lines P b = b\<lparr>bk_lines := filter (\<lambda>l. \<not> P l) (bk_lines b)\<rparr>"

text \<open>The kept lines take the tag and the description of their input line.\<close>

definition retag_lines :: "id \<Rightarrow> id option \<Rightarrow> (line_row \<times> line_input) list \<Rightarrow> books \<Rightarrow> books" where
  "retag_lines tenant contactTag ps b = b\<lparr>bk_lines := map (\<lambda>l. case map_of (map (\<lambda>(r, i). (jl_id r, i)) ps) (jl_id l) of
     None \<Rightarrow> l | Some i \<Rightarrow> if jl_tenant l \<noteq> tenant then l else
       l\<lparr>jl_tag := resolveDefaultTag (li_tag i) (li_bankRuleTag i) (li_aiSuggestedTag i) None contactTag,
         jl_description := or_null (li_description i)\<rparr>) (bk_lines b)\<rparr>"

definition reconciled_edit :: "request \<Rightarrow> id \<Rightarrow> txn_row \<Rightarrow> txn_input \<Rightarrow> id option \<Rightarrow> unit handler" where
  "reconciled_edit rq tenant existing input company = (let i = tx_id existing in
    cbind (cget (\<lambda>b. filter (\<lambda>l. \<not> jl_isVoidReversal l) (lines_of b tenant i))) (\<lambda>ls.
    cbind (cget (\<lambda>b a. isBalanceSheet b tenant a)) (\<lambda>bs.
    case (if tx_txnDate existing = ti_txnDate input then match_lines (filter (\<lambda>l. bs (jl_account l)) ls) (ti_lines input) else None) of
      None \<Rightarrow> cthrow (bad_request ''part of a completed bank reconciliation'')
    | Some (pairs, rest) \<Rightarrow> if list_ex (\<lambda>l. bs (li_account l)) rest then cthrow (bad_request ''part of a completed bank reconciliation'') else
      let pl = filter (\<lambda>l. \<not> bs (jl_account l)) ls in
      cbind (loadContactDefaultTagId rq tenant (ti_contact input)) (\<lambda>contactTag.
      cbind (cmod (retag_lines tenant contactTag pairs)) (\<lambda>_.
      cbind (cwhen (pl \<noteq> []) (cmod (\<lambda>b. delete_lines (\<lambda>l. jl_tenant l = tenant \<and> jl_id l \<in> jl_id ` set pl)
        (updateAccountBalances tenant (swapped pl) b)))) (\<lambda>_.
      let rows = map (\<lambda>r. r\<lparr>jl_lineOrder := length (filter (\<lambda>l. bs (jl_account l)) ls) + jl_lineOrder r\<rparr>)
        (new_lines tenant company i contactTag rest) in
      cbind (cwhen (rest \<noteq> []) (cmod (\<lambda>b. updateAccountBalances tenant (postings rest) (insert_lines rows b)))) (\<lambda>_.
      cbind (cmod (\<lambda>b. update_txn tenant i (edited_header input (bk_now b)) b)) (\<lambda>_.
      cbind (syncTransactionTagsFromLines rq tenant i (map (\<lambda>(r, l). new_line tenant company i contactTag 0 l) pairs @ rows)) (\<lambda>_.
      auditLog tenant ''update'' ''transaction'' i (rq_user rq))))))))))"

definition full_edit :: "request \<Rightarrow> id \<Rightarrow> txn_row \<Rightarrow> txn_input \<Rightarrow> id option \<Rightarrow> unit handler" where
  "full_edit rq tenant existing input company = (let i = tx_id existing; posted = (tx_status existing = Posted) in
    cbind (cget (\<lambda>b. lines_of b tenant i)) (\<lambda>originals.
    cbind (cwhen (originals \<noteq> [] \<and> posted) (cmod (updateAccountBalances tenant (swapped originals)))) (\<lambda>_.
    cbind (cmod (delete_lines (\<lambda>l. jl_tenant l = tenant \<and> jl_txn l = i))) (\<lambda>_.
    cbind (cmod (\<lambda>b. update_txn tenant i (\<lambda>t. (edited_header input (bk_now b) t)\<lparr>tx_txnDate := ti_txnDate input\<rparr>) b)) (\<lambda>_.
    cbind (loadContactDefaultTagId rq tenant (ti_contact input)) (\<lambda>contactTag.
    if ti_lines input = [] then cthrow (JsError ''values() must be called with at least one value'' []) else
    let rows = new_lines tenant company i contactTag (ti_lines input) in
    cbind (cmod (insert_lines rows)) (\<lambda>_.
    cbind (syncTransactionTagsFromLines rq tenant i rows) (\<lambda>_.
    cbind (cwhen posted (cmod (updateAccountBalances tenant (postings (ti_lines input))))) (\<lambda>_.
    auditLog tenant ''update'' ''transaction'' i (rq_user rq))))))))))"

definition or_else :: "'a option \<Rightarrow> 'a option \<Rightarrow> 'a option" where
  "or_else x y = (case x of None \<Rightarrow> y | Some a \<Rightarrow> Some a)"

text \<open>The closing dates of the old and the new date; one override is audited, with both dates.\<close>

definition check_edit_dates :: "request \<Rightarrow> id \<Rightarrow> txn_row \<Rightarrow> txn_input \<Rightarrow> id option \<Rightarrow> unit handler" where
  "check_edit_dates rq tenant existing input company = (let aje = (tx_txnType existing = ''aje'' \<or> ti_txnType input = ''aje'') in
    cbind (checkLockDate rq tenant (tx_txnDate existing) (tx_company existing) True aje None) (\<lambda>oldSide.
    cbind (if ti_txnDate input \<noteq> tx_txnDate existing
      then checkLockDate rq tenant (ti_txnDate input) (or_else company (tx_company existing)) True aje None else cret None) (\<lambda>newSide.
    case or_else oldSide newSide of None \<Rightarrow> cret () | Some ov \<Rightarrow> auditLockOverride rq tenant ov (Some (tx_id existing)))))"

definition AP_DOCUMENT_TYPES :: "string list" where
  "AP_DOCUMENT_TYPES = [''bill'', ''vendor_credit'', ''bill_payment'']"

definition updateTransaction :: "request \<Rightarrow> id \<Rightarrow> id \<Rightarrow> txn_input \<Rightarrow> id option \<Rightarrow> unit handler" where
  "updateTransaction rq tenant i input company = cbind (clift (assertBalanced (ti_lines input))) (\<lambda>_.
    cbind (cget (\<lambda>b. txn_of b tenant i)) (\<lambda>row. case row of None \<Rightarrow> cthrow NOT_FOUND | Some t \<Rightarrow>
    if tx_status t = Deleted \<or> inOtherCompany t company then cthrow NOT_FOUND
    else if tx_status t = Void then cthrow (bad_request ''Cannot update a void transaction'')
    else if tx_txnType t \<in> set AP_DOCUMENT_TYPES then cthrow (JsError ''TXN_EDIT_UNSUPPORTED'' [tx_txnType t])
    else if tx_txnType t = ''sales_tax_payment'' \<or> ti_txnType input = ''sales_tax_payment''
    then cthrow (JsError ''TXN_EDIT_UNSUPPORTED'' [''sales_tax_payment''])
    else if tx_txnType t = ''bad_debt_recovery'' \<or> ti_txnType input = ''bad_debt_recovery''
    then cthrow (JsError ''TXN_EDIT_UNSUPPORTED'' [''bad_debt_recovery''])
    else cbind (assertSalesTaxLinkUnchanged tenant t input) (\<lambda>_.
    cbind (check_edit_dates rq tenant t input company) (\<lambda>_.
    cbind (assertAccountsInScope tenant (or_else company (tx_company t)) (map li_account (ti_lines input))) (\<lambda>_.
    cbind (assertDepositedAmountKept tenant t input) (\<lambda>_.
    cbind (cget (cleared_lines tenant i)) (\<lambda>cleared.
    if cleared then reconciled_edit rq tenant t input company else full_edit rq tenant t input company)))))))"

subsection \<open>Posting a reversal\<close>

definition reversalMemo :: "txn_row \<Rightarrow> string" where
  "reversalMemo t = (case or_null (tx_txnNumber t) of Some n \<Rightarrow> ''Reverses JE '' @ n | None \<Rightarrow> ''Reverses JE of '' @ tx_txnDate t)"

definition reversal_lines :: "line_row list \<Rightarrow> line_input list" where
  "reversal_lines ls = map (\<lambda>l. \<lparr>li_account = jl_account l, li_debit = jl_credit l, li_credit = jl_debit l,
     li_description = jl_description l, li_tag = Some (jl_tag l), li_bankRuleTag = None, li_aiSuggestedTag = None, li_contact = jl_contact l\<rparr>)
     (filter (\<lambda>l. \<not> jl_isVoidReversal l) ls)"

definition postReversal :: "request \<Rightarrow> id \<Rightarrow> txn_row \<Rightarrow> line_row list \<Rightarrow> string \<Rightarrow> id option \<Rightarrow> id handler" where
  "postReversal rq tenant original ls reverseOn company = (if inOtherCompany original company then cthrow NOT_FOUND else
     postTransaction rq tenant \<lparr>ti_txnType = ''journal_entry'', ti_txnDate = reverseOn, ti_txnNumber = None, ti_status = None,
       ti_basis = Some (tx_basis original), ti_contact = None, ti_memo = Some (reversalMemo original),
       ti_isAdjusting = Some (tx_isAdjusting original), ti_reversesTransactionId = Some (tx_id original), ti_lines = reversal_lines ls\<rparr>
       (or_else (tx_company original) company))"

definition reversalContentKey :: "line_row \<Rightarrow> reversal_key \<times> string option" where
  "reversalContentKey l = (reversalLineKey l, or_null (jl_description l))"

definition reversalMatches :: "books \<Rightarrow> id \<Rightarrow> txn_row \<Rightarrow> txn_row \<Rightarrow> line_row list \<Rightarrow> string \<Rightarrow> bool" where
  "reversalMatches b tenant r original ls reverseOn \<longleftrightarrow> tx_txnDate r = reverseOn \<and> tx_memo r = Some (reversalMemo original) \<and>
     tx_basis r = tx_basis original \<and> tx_isAdjusting r = tx_isAdjusting original \<and>
     mset (map (reversalContentKey \<circ> swap_row) (filter (\<lambda>l. \<not> jl_isVoidReversal l) ls)) =
     mset (map reversalContentKey (filter (\<lambda>l. \<not> jl_isVoidReversal l) (lines_of b tenant (tx_id r))))"

end
