(* ===== verification/JournalEntries.thy ===== *)
theory JournalEntries
  imports Ledger
begin

section \<open>Journal entries (packages/api/src/services/journal-entry.service.ts, line-contacts.service.ts)\<close>

text \<open>
  Creating and editing a journal entry with its automatic reversal, in one database transaction.  \<open>je_reverseOn\<close>:
  \<open>None\<close> for a field that is not sent, \<open>Some None\<close> for null.
\<close>

record je_input =
  je_txnDate :: string
  je_txnNumber :: "string option"
  je_memo :: "string option"
  je_basis :: "string option"
  je_isAdjusting :: "bool option"
  je_reverseOn :: "string option option"
  je_lines :: "line_input list"

definition buildJournalEntryPayload :: "je_input \<Rightarrow> txn_input" where
  "buildJournalEntryPayload input = \<lparr>ti_txnType = ''journal_entry'', ti_txnDate = je_txnDate input,
     ti_txnNumber = (case je_txnNumber input of None \<Rightarrow> None | Some n \<Rightarrow> Some (or_null (Some (trim n)))), ti_status = None,
     ti_basis = (case je_basis input of None \<Rightarrow> Some ''both'' | Some s \<Rightarrow> Some s), ti_contact = None, ti_memo = je_memo input,
     ti_isAdjusting = je_isAdjusting input, ti_reversesTransactionId = None, ti_lines = je_lines input\<rparr>"

definition assertReverseOn :: "string \<Rightarrow> string option \<Rightarrow> unit result" where
  "assertReverseOn txnDate reverseOn = (case or_null reverseOn of None \<Rightarrow> Inr () | Some d \<Rightarrow>
     if txnDate < d then Inr () else Inl (JsError ''VALIDATION_ERROR'' []))"

definition assertContactsInScope :: "id \<Rightarrow> id option \<Rightarrow> id list \<Rightarrow> unit handler" where
  "assertContactsInScope tenant company contacts = (let ids = remdups contacts in if ids = [] then cret () else
     cbind (cget (\<lambda>b. filter (\<lambda>r. ct_tenant r = tenant \<and> ct_id r \<in> set ids) (bk_contacts b))) (\<lambda>rows.
     if length rows \<noteq> length ids \<or> company \<noteq> None \<and> list_ex (\<lambda>r. ct_company r \<noteq> None \<and> ct_company r \<noteq> company) rows
     then cthrow (JsError ''VALIDATION_ERROR'' []) else cret ()))"

definition CONTROL_TAGS :: "string list" where
  "CONTROL_TAGS = [''accounts_receivable'', ''accounts_payable'']"

definition control_accounts :: "id \<Rightarrow> books \<Rightarrow> id list" where
  "control_accounts tenant b = map ac_id (filter (\<lambda>a. ac_tenant a = tenant \<and>
     (ac_detailType a \<in> Some ` set CONTROL_TAGS \<or> ac_systemTag a \<in> Some ` set CONTROL_TAGS)) (bk_accounts b))"

definition assertJournalEntryNames :: "id \<Rightarrow> id option \<Rightarrow> line_input list \<Rightarrow> bool \<Rightarrow> unit handler" where
  "assertJournalEntryNames tenant company ls arApNames =
    cbind (assertContactsInScope tenant company (List.map_filter li_contact ls)) (\<lambda>_.
    if \<not> arApNames then cret () else
    cbind (cget (control_accounts tenant)) (\<lambda>control.
    if list_ex (\<lambda>l. li_account l \<in> set control \<and> li_contact l = None) ls then cthrow (JsError ''JE_AR_AP_NAME_REQUIRED'' []) else cret ()))"

definition loadEntry :: "id \<Rightarrow> id \<Rightarrow> (txn_row \<times> line_row list) handler" where
  "loadEntry tenant i = cbind (cget (\<lambda>b. txn_of b tenant i)) (\<lambda>t. case t of
     None \<Rightarrow> cthrow (bad_request ''Journal entry vanished while posting'')
   | Some t \<Rightarrow> cbind (cget (\<lambda>b. sort_key jl_lineOrder (lines_of b tenant i))) (\<lambda>ls. cret (t, ls)))"

text \<open>The entry's id and its reversal's.\<close>

definition createJournalEntry :: "request \<Rightarrow> id \<Rightarrow> je_input \<Rightarrow> id option \<Rightarrow> bool \<Rightarrow> (id \<times> id option) handler" where
  "createJournalEntry rq tenant input company arApNames = (let reverseOn = (case je_reverseOn input of None \<Rightarrow> None | Some d \<Rightarrow> or_null d) in
    cbind (clift (assertReverseOn (je_txnDate input) reverseOn)) (\<lambda>_.
    cbind (assertJournalEntryNames tenant company (je_lines input) arApNames) (\<lambda>_.
    cbind (postTransaction rq tenant (buildJournalEntryPayload input) company) (\<lambda>i.
    cbind (loadEntry tenant i) (\<lambda>(t, ls).
    case reverseOn of None \<Rightarrow> cret (i, None)
    | Some d \<Rightarrow> cbind (postReversal rq tenant t ls d company) (\<lambda>r. cret (i, Some r)))))))"

text \<open>
  The last part of \<open>updateJournalEntry\<close>: a reversal that still mirrors the entry stays; any other is deleted (if it is as it was
  posted) and a new one posted.
\<close>

definition bring_reversal :: "request \<Rightarrow> id \<Rightarrow> id \<Rightarrow> txn_row \<Rightarrow> line_row list \<Rightarrow> txn_row option \<Rightarrow> string option \<Rightarrow> line_row list \<Rightarrow>
    id option \<Rightarrow> (id \<times> id option) handler" where
  "bring_reversal rq tenant i t ls reversal target originals company =
    cbind (cget (\<lambda>b. case (reversal, target) of (Some r, Some d) \<Rightarrow> reversalMatches b tenant r t ls d | _ \<Rightarrow> False)) (\<lambda>kept.
    if kept then cret (i, map_option tx_id reversal) else
    cbind (case reversal of None \<Rightarrow> cret () | Some r \<Rightarrow> cbind (assertReversalUnchanged tenant r originals) (\<lambda>_.
      deleteTransactionInTx rq tenant (tx_id r) \<lparr>vo_expectedUpdatedAt = None, vo_expectType = None, vo_company = company\<rparr>)) (\<lambda>_.
    case target of None \<Rightarrow> cret (i, None)
    | Some d \<Rightarrow> cbind (postReversal rq tenant t ls d company) (\<lambda>r. cret (i, Some r))))"

definition updateJournalEntry :: "request \<Rightarrow> id \<Rightarrow> id \<Rightarrow> je_input \<Rightarrow> id option \<Rightarrow> (id \<times> id option) handler" where
  "updateJournalEntry rq tenant i input company =
    cbind (clift (case je_reverseOn input of None \<Rightarrow> Inr () | Some d \<Rightarrow> assertReverseOn (je_txnDate input) d)) (\<lambda>_.
    cbind (assertJournalEntryNames tenant company (je_lines input) True) (\<lambda>_.
    cbind (cget (\<lambda>b. txn_of b tenant i)) (\<lambda>row. case row of None \<Rightarrow> cthrow NOT_FOUND | Some existing \<Rightarrow>
    if inOtherCompany existing company then cthrow NOT_FOUND else
    cbind (cget (\<lambda>b. if tx_txnType existing = ''journal_entry'' \<and> tx_status existing = Posted then findLiveReversal tenant i b else None)) (\<lambda>reversal.
    let target = (case je_reverseOn input of None \<Rightarrow> map_option tx_txnDate reversal | Some d \<Rightarrow> or_null d) in
    cbind (clift (assertReverseOn (je_txnDate input) target)) (\<lambda>_.
    cbind (cget (\<lambda>b. if reversal = None then [] else lines_of b tenant i)) (\<lambda>originals.
    cbind (updateTransaction rq tenant i (buildJournalEntryPayload input) company) (\<lambda>_.
    cbind (loadEntry tenant i) (\<lambda>(t, ls).
    bring_reversal rq tenant i t ls reversal target originals company))))))))"

text \<open>The suggested number: one more than the greatest all-digit number of the company's entries.\<close>

definition nextJournalEntryNumber :: "id \<Rightarrow> id option \<Rightarrow> books \<Rightarrow> string" where
  "nextJournalEntryNumber tenant company b = (let ns = List.map_filter (\<lambda>t. case tx_txnNumber t of None \<Rightarrow> None
       | Some s \<Rightarrow> if s \<noteq> [] \<and> length s \<le> 19 \<and> list_all is_digit s then Some (nat_of_digits s) else None)
       (filter (\<lambda>t. tx_tenant t = tenant \<and> tx_txnType t = ''journal_entry'' \<and> (company = None \<or> tx_company t = company)) (bk_txns b)) in
     show_nat (fold max ns 0 + 1))"

end
