(* ===== verification/LedgerInvariant.thy ===== *)
theory LedgerInvariant
  imports JournalEntries
begin

section \<open>The invariant of the ledger\<close>

text \<open>
  The balance kept on an account row is the sum of the account's posted lines, and the lines of every transaction
  balance, in every state the handlers reach.
\<close>

subsection \<open>Amounts of scale 4\<close>

definition at4 :: "money \<Rightarrow> bool" where
  "at4 x \<longleftrightarrow> round4 x = x"

lemma at4_iff: "at4 x \<longleftrightarrow> (\<exists>i::int. x * 10 ^ 4 = of_int i)"
  unfolding at4_def round4_def using rnd_decimal [of 4 x] rnd_of_decimal [of x 4] by metis

lemma at4_arith [simp, intro]:
  "at4 0" "at4 (round4 x)" "at4 x \<Longrightarrow> at4 y \<Longrightarrow> at4 (x + y)" "at4 x \<Longrightarrow> at4 y \<Longrightarrow> at4 (x - y)" "at4 x \<Longrightarrow> at4 (- x)"
proof -
  show "at4 0" by (simp add: at4_def round4_def)
  show "at4 (round4 x)" by (simp add: at4_def round4_def)
  show "at4 (x + y)" if "at4 x" "at4 y"
  proof -
    from that obtain i j :: int where "x * 10 ^ 4 = of_int i" "y * 10 ^ 4 = of_int j" by (auto simp: at4_iff)
    then have "(x + y) * 10 ^ 4 = of_int (i + j)" by (simp add: algebra_simps)
    then show ?thesis unfolding at4_iff by blast
  qed
  show neg: "at4 (- x)" if "at4 x" for x :: money
  proof -
    from that obtain i :: int where "x * 10 ^ 4 = of_int i" by (auto simp: at4_iff)
    then have "- x * 10 ^ 4 = of_int (- i)" by simp
    then show ?thesis unfolding at4_iff by blast
  qed
  show "at4 (x - y)" if "at4 x" "at4 y"
  proof -
    from that obtain i j :: int where "x * 10 ^ 4 = of_int i" "y * 10 ^ 4 = of_int j" by (auto simp: at4_iff)
    then have "(x - y) * 10 ^ 4 = of_int (i - j)" by (simp add: algebra_simps)
    then show ?thesis unfolding at4_iff by blast
  qed
qed

lemma at4_sum: "(\<And>x. x \<in> set xs \<Longrightarrow> at4 (f x)) \<Longrightarrow> at4 (sum_list (map f xs))"
  by (induction xs) auto

lemma at4_round: "at4 x \<Longrightarrow> round4 x = x"
  by (simp add: at4_def)

subsection \<open>Net amounts of lines\<close>

definition acct_net :: "line_row list \<Rightarrow> id \<Rightarrow> money" where
  "acct_net ls a = sum_list (map (\<lambda>l. if jl_account l = a then jl_debit l - jl_credit l else 0) ls)"

definition line_ok :: "line_row \<Rightarrow> bool" where
  "line_ok l \<longleftrightarrow> at4 (jl_debit l) \<and> at4 (jl_credit l)"

lemma acct_net_simps [simp]:
  "acct_net [] a = 0" "acct_net (l # ls) a = (if jl_account l = a then jl_debit l - jl_credit l else 0) + acct_net ls a"
  "acct_net (ks @ ls) a = acct_net ks a + acct_net ls a"
  by (simp_all add: acct_net_def)

lemma acct_net_perm:
  assumes "mset ks = mset ls"
  shows "acct_net ks a = acct_net ls a"
proof -
  have "mset (map f ks) = mset (map f ls)" for f :: "line_row \<Rightarrow> money" using assms by simp
  then show ?thesis unfolding acct_net_def by (simp only: sum_mset_sum_list [symmetric])
qed

lemma acct_net_other: "(\<And>l. l \<in> set ls \<Longrightarrow> jl_account l \<noteq> a) \<Longrightarrow> acct_net ls a = 0"
  by (induction ls) auto

lemma at4_acct_net: "list_all line_ok ls \<Longrightarrow> at4 (acct_net ls a)"
  by (induction ls) (auto simp: line_ok_def)

lemma net_of_swapped: "net_of (swapped ls) a = - acct_net ls a"
  by (induction ls) (auto simp: swapped_def)

lemma acct_net_split: "acct_net ls a = acct_net (filter P ls) a + acct_net (filter (\<lambda>l. \<not> P l) ls) a"
  by (induction ls) auto

definition same_line :: "line_row \<Rightarrow> line_row \<Rightarrow> bool" where
  "same_line k l \<longleftrightarrow> jl_tenant k = jl_tenant l \<and> jl_txn k = jl_txn l \<and> jl_account k = jl_account l \<and>
     jl_debit k = jl_debit l \<and> jl_credit k = jl_credit l \<and> jl_isVoidReversal k = jl_isVoidReversal l"

lemma acct_net_same: "list_all2 same_line ks ls \<Longrightarrow> acct_net ks a = acct_net ls a"
  by (induction rule: list_all2_induct) (auto simp: same_line_def)

lemma debits_same: "list_all2 same_line ks ls \<Longrightarrow> debits ks = debits ls \<and> credits ks = credits ls"
  by (induction rule: list_all2_induct) (auto simp: same_line_def debits_def credits_def)

lemma debits_simps [simp]:
  "debits [] = 0" "debits (l # ls) = jl_debit l + debits ls" "debits (ks @ ls) = debits ks + debits ls"
  "credits [] = 0" "credits (l # ls) = jl_credit l + credits ls" "credits (ks @ ls) = credits ks + credits ls"
  by (simp_all add: debits_def credits_def)

subsection \<open>The invariant\<close>

definition posted_ids :: "books \<Rightarrow> id set" where
  "posted_ids b = tx_id ` {t \<in> set (bk_txns b). tx_status t = Posted}"

definition posted_net :: "books \<Rightarrow> id \<Rightarrow> money" where
  "posted_net b a = acct_net (filter (\<lambda>l. jl_txn l \<in> posted_ids b) (bk_lines b)) a"

definition txn_lines :: "id \<Rightarrow> books \<Rightarrow> line_row list" where
  "txn_lines i b = filter (\<lambda>l. jl_txn l = i) (bk_lines b)"

definition books_wf :: "books \<Rightarrow> bool" where
  "books_wf b \<longleftrightarrow> distinct (map tx_id (bk_txns b)) \<and> (\<forall>t \<in> set (bk_txns b). tx_id t < bk_nextId b) \<and>
     distinct (map ac_id (bk_accounts b)) \<and> distinct (map jl_id (bk_lines b)) \<and> (\<forall>l \<in> set (bk_lines b). jl_id l < bk_nextId b) \<and>
     (\<forall>l \<in> set (bk_lines b). line_ok l \<and> (\<exists>t \<in> set (bk_txns b). tx_id t = jl_txn l \<and> tx_tenant t = jl_tenant l) \<and>
       (\<exists>a \<in> set (bk_accounts b). ac_id a = jl_account l \<and> ac_tenant a = jl_tenant l))"

text \<open>The lines a document was entered with balance, and so do the lines a void or delete added.\<close>

definition half_of :: "bool \<Rightarrow> id \<Rightarrow> books \<Rightarrow> line_row list" where
  "half_of v i b = filter (\<lambda>l. jl_isVoidReversal l = v) (txn_lines i b)"

definition books_balanced :: "books \<Rightarrow> bool" where
  "books_balanced b \<longleftrightarrow> (\<forall>i v. debits (half_of v i b) = credits (half_of v i b))"

definition balances_current :: "books \<Rightarrow> bool" where
  "balances_current b \<longleftrightarrow> (\<forall>a \<in> set (bk_accounts b). ac_balance a = posted_net b (ac_id a))"

definition books_ok :: "books \<Rightarrow> bool" where
  "books_ok b \<longleftrightarrow> books_wf b \<and> books_balanced b \<and> balances_current b"

lemma books_ok_same: "same_books b b' \<Longrightarrow> books_ok b' = books_ok b"
  by (simp add: same_books_def books_ok_def books_wf_def books_balanced_def half_of_def balances_current_def posted_net_def posted_ids_def txn_lines_def)

lemma debits_split: "debits ls = debits (filter P ls) + debits (filter (\<lambda>l. \<not> P l) ls)"
    "credits ls = credits (filter P ls) + credits (filter (\<lambda>l. \<not> P l) ls)"
  by (induction ls) auto

lemma balanced_txn:
  assumes "books_balanced b"
  shows "debits (txn_lines i b) = credits (txn_lines i b)"
proof -
  have "debits (half_of v i b) = credits (half_of v i b)" for v using assms by (simp add: books_balanced_def)
  from this [of True] this [of False] show ?thesis
    unfolding debits_split [where P = jl_isVoidReversal and ls = "txn_lines i b"] by (simp add: half_of_def)
qed

lemma books_wfD:
  assumes "books_wf b" "l \<in> set (bk_lines b)"
  shows "line_ok l" "\<exists>t \<in> set (bk_txns b). tx_id t = jl_txn l \<and> tx_tenant t = jl_tenant l"
    "\<exists>a \<in> set (bk_accounts b). ac_id a = jl_account l \<and> ac_tenant a = jl_tenant l" "jl_id l < bk_nextId b" "jl_txn l < bk_nextId b"
  using assms by (fastforce simp: books_wf_def)+

lemma unique_id: "distinct (map f xs) \<Longrightarrow> x \<in> set xs \<Longrightarrow> y \<in> set xs \<Longrightarrow> f x = f y \<Longrightarrow> x = y"
  by (meson distinct_map inj_onD)

lemma unique_txn: "books_wf b \<Longrightarrow> t \<in> set (bk_txns b) \<Longrightarrow> u \<in> set (bk_txns b) \<Longrightarrow> tx_id t = tx_id u \<Longrightarrow> t = u"
  by (auto simp: books_wf_def intro: unique_id)

text \<open>The lines of a transaction are those of its tenant.\<close>

lemma lines_of_txn:
  assumes "books_wf b" "txn_of b tenant i = Some t"
  shows "lines_of b tenant i = txn_lines i b"
  unfolding lines_of_def txn_lines_def
proof (rule filter_cong [OF refl])
  fix l assume "l \<in> set (bk_lines b)"
  with books_wfD(2) [OF assms(1)] obtain u where "u \<in> set (bk_txns b)" "tx_id u = jl_txn l" "tx_tenant u = jl_tenant l" by blast
  with txn_of_SomeD [OF assms(2)] unique_txn [OF assms(1), of u t] show "(jl_tenant l = tenant \<and> jl_txn l = i) = (jl_txn l = i)" by auto
qed

lemma account_of_line:
  assumes "books_wf b" "l \<in> set (bk_lines b)" "a \<in> set (bk_accounts b)" "jl_account l = ac_id a"
  shows "jl_tenant l = ac_tenant a"
  using books_wfD(3) [OF assms(1,2)] assms by (auto simp: books_wf_def dest: unique_id)

text \<open>Accounts of other tenants are not on the lines of a tenant's transaction.\<close>

lemma net_other_tenant:
  assumes "books_wf b" "txn_of b tenant i = Some t" "a \<in> set (bk_accounts b)" "ac_tenant a \<noteq> tenant"
  shows "acct_net (txn_lines i b) (ac_id a) = 0"
proof (rule acct_net_other)
  fix l assume "l \<in> set (txn_lines i b)"
  then have "l \<in> set (lines_of b tenant i)" using lines_of_txn [OF assms(1,2)] by simp
  then show "jl_account l \<noteq> ac_id a" using account_of_line [OF assms(1) _ assms(3)] assms(4) by (auto simp: lines_of_def)
qed

lemma shift_ids: "map ac_id (shift_balances tenant f rs) = map ac_id rs" "map ac_tenant (shift_balances tenant f rs) = map ac_tenant rs"
  by (auto simp: shift_balances_def)

lemma shift_has: "(\<exists>a \<in> set (shift_balances tenant f rs). ac_id a = i \<and> ac_tenant a = t) \<longleftrightarrow> (\<exists>a \<in> set rs. ac_id a = i \<and> ac_tenant a = t)"
  by (induction rs) (auto simp: shift_balances_def)

subsection \<open>What each write keeps\<close>

text \<open>
  \<open>pending g b\<close>: the balances are current but for the amounts \<open>g\<close> still to be added.  Each write of a handler
  changes the lines, which changes what is pending, or the balances, which settles it.
\<close>

definition pending :: "(id \<Rightarrow> money) \<Rightarrow> books \<Rightarrow> bool" where
  "pending g b \<longleftrightarrow> (\<forall>a \<in> set (bk_accounts b). ac_balance a + g (ac_id a) = posted_net b (ac_id a))"

lemma balances_pending: "balances_current b = pending (\<lambda>_. 0) b"
  by (simp add: balances_current_def pending_def)

lemma pending_settled: "pending g b \<Longrightarrow> (\<And>a. g a = 0) \<Longrightarrow> balances_current b"
  by (simp add: balances_current_def pending_def)

lemma pending_cong: "pending g b \<Longrightarrow> (\<And>a. a \<in> set (bk_accounts b) \<Longrightarrow> g (ac_id a) = h (ac_id a)) \<Longrightarrow> pending h b"
  by (simp add: pending_def)

subsubsection \<open>Inserting lines\<close>

definition numbered :: "nat \<Rightarrow> line_row list \<Rightarrow> line_row list" where
  "numbered n rows = map (\<lambda>(k, l). l\<lparr>jl_id := n + k\<rparr>) (enumerate 0 rows)"

lemma numbered_from: "map (\<lambda>(k, l). l\<lparr>jl_id := n + k\<rparr>) (enumerate m rows) = map (\<lambda>(k, l). l\<lparr>jl_id := n + m + k\<rparr>) (enumerate 0 rows)"
proof -
  have "map (\<lambda>(k, l). l\<lparr>jl_id := n + k\<rparr>) (enumerate (m + j) rows) = map (\<lambda>(k, l). l\<lparr>jl_id := n + m + k\<rparr>) (enumerate j rows)" for j
    by (induction rows arbitrary: j) (simp_all del: add_Suc_right add: add_Suc_right [symmetric] add.assoc)
  from this [of 0] show ?thesis by simp
qed

lemma numbered_simps [simp]: "numbered n [] = []" "numbered n (l # rows) = l\<lparr>jl_id := n\<rparr> # numbered (Suc n) rows"
  using numbered_from [of n 1 rows] by (simp_all add: numbered_def)

lemma numbered_ids: "map jl_id (numbered n rows) = [n..<n + length rows]"
  by (induction rows arbitrary: n) (simp_all add: upt_conv_Cons del: upt_Suc)

lemma numbered_same: "list_all2 same_line (numbered n rows) rows"
  by (induction rows arbitrary: n) (simp_all add: same_line_def)

lemma insert_lines_eq: "insert_lines rows b = b\<lparr>bk_lines := bk_lines b @ numbered (bk_nextId b) rows, bk_nextId := bk_nextId b + length rows\<rparr>"
  by (simp add: insert_lines_def numbered_def)

lemma numbered_row: "l \<in> set (numbered n rows) \<Longrightarrow> \<exists>r \<in> set rows. same_line l r"
  using numbered_same [of n rows] by (fastforce simp: list_all2_conv_all_nth in_set_conv_nth)

lemma numbered_txn: "\<forall>l \<in> set rows. jl_txn l = i \<Longrightarrow> \<forall>l \<in> set (numbered n rows). jl_txn l = i"
  by (induction rows arbitrary: n) auto

lemma acct_net_numbered [simp]: "acct_net (numbered n rows) a = acct_net rows a"
  by (rule acct_net_same [OF numbered_same])

definition row_fits :: "books \<Rightarrow> id \<Rightarrow> line_row \<Rightarrow> bool" where
  "row_fits b i l \<longleftrightarrow> jl_txn l = i \<and> line_ok l \<and> (\<exists>t \<in> set (bk_txns b). tx_id t = i \<and> tx_tenant t = jl_tenant l) \<and>
     (\<exists>a \<in> set (bk_accounts b). ac_id a = jl_account l \<and> ac_tenant a = jl_tenant l)"

lemma row_fits_same: "same_line k l \<Longrightarrow> row_fits b i l \<Longrightarrow> row_fits b i k"
  by (simp add: same_line_def row_fits_def line_ok_def)

lemma insert_lines_wf:
  assumes "books_wf b" "\<forall>l \<in> set rows. row_fits b i l"
  shows "books_wf (insert_lines rows b)"
proof -
  let ?n = "bk_nextId b" and ?k = "numbered (bk_nextId b) rows"
  have ids: "set (map jl_id ?k) = {?n..<?n + length rows}" "distinct (map jl_id ?k)" by (simp_all only: numbered_ids set_upt distinct_upt)
  then have range: "jl_id l \<in> {?n..<?n + length rows}" if "l \<in> set ?k" for l using that by (auto simp del: atLeastLessThan_iff)
  have fits: "row_fits b i l" if "l \<in> set ?k" for l using numbered_row [OF that] assms(2) row_fits_same by blast
  have "distinct (map jl_id (bk_lines b @ ?k))"
    using assms(1) ids range by (fastforce simp: books_wf_def)
  moreover have "\<forall>l \<in> set (bk_lines b @ ?k). jl_id l < ?n + length rows" using assms(1) range by (fastforce simp: books_wf_def)
  ultimately show ?thesis using assms(1) fits by (fastforce simp: books_wf_def insert_lines_eq row_fits_def)
qed

lemma insert_lines_balanced:
  assumes "books_balanced b" "\<forall>l \<in> set rows. jl_txn l = i" "\<forall>l \<in> set rows. jl_isVoidReversal l = w" "debits rows = credits rows"
  shows "books_balanced (insert_lines rows b)"
proof -
  have same: "\<forall>l \<in> set (numbered n rows). jl_txn l = i \<and> jl_isVoidReversal l = w" for n
    using assms(2,3) by (induction rows arbitrary: n) auto
  have "filter (\<lambda>l. jl_txn l = j \<and> jl_isVoidReversal l = v) (numbered n rows) = (if j = i \<and> v = w then numbered n rows else [])" for j n v
    using same [of n] by (auto simp: filter_empty_conv filter_id_conv)
  moreover have "debits (numbered n rows) = credits (numbered n rows)" for n using debits_same [OF numbered_same] assms(4) by simp
  ultimately show ?thesis
    using assms(1) by (simp add: books_balanced_def half_of_def txn_lines_def insert_lines_eq)
qed

lemma pending_insert:
  assumes "pending g b" "\<forall>l \<in> set rows. jl_txn l = i"
  shows "pending (\<lambda>a. g a + (if i \<in> posted_ids b then acct_net rows a else 0)) (insert_lines rows b)"
proof -
  have "filter (\<lambda>l. jl_txn l \<in> posted_ids b) (numbered n rows) = (if i \<in> posted_ids b then numbered n rows else [])" for n
    using numbered_txn [OF assms(2)] by (auto simp: filter_empty_conv filter_id_conv)
  then show ?thesis using assms(1) by (simp add: pending_def posted_net_def posted_ids_def insert_lines_eq)
qed

subsubsection \<open>Balances, headers, deletions\<close>

lemma balances_keep [simp]:
  "posted_ids (updateAccountBalances tenant ps b) = posted_ids b" "txn_lines i (updateAccountBalances tenant ps b) = txn_lines i b"
  "posted_net (updateAccountBalances tenant ps b) a = posted_net b a" "books_balanced (updateAccountBalances tenant ps b) = books_balanced b"
  "bk_txns (updateAccountBalances tenant ps b) = bk_txns b" "bk_lines (updateAccountBalances tenant ps b) = bk_lines b"
  "txn_of (updateAccountBalances tenant ps b) t i = txn_of b t i"
  by (simp_all add: updateAccountBalances_eq posted_ids_def txn_lines_def posted_net_def books_balanced_def half_of_def txn_of_def)

lemma balances_wf [simp]: "books_wf (updateAccountBalances tenant ps b) = books_wf b"
  by (simp add: updateAccountBalances_eq books_wf_def shift_ids shift_has)

lemma pending_balances:
  assumes "pending g b" "\<And>a. a \<in> set (bk_accounts b) \<Longrightarrow> ac_tenant a \<noteq> tenant \<Longrightarrow> net_of ps (ac_id a) = 0" "\<And>a. at4 (net_of ps a)"
  shows "pending (\<lambda>a. g a - net_of ps a) (updateAccountBalances tenant ps b)"
proof -
  have "posted_net (updateAccountBalances tenant ps b) a = posted_net b a" for a by simp
  then show ?thesis
    using assms at4_round [OF assms(3)] unfolding pending_def by (auto simp: updateAccountBalances_eq shift_balances_def)
qed

lemma map_txns_wf:
  assumes "books_wf b" "\<And>t. tx_id (g t) = tx_id t \<and> tx_tenant (g t) = tx_tenant t"
  shows "books_wf (b\<lparr>bk_txns := map g (bk_txns b)\<rparr>)"
  using assms by (simp add: books_wf_def o_def)

lemma update_txn_wf:
  assumes "books_wf b" "\<And>t. tx_id (f t) = tx_id t \<and> tx_tenant (f t) = tx_tenant t"
  shows "books_wf (update_txn tenant i f b)"
  unfolding update_txn_def by (rule map_txns_wf [OF assms(1)]) (simp add: assms(2))

lemma update_txn_keeps [simp]:
  "bk_lines (update_txn tenant i f b) = bk_lines b" "bk_accounts (update_txn tenant i f b) = bk_accounts b"
  "txn_lines j (update_txn tenant i f b) = txn_lines j b" "books_balanced (update_txn tenant i f b) = books_balanced b"
  by (simp_all add: update_txn_def txn_lines_def books_balanced_def half_of_def)

text \<open>A header change that keeps the status keeps what is posted; one that takes a posted document back takes its lines back.\<close>

lemma posted_ids_set: "posted_ids b = set (map tx_id (filter (\<lambda>t. tx_status t = Posted) (bk_txns b)))"
  by (simp add: posted_ids_def)

lemma posted_ids_header:
  assumes "\<And>t. tx_id (f t) = tx_id t \<and> tx_status (f t) = tx_status t"
  shows "posted_ids (update_txn tenant i f b) = posted_ids b"
proof -
  have mapped: "posted_ids (b\<lparr>bk_txns := map g (bk_txns b)\<rparr>) = posted_ids b"
    if "\<And>t. tx_id (g t) = tx_id t \<and> tx_status (g t) = tx_status t" for g
    by (simp add: posted_ids_set filter_map o_def that)
  show ?thesis unfolding update_txn_def by (rule mapped) (simp add: assms)
qed

lemma posted_ids_taken_back:
  assumes "books_wf b" "txn_of b tenant i = Some t" "\<And>t. tx_id (f t) = tx_id t \<and> tx_status (f t) \<noteq> Posted"
  shows "posted_ids (update_txn tenant i f b) = posted_ids b - {i}"
proof -
  have "tx_tenant u = tenant" if "u \<in> set (bk_txns b)" "tx_id u = i" for u
    using unique_txn [OF assms(1) that(1), of t] that(2) txn_of_SomeD [OF assms(2)] by auto
  then have "j \<in> posted_ids (update_txn tenant i f b) \<longleftrightarrow> (\<exists>u \<in> set (bk_txns b). tx_id u \<noteq> i \<and> tx_id u = j \<and> tx_status u = Posted)" for j
    using assms(3) by (auto simp: posted_ids_def update_txn_def split: if_splits)
  moreover have "j \<in> posted_ids b - {i} \<longleftrightarrow> (\<exists>u \<in> set (bk_txns b). tx_id u \<noteq> i \<and> tx_id u = j \<and> tx_status u = Posted)" for j
    by (auto simp: posted_ids_def)
  ultimately show ?thesis by (simp add: set_eq_iff)
qed

lemma pending_header:
  assumes "pending g b" "posted_ids (update_txn tenant i f b) = posted_ids b"
  shows "pending g (update_txn tenant i f b)"
  using assms by (simp add: pending_def posted_net_def)

lemma pending_taken_back:
  assumes "pending g b" "posted_ids (update_txn tenant i f b) = posted_ids b - {i}" "i \<in> posted_ids b"
  shows "pending (\<lambda>a. g a - acct_net (txn_lines i b) a) (update_txn tenant i f b)"
proof -
  have "acct_net (filter (\<lambda>l. jl_txn l \<in> posted_ids b) ls) a =
      acct_net (filter (\<lambda>l. jl_txn l \<in> posted_ids b - {i}) ls) a + acct_net (filter (\<lambda>l. jl_txn l = i) ls) a" for ls a
    using assms(3) by (induction ls) auto
  from this [of "bk_lines b"] show ?thesis
    using assms(1) unfolding pending_def posted_net_def assms(2) txn_lines_def update_txn_keeps by (simp only: algebra_simps)
qed

lemma insert_txn_wf:
  assumes "books_wf b" "tx_id t = bk_nextId b"
  shows "books_wf (insert_txn t b)"
  using assms by (fastforce simp: books_wf_def insert_txn_def)

lemma pending_insert_txn:
  assumes "books_wf b" "tx_id t = bk_nextId b" "pending g b"
  shows "pending g (insert_txn t b)"
proof -
  have "filter (\<lambda>l. jl_txn l \<in> posted_ids (insert_txn t b)) (bk_lines b) = filter (\<lambda>l. jl_txn l \<in> posted_ids b) (bk_lines b)"
    using books_wfD(5) [OF assms(1)] assms(2) by (intro filter_cong) (fastforce simp: posted_ids_def insert_txn_def)+
  then show ?thesis using assms(3) by (simp add: pending_def posted_net_def insert_txn_def)
qed

lemma delete_lines_wf: "books_wf b \<Longrightarrow> books_wf (delete_lines P b)"
  by (auto simp: books_wf_def delete_lines_def distinct_map_filter)

lemma posted_delete: "posted_ids (delete_lines P b) = posted_ids b"
  by (simp add: posted_ids_def delete_lines_def)

lemma pending_delete_lines:
  assumes "pending g b" "\<forall>l \<in> set (bk_lines b). P l \<longrightarrow> jl_txn l = i"
  shows "pending (\<lambda>a. g a - (if i \<in> posted_ids b then acct_net (filter P (bk_lines b)) a else 0)) (delete_lines P b)"
proof -
  have "acct_net (filter (\<lambda>l. jl_txn l \<in> posted_ids b) ls) a = acct_net (filter (\<lambda>l. jl_txn l \<in> posted_ids b) (filter (\<lambda>l. \<not> P l) ls)) a +
      (if i \<in> posted_ids b then acct_net (filter P ls) a else 0)" if "\<forall>l \<in> set ls. P l \<longrightarrow> jl_txn l = i" for ls a
    using that by (induction ls) auto
  from this [OF assms(2)] show ?thesis
    using assms(1) unfolding pending_def posted_net_def posted_delete unfolding delete_lines_def
    by (simp add: algebra_simps del: filter_filter)
qed

subsection \<open>Posting keeps the invariant\<close>

definition scaled_lines :: "line_input list \<Rightarrow> bool" where
  "scaled_lines ls \<longleftrightarrow> (\<forall>l \<in> set ls. at4 (li_debit l) \<and> at4 (li_credit l))"

definition rows_from :: "id \<Rightarrow> id option \<Rightarrow> id \<Rightarrow> id option \<Rightarrow> nat \<Rightarrow> line_input list \<Rightarrow> line_row list" where
  "rows_from tenant company i tag n ls = map (\<lambda>(k, l). new_line tenant company i tag k l) (enumerate n ls)"

lemma rows_from_simps [simp]:
  "rows_from tenant company i tag n [] = []"
  "rows_from tenant company i tag n (l # ls) = new_line tenant company i tag n l # rows_from tenant company i tag (Suc n) ls"
  by (simp_all add: rows_from_def)

lemma new_lines_rows: "new_lines tenant company i tag ls = rows_from tenant company i tag 0 ls"
  by (simp add: rows_from_def new_lines_def)

lemma rows_from_set: "r \<in> set (rows_from tenant company i tag n ls) \<Longrightarrow> \<exists>l \<in> set ls. \<exists>k. r = new_line tenant company i tag k l"
  by (induction ls arbitrary: n) auto

lemma rows_entered: "\<forall>r \<in> set (rows_from tenant company i tag n ls). jl_isVoidReversal r = False"
  by (induction ls arbitrary: n) (auto simp: new_line_def)

lemma rows_net: "scaled_lines ls \<Longrightarrow> acct_net (rows_from tenant company i tag n ls) a = net_of (postings ls) a"
  by (induction ls arbitrary: n) (auto simp: postings_def new_line_def scaled_lines_def at4_def)

lemma rows_debits:
  "debits (rows_from tenant company i tag n ls) = sum_list (map (round4 \<circ> li_debit) ls)"
  "credits (rows_from tenant company i tag n ls) = sum_list (map (round4 \<circ> li_credit) ls)"
  by (induction ls arbitrary: n) (simp_all add: new_line_def)

lemma postings_net: "net_of (postings ls) a = sum_list (map (\<lambda>l. if li_account l = a then li_debit l - li_credit l else 0) ls)"
  by (induction ls) (simp_all add: postings_def)

lemma postings_at4: "scaled_lines ls \<Longrightarrow> at4 (net_of (postings ls) a)"
  by (induction ls) (auto simp: postings_def scaled_lines_def)

lemma assertBalanced_sums:
  assumes "assertBalanced ls = Inr p"
  shows "sum_list (map (round4 \<circ> li_debit) ls) = sum_list (map (round4 \<circ> li_credit) ls)"
proof -
  have "fold (\<lambda>l (d, c). (d + round4 (li_debit l), c + round4 (li_credit l))) ls (d, c) =
      (d + sum_list (map (round4 \<circ> li_debit) ls), c + sum_list (map (round4 \<circ> li_credit) ls))" for d c
    by (induction ls arbitrary: d c) (simp_all add: add.assoc)
  from this [of 0 0] assms show ?thesis by (simp add: assertBalanced_def split: if_splits)
qed

text \<open>The accounts of the lines are accounts of the tenant.\<close>

definition accounts_known :: "books \<Rightarrow> id \<Rightarrow> id set \<Rightarrow> bool" where
  "accounts_known b tenant as \<longleftrightarrow> (\<forall>i \<in> as. \<exists>a \<in> set (bk_accounts b). ac_id a = i \<and> ac_tenant a = tenant)"

lemma accounts_in_scope:
  assumes "assertAccountsInScope tenant company as b = Inr (u, b')" "distinct (map ac_id (bk_accounts b))"
  shows "accounts_known b tenant (set as)"
proof (cases "as = []")
  case False
  let ?rows = "filter (\<lambda>r. ac_tenant r = tenant \<and> ac_id r \<in> set as) (bk_accounts b)"
  from assms(1) False have len: "length ?rows = length (remdups as)"
    by (auto simp: assertAccountsInScope_def cbind_apply Let_def split: if_splits)
  have dist: "distinct (map ac_id ?rows)" using assms(2) by (simp add: distinct_map_filter)
  have "card (ac_id ` set ?rows) = card (set as)"
    using distinct_card [OF dist] len unfolding set_map length_map length_remdups_card_conv by (rule trans)
  moreover have "ac_id ` set ?rows \<subseteq> set as" by auto
  ultimately have "ac_id ` set ?rows = set as" by (intro card_subset_eq) auto
  then show ?thesis by (force simp: accounts_known_def)
qed (simp add: accounts_known_def)

lemma rows_fit:
  assumes "accounts_known b tenant (li_account ` set ls)" "txn_of b tenant i = Some t"
  shows "\<forall>r \<in> set (rows_from tenant company i tag n ls). row_fits b i r"
proof
  fix r assume "r \<in> set (rows_from tenant company i tag n ls)"
  then obtain l k where l: "l \<in> set ls" "r = new_line tenant company i tag k l" using rows_from_set by blast
  with assms(1) have "\<exists>a \<in> set (bk_accounts b). ac_id a = li_account l \<and> ac_tenant a = tenant" by (simp add: accounts_known_def)
  with l txn_of_SomeD [OF assms(2)] show "row_fits b i r" by (auto simp: row_fits_def new_line_def line_ok_def)
qed

lemma postings_other_tenant:
  assumes "books_wf b" "accounts_known b tenant (li_account ` set ls)" "a \<in> set (bk_accounts b)" "ac_tenant a \<noteq> tenant"
  shows "net_of (postings ls) (ac_id a) = 0"
proof -
  have "li_account l \<noteq> ac_id a" if "l \<in> set ls" for l
    using assms that unique_id [of ac_id "bk_accounts b"] by (fastforce simp: accounts_known_def books_wf_def)
  then show ?thesis by (induction ls) (auto simp: postings_def)
qed

definition post_books :: "id \<Rightarrow> id option \<Rightarrow> id option \<Rightarrow> line_input list \<Rightarrow> txn_row \<Rightarrow> books \<Rightarrow> books" where
  "post_books tenant company tag ls t b = (let b' = insert_lines (new_lines tenant company (tx_id t) tag ls) (insert_txn t b) in
     if tx_status t = Posted then updateAccountBalances tenant (postings ls) b' else b')"

lemma same_post_books: "same_books a b \<Longrightarrow> same_books (post_books tenant company tag ls t a) (post_books tenant company tag ls t b)"
  by (simp add: same_books_def post_books_def updateAccountBalances_eq insert_lines_def insert_txn_def Let_def)

lemma cwhen_cmod: "cbind (cwhen P (cmod f)) h b = h () (if P then f b else b)"
  by (simp add: cbind_apply cwhen_def)

lemma postTransactionE:
  assumes "postTransaction rq tenant input company b = Inr (i, b')"
  obtains t tag b0 where "t = new_txn tenant company input (bk_nextId b) (bk_now b)" "i = tx_id t"
    "\<exists>p. assertBalanced (ti_lines input) = Inr p"
    "\<exists>ov. checkLockDate rq tenant (ti_txnDate input) company True (ti_txnType input = ''aje'') None b = Inr (ov, b0)"
    "\<exists>u b1. assertAccountsInScope tenant company (map li_account (ti_lines input)) b0 = Inr (u, b1)" "same_books b b0"
    "same_books (post_books tenant company tag (ti_lines input) t b) b'"
proof -
  let ?ls = "ti_lines input"
  from assms obtain d c ov b0 b1 tag b3 b4 where
    guards: "assertBalanced ?ls = Inr (d, c)" "checkLockDate rq tenant (ti_txnDate input) company True (ti_txnType input = ''aje'') None b = Inr (ov, b0)"
      "assertAccountsInScope tenant company (map li_account ?ls) b0 = Inr ((), b1)"
    and t: "i = tx_id (new_txn tenant company input (bk_nextId b1) (bk_now b1))"
    and tag: "loadContactDefaultTagId rq tenant (ti_contact input) (insert_txn (new_txn tenant company input (bk_nextId b1) (bk_now b1)) b1) = Inr (tag, b3)"
    and sync: "syncTransactionTagsFromLines rq tenant i (new_lines tenant company i tag ?ls) (insert_lines (new_lines tenant company i tag ?ls) b3) = Inr ((), b4)"
    and rest: "(cbind (cwhen (tx_status (new_txn tenant company input (bk_nextId b1) (bk_now b1)) = Posted) (cmod (updateAccountBalances tenant (postings ?ls)))) (\<lambda>_.
      cbind (auditLog tenant ''create'' ''transaction'' i (rq_user rq)) (\<lambda>_.
      cbind (case ov of None \<Rightarrow> cret () | Some ov \<Rightarrow> auditLockOverride rq tenant ov (Some i)) (\<lambda>_. cret i)))) b4 = Inr (i, b')"
    unfolding postTransaction_def Let_def by (auto simp: cbind_apply ebind_Inr_iff split: if_splits)
  have same: "same_books b b0" "same_books b b1"
    using reads_onlyD [OF reads_only_guards(3) guards(2)] reads_onlyD [OF reads_only_guards(4) guards(3)] by (auto intro: same_books_trans)
  define t' where "t' = new_txn tenant company input (bk_nextId b) (bk_now b)"
  have t': "new_txn tenant company input (bk_nextId b1) (bk_now b1) = t'" using same(2) by (simp add: t'_def same_books_def)
  have s3: "same_books (insert_txn t' b) b3"
    using reads_onlyD [OF reads_only_guards(5) tag] same(2) unfolding t' by (auto simp: same_books_def insert_txn_def)
  have s4: "same_books (insert_lines (new_lines tenant company i tag ?ls) (insert_txn t' b)) b4"
    using reads_onlyD [OF reads_only_sync(1) sync] s3 by (auto simp: same_books_def insert_lines_def)
  have "reads_only (cbind (auditLog tenant ''create'' ''transaction'' i (rq_user rq)) (\<lambda>_.
      cbind (case ov of None \<Rightarrow> cret () | Some ov \<Rightarrow> auditLockOverride rq tenant ov (Some i)) (\<lambda>_. cret i)))" by (intro reads)
  from reads_onlyD [OF this rest [unfolded cwhen_cmod t']] s4 have "same_books (post_books tenant company tag ?ls t' b) b'"
    using t unfolding t' by (auto simp: post_books_def Let_def updateAccountBalances_eq same_books_def)
  with guards same t show thesis unfolding t' by (intro that [of t' b0 tag]) (auto simp: t'_def)
qed

lemma txn_of_fresh:
  assumes "books_wf b" "tx_id t = bk_nextId b"
  shows "txn_of (insert_txn t b) (tx_tenant t) (tx_id t) = Some t"
proof -
  have "find (\<lambda>u. tx_tenant u = tx_tenant t \<and> tx_id u = tx_id t) (bk_txns b) = None"
    using assms by (fastforce simp: find_None_iff books_wf_def)
  moreover have "find P (xs @ ys) = (case find P xs of None \<Rightarrow> find P ys | Some x \<Rightarrow> Some x)" for P and xs ys :: "txn_row list"
    by (induction xs) auto
  ultimately show ?thesis by (simp add: txn_of_def insert_txn_def)
qed

lemma insert_txn_keeps [simp]:
  "bk_lines (insert_txn t b) = bk_lines b" "bk_accounts (insert_txn t b) = bk_accounts b" "txn_lines i (insert_txn t b) = txn_lines i b"
  "books_balanced (insert_txn t b) = books_balanced b"
  by (simp_all add: insert_txn_def txn_lines_def books_balanced_def half_of_def)

lemma insert_lines_keeps [simp]:
  "bk_accounts (insert_lines rows b) = bk_accounts b" "bk_txns (insert_lines rows b) = bk_txns b"
  "posted_ids (insert_lines rows b) = posted_ids b" "txn_of (insert_lines rows b) tenant i = txn_of b tenant i"
  by (simp_all add: insert_lines_def posted_ids_def txn_of_def)

lemma post_books_ok:
  assumes ok: "books_ok b" and t: "tx_id t = bk_nextId b" "tx_tenant t = tenant"
    and lines: "scaled_lines ls" "assertBalanced ls = Inr p" "accounts_known b tenant (li_account ` set ls)"
  shows "books_ok (post_books tenant company tag ls t b)"
proof -
  let ?c = "insert_txn t b" and ?rows = "rows_from tenant company (tx_id t) tag 0 ls"
  from ok have wf: "books_wf b" "books_wf ?c" and bal: "books_balanced ?c" and pend: "pending (\<lambda>_. 0) ?c"
    using t insert_txn_wf pending_insert_txn by (auto simp: books_ok_def balances_pending)
  have known: "accounts_known ?c tenant (li_account ` set ls)" using lines(3) by (simp add: accounts_known_def)
  have fit: "\<forall>r \<in> set ?rows. row_fits ?c (tx_id t) r"
    using rows_fit [OF known] txn_of_fresh [OF wf(1) t(1)] t(2) by simp
  then have txn: "\<forall>r \<in> set ?rows. jl_txn r = tx_id t" by (simp add: row_fits_def)
  have "debits ?rows = credits ?rows" using assertBalanced_sums [OF lines(2)] by (simp add: rows_debits)
  then have new: "books_wf (insert_lines ?rows ?c)" "books_balanced (insert_lines ?rows ?c)"
    using insert_lines_wf [OF wf(2) fit] insert_lines_balanced [OF bal txn rows_entered] by auto
  have old: "tx_id u \<noteq> tx_id t" if "u \<in> set (bk_txns b)" for u using wf(1) t(1) that by (fastforce simp: books_wf_def)
  have posted: "tx_id t \<in> posted_ids ?c \<longleftrightarrow> tx_status t = Posted"
    by (auto simp: posted_ids_def insert_txn_def dest: old)
  have pend': "pending (\<lambda>a. if tx_status t = Posted then net_of (postings ls) a else 0) (insert_lines ?rows ?c)"
    using pending_insert [OF pend txn] rows_net [OF lines(1)] by (simp add: posted cong: if_cong)
  have other: "net_of (postings ls) (ac_id a) = 0" if "a \<in> set (bk_accounts b)" "ac_tenant a \<noteq> tenant" for a
    using postings_other_tenant [OF wf(1) lines(3) that] .
  show ?thesis
  proof (cases "tx_status t = Posted")
    case True
    have "pending (\<lambda>a. net_of (postings ls) a - net_of (postings ls) a) (updateAccountBalances tenant (postings ls) (insert_lines ?rows ?c))"
      by (rule pending_balances) (use pend' True other postings_at4 [OF lines(1)] in \<open>simp_all\<close>)
    with True new show ?thesis by (simp add: books_ok_def post_books_def new_lines_rows balances_pending Let_def)
  next
    case False
    with pend' new show ?thesis by (simp add: books_ok_def post_books_def new_lines_rows balances_pending Let_def)
  qed
qed

lemma postTransaction_ok:
  assumes "postTransaction rq tenant input company b = Inr (i, b')" "books_ok b" "scaled_lines (ti_lines input)"
  shows "books_ok b'"
  using assms(1)
proof (rule postTransactionE)
  fix t tag b0
  assume t: "t = new_txn tenant company input (bk_nextId b) (bk_now b)" and bal: "\<exists>p. assertBalanced (ti_lines input) = Inr p"
    and scope: "\<exists>u b1. assertAccountsInScope tenant company (map li_account (ti_lines input)) b0 = Inr (u, b1)" and same: "same_books b b0"
    and run: "same_books (post_books tenant company tag (ti_lines input) t b) b'"
  from scope same assms(2) have "accounts_known b tenant (li_account ` set (ti_lines input))"
    using accounts_in_scope by (fastforce simp: same_books_def books_ok_def books_wf_def accounts_known_def)
  moreover from bal obtain p where "assertBalanced (ti_lines input) = Inr p" by blast
  moreover have "tx_id t = bk_nextId b" "tx_tenant t = tenant" by (simp_all add: t new_txn_def)
  ultimately have "books_ok (post_books tenant company tag (ti_lines input) t b)"
    using assms(2,3) by (intro post_books_ok)
  then show ?thesis using books_ok_same [OF run] by simp
qed

subsection \<open>Voiding and deleting keep the invariant\<close>

lemma reversal_rows_from:
  "\<forall>r \<in> set (reversal_rows prefix tenant i ls). jl_txn r = i \<and> jl_tenant r = tenant \<and>
     (\<exists>l \<in> set ls. jl_account r = jl_account l \<and> jl_debit r = jl_credit l \<and> jl_credit r = jl_debit l)"
  "debits (reversal_rows prefix tenant i ls) = credits ls" "credits (reversal_rows prefix tenant i ls) = debits ls"
proof -
  let ?f = "\<lambda>n k l. \<lparr>jl_id = 0, jl_tenant = tenant, jl_company = jl_company l, jl_txn = i, jl_account = jl_account l,
       jl_debit = jl_credit l, jl_credit = jl_debit l,
       jl_description = Some (trim (prefix @ (case jl_description l of None \<Rightarrow> [] | Some s \<Rightarrow> s))),
       jl_tag = jl_tag l, jl_contact = jl_contact l, jl_lineOrder = n + 1 + k, jl_isVoidReversal = True\<rparr>"
  have "(\<forall>r \<in> set (map (\<lambda>(k, l). ?f n k l) (enumerate m ls)). jl_txn r = i \<and> jl_tenant r = tenant \<and>
     (\<exists>l \<in> set ls. jl_account r = jl_account l \<and> jl_debit r = jl_credit l \<and> jl_credit r = jl_debit l)) \<and>
     debits (map (\<lambda>(k, l). ?f n k l) (enumerate m ls)) = credits ls \<and> credits (map (\<lambda>(k, l). ?f n k l) (enumerate m ls)) = debits ls" for n m
    by (induction ls arbitrary: m) auto
  then show "\<forall>r \<in> set (reversal_rows prefix tenant i ls). jl_txn r = i \<and> jl_tenant r = tenant \<and>
     (\<exists>l \<in> set ls. jl_account r = jl_account l \<and> jl_debit r = jl_credit l \<and> jl_credit r = jl_debit l)"
    "debits (reversal_rows prefix tenant i ls) = credits ls" "credits (reversal_rows prefix tenant i ls) = debits ls"
    by (simp_all add: reversal_rows_def Let_def)
qed

lemma reversal_rows_net: "acct_net (reversal_rows prefix tenant i ls) a = - acct_net ls a"
proof -
  have "acct_net (map (\<lambda>(k, l). \<lparr>jl_id = 0, jl_tenant = tenant, jl_company = jl_company l, jl_txn = i, jl_account = jl_account l,
       jl_debit = jl_credit l, jl_credit = jl_debit l,
       jl_description = Some (trim (prefix @ (case jl_description l of None \<Rightarrow> [] | Some s \<Rightarrow> s))),
       jl_tag = jl_tag l, jl_contact = jl_contact l, jl_lineOrder = n + 1 + k, jl_isVoidReversal = True\<rparr>) (enumerate m ls)) a = - acct_net ls a" for n m
    by (induction ls arbitrary: m) auto
  then show ?thesis by (simp add: reversal_rows_def Let_def)
qed

lemma reversal_rows_marked: "\<forall>r \<in> set (reversal_rows prefix tenant i ls). jl_isVoidReversal r = True"
  by (auto simp: reversal_rows_def Let_def)

lemma reverse_txn_ok:
  assumes ok: "books_ok b" and t: "txn_of b tenant i = Some t" "tx_status t = Posted"
    and f: "\<And>n t. tx_id (f n t) = tx_id t \<and> tx_tenant (f n t) = tx_tenant t \<and> tx_status (f n t) \<noteq> Posted"
    and ls: "mset ls = mset (lines_of b tenant i)"
  shows "books_ok (reverse_txn prefix tenant i ls f b)"
proof -
  let ?rows = "reversal_rows prefix tenant i ls"
  let ?c = "insert_lines ?rows b"
  let ?d = "updateAccountBalances tenant (swapped ls) ?c"
  from ok have wf: "books_wf b" and bal: "books_balanced b" and pend: "pending (\<lambda>_. 0) b" by (auto simp: books_ok_def balances_pending)
  have lines: "lines_of b tenant i = txn_lines i b" by (rule lines_of_txn [OF wf t(1)])
  have net: "acct_net ls a = acct_net (txn_lines i b) a" for a using acct_net_perm [OF ls] lines by simp
  have set: "set ls = set (lines_of b tenant i)" using ls by (rule mset_eq_setD)
  have good: "line_ok l" "\<exists>a \<in> set (bk_accounts b). ac_id a = jl_account l \<and> ac_tenant a = tenant" if "l \<in> set ls" for l
    using books_wfD(1,3) [OF wf, of l] that by (auto simp: set lines_of_def)
  have fit: "\<forall>r \<in> set ?rows. row_fits b i r"
    using reversal_rows_from(1) [of prefix tenant i ls] good txn_of_SomeD [OF t(1)] by (fastforce simp: row_fits_def line_ok_def)
  then have txn: "\<forall>r \<in> set ?rows. jl_txn r = i" by (simp add: row_fits_def)
  have "debits ls = debits (txn_lines i b)" "credits ls = credits (txn_lines i b)"
    using ls lines unfolding debits_def credits_def by (metis mset_map sum_mset_sum_list)+
  then have "debits ?rows = credits ?rows" using balanced_txn [OF bal] by (simp add: reversal_rows_from)
  then have c: "books_wf ?c" "books_balanced ?c"
    using insert_lines_wf [OF wf fit] insert_lines_balanced [OF bal txn reversal_rows_marked] by auto
  have posted: "i \<in> posted_ids b" using t txn_of_SomeD [OF t(1)] by (auto simp: posted_ids_def)
  have "pending (\<lambda>a. acct_net ?rows a) ?c" using pending_insert [OF pend txn] posted by simp
  then have d: "pending (\<lambda>a. acct_net ?rows a - net_of (swapped ls) a) ?d"
  proof (rule pending_balances)
    show "net_of (swapped ls) (ac_id a) = 0" if "a \<in> set (bk_accounts ?c)" "ac_tenant a \<noteq> tenant" for a
      using net_other_tenant [OF wf t(1)] that by (simp add: net_of_swapped net)
    show "at4 (net_of (swapped ls) a)" for a
      using at4_acct_net [of ls] good by (simp add: net_of_swapped list_all_iff at4_arith(5))
  qed
  have ids: "posted_ids (update_txn tenant i (f (bk_now b)) ?d) = posted_ids ?d - {i}"
    by (rule posted_ids_taken_back) (use c t(1) f in simp_all)
  have lines': "acct_net (txn_lines i ?d) a = acct_net (txn_lines i b) a + acct_net ?rows a" for a
  proof -
    have "filter (\<lambda>l. jl_txn l = i) (numbered n ?rows) = numbered n ?rows" for n
      using numbered_txn [OF txn] by (simp add: filter_id_conv)
    then show ?thesis by (simp add: txn_lines_def insert_lines_eq)
  qed
  have "pending (\<lambda>a. acct_net ?rows a - net_of (swapped ls) a - acct_net (txn_lines i ?d) a) (update_txn tenant i (f (bk_now b)) ?d)"
    by (rule pending_taken_back [OF d ids]) (simp add: posted)
  then have "balances_current (update_txn tenant i (f (bk_now b)) ?d)"
    by (rule pending_settled) (unfold lines' net_of_swapped net, simp)
  moreover have "books_wf (update_txn tenant i (f (bk_now b)) ?d)" by (rule update_txn_wf) (use c f in simp_all)
  ultimately show ?thesis using c by (simp add: books_ok_def reverse_txn_def)
qed

text \<open>A draft's lines never moved a balance, so a void of a draft would break the invariant; deleting one does not.\<close>

definition not_draft :: "books \<Rightarrow> id \<Rightarrow> bool" where
  "not_draft b i \<longleftrightarrow> (\<forall>t \<in> set (bk_txns b). tx_id t = i \<longrightarrow> tx_status t \<noteq> Draft)"

lemma first_in_set: "(case xs of [] \<Rightarrow> None | x # _ \<Rightarrow> Some x) = Some u \<Longrightarrow> u \<in> set xs"
  by (cases xs) auto

lemma reversal_check_posted:
  assumes "reversal_check tenant t ls b = Inr (Some r)"
  shows "\<exists>u \<in> set (bk_txns b). tx_id u = r \<and> tx_status u = Posted"
proof -
  from assms obtain u where "findLiveReversal tenant (tx_id t) b = Some u" "tx_id u = r" "tx_status u = Posted"
    by (auto simp: reversal_check_def checked_reversal_def assertReversalUnchanged_def reversal_unchanged_def cbind_apply ebind_Inr_iff
      split: if_splits option.splits)
  moreover from this(1) have "u \<in> set (sort_key (\<lambda>t. (tx_createdAt t, tx_id t)) (filter (\<lambda>u. tx_tenant u = tenant \<and>
       tx_reversesTransactionId u = Some (tx_id t) \<and> tx_status u \<noteq> Void \<and> tx_status u \<noteq> Deleted) (bk_txns b)))"
    unfolding findLiveReversal_def by (rule first_in_set)
  ultimately show ?thesis by auto
qed

lemma void_one_ok:
  assumes "void_one rq tenant i reason opts b = Inr (r, b')" "books_ok b" "not_draft b i"
  shows "books_ok b' \<and> (\<forall>j. r = Some j \<longrightarrow> not_draft b' j)"
  using assms(1)
proof (rule void_oneE)
  fix t b0
  assume t: "txn_of b tenant i = Some t" "tx_status t \<noteq> Void" "tx_status t \<noteq> Deleted"
    and lock: "\<exists>ov. checkLockDate rq tenant (tx_txnDate t) (tx_company t) False (tx_txnType t = ''aje'') (Some i) b = Inr (ov, b0)"
    and check: "reversal_check tenant t (lines_of b tenant i) b0 = Inr r"
    and run: "same_books (reverse_txn ''Void: '' tenant i (lines_of b tenant i) (voided reason) b) b'"
  from t assms(3) txn_of_SomeD [OF t(1)] have "tx_status t = Posted" by (cases "tx_status t") (auto simp: not_draft_def)
  then have "books_ok (reverse_txn ''Void: '' tenant i (lines_of b tenant i) (voided reason) b)"
    by (intro reverse_txn_ok [OF assms(2) t(1)]) (simp_all add: voided_def)
  moreover have "not_draft b' j" if "r = Some j" for j
  proof -
    have "bk_txns b0 = bk_txns b" using lock checkLockDate_same by (auto simp: same_books_def)
    with reversal_check_posted [of tenant t "lines_of b tenant i" b0 j] check that
    obtain u where u: "u \<in> set (bk_txns b)" "tx_id u = j" "tx_status u = Posted" by auto
    have "bk_txns b' = bk_txns (update_txn tenant i (voided reason (bk_now b)) b)"
      using run by (simp add: same_books_def reverse_txn_def update_txn_def updateAccountBalances_eq insert_lines_def)
    moreover have "v = u" if "v \<in> set (bk_txns b)" "tx_id v = j" for v
      using assms(2) that u by (intro unique_txn [of b]) (auto simp: books_ok_def)
    ultimately show ?thesis using u(3) by (auto simp: not_draft_def update_txn_def voided_def split: if_splits)
  qed
  ultimately show ?thesis using books_ok_same [OF run] by simp
qed

lemma void_ok:
  assumes "voidTransactionInTx rq tenant i reason opts b = Inr (u, b')" "books_ok b" "not_draft b i"
  shows "books_ok b'"
  using assms
proof (induction rq tenant i reason opts b rule: voidTransactionInTx.induct)
  case (1 rq tenant i reason opts b)
  from 1(2) obtain r b1 where one: "void_one rq tenant i reason opts b = Inr (r, b1)"
    by (subst (asm) voidTransactionInTx.simps) (auto split: sum.splits)
  from void_one_ok [OF one 1(3,4)] have ok: "books_ok b1" "\<And>j. r = Some j \<Longrightarrow> not_draft b1 j" by auto
  show ?case
  proof (cases r)
    case None
    with one ok 1(2) show ?thesis by (subst (asm) voidTransactionInTx.simps) auto
  next
    case (Some j)
    with one 1(2) have "voidTransactionInTx rq tenant j reason (only_company opts) b1 = Inr (u, b')"
      by (subst (asm) voidTransactionInTx.simps) simp
    with 1(1) [OF one] Some ok show ?thesis by auto
  qed
qed

lemma delete_one_ok:
  assumes "delete_one rq tenant i opts b = Inr (r, b')" "books_ok b"
  shows "books_ok b'"
  using assms(1)
proof (rule delete_oneE)
  fix t b0 b1 ls
  assume t: "txn_of b tenant i = Some t" and ls: "ls = sort_key jl_lineOrder (lines_of b tenant i)"
    and run: "same_books (if tx_status t = Posted then reverse_txn ''Deleted: '' tenant i ls deleted_txn b
       else update_txn tenant i (deleted_txn (bk_now b)) b) b'"
  have wf: "books_wf b" using assms(2) by (simp add: books_ok_def)
  show ?thesis
  proof (cases "tx_status t = Posted")
    case True
    then have "books_ok (reverse_txn ''Deleted: '' tenant i ls deleted_txn b)"
      by (intro reverse_txn_ok [OF assms(2) t]) (simp_all add: deleted_txn_def ls)
    with True books_ok_same [OF run] show ?thesis by simp
  next
    case False
    have "u = t" if "u \<in> set (bk_txns b)" "tx_id u = i" for u
      using that txn_of_SomeD [OF t] by (intro unique_txn [OF wf]) auto
    with False have "i \<notin> posted_ids b" by (auto simp: posted_ids_def)
    then have "posted_ids (update_txn tenant i (deleted_txn (bk_now b)) b) = posted_ids b"
      using posted_ids_taken_back [OF wf t, of "deleted_txn (bk_now b)"] by (simp add: deleted_txn_def)
    then have "books_ok (update_txn tenant i (deleted_txn (bk_now b)) b)"
      using assms(2) pending_header [of "\<lambda>_. 0" b] update_txn_wf [OF wf, of "deleted_txn (bk_now b)"]
      by (simp add: books_ok_def balances_pending deleted_txn_def)
    with False books_ok_same [OF run] show ?thesis by simp
  qed
qed

lemma delete_ok:
  assumes "deleteTransactionInTx rq tenant i opts b = Inr (u, b')" "books_ok b"
  shows "books_ok b'"
  using assms
proof (induction rq tenant i opts b rule: deleteTransactionInTx.induct)
  case (1 rq tenant i opts b)
  from 1(2) obtain r b1 where one: "delete_one rq tenant i opts b = Inr (r, b1)"
    by (subst (asm) deleteTransactionInTx.simps) (auto split: sum.splits)
  note ok = delete_one_ok [OF one 1(3)]
  show ?case
  proof (cases r)
    case None
    with one ok 1(2) show ?thesis by (subst (asm) deleteTransactionInTx.simps) auto
  next
    case (Some j)
    with one 1(2) have "deleteTransactionInTx rq tenant j (delete_rest opts) b1 = Inr (u, b')"
      by (subst (asm) deleteTransactionInTx.simps) simp
    with 1(1) [OF one] Some ok show ?thesis by auto
  qed
qed

subsection \<open>Editing keeps the invariant\<close>

text \<open>
  \<open>books_upto i g b\<close>: as \<open>books_ok\<close>, but for the amounts \<open>g\<close> still to be added to the balances and the entered lines of
  transaction \<open>i\<close>, which an edit takes out before it puts the new ones in.
\<close>

definition others_balanced :: "id \<Rightarrow> books \<Rightarrow> bool" where
  "others_balanced i b \<longleftrightarrow> (\<forall>j v. (j, v) \<noteq> (i, False) \<longrightarrow> debits (half_of v j b) = credits (half_of v j b))"

definition books_upto :: "id \<Rightarrow> (id \<Rightarrow> money) \<Rightarrow> books \<Rightarrow> bool" where
  "books_upto i g b \<longleftrightarrow> books_wf b \<and> others_balanced i b \<and> pending g b"

lemma ledger_start: "books_ok b \<Longrightarrow> books_upto i (\<lambda>_. 0) b"
  by (simp add: books_ok_def books_upto_def balances_pending books_balanced_def others_balanced_def)

lemma ledger_settled:
  assumes "books_upto i g b" "\<And>a. g a = 0" "debits (half_of False i b) = credits (half_of False i b)"
  shows "books_ok b"
proof -
  have "books_balanced b" using assms(1,3) unfolding books_upto_def others_balanced_def books_balanced_def by (metis (full_types) prod.inject)
  then show ?thesis using assms pending_settled by (auto simp: books_upto_def books_ok_def)
qed

lemma ledger_same: "same_books b b' \<Longrightarrow> books_upto i g b' = books_upto i g b"
  by (simp add: books_upto_def same_books_def books_wf_def others_balanced_def half_of_def txn_lines_def pending_def posted_net_def posted_ids_def)

lemma same_books_queries: "same_books b b' \<Longrightarrow> posted_ids b' = posted_ids b \<and> txn_of b' tenant i = txn_of b tenant i \<and>
    txn_lines i b' = txn_lines i b \<and> half_of v i b' = half_of v i b \<and> accounts_known b' tenant as = accounts_known b tenant as"
  by (simp add: same_books_def posted_ids_def txn_of_def txn_lines_def half_of_def accounts_known_def)

lemma ledger_balances:
  assumes "books_upto i g b" "\<And>a. a \<in> set (bk_accounts b) \<Longrightarrow> ac_tenant a \<noteq> tenant \<Longrightarrow> net_of ps (ac_id a) = 0" "\<And>a. at4 (net_of ps a)"
  shows "books_upto i (\<lambda>a. g a - net_of ps a) (updateAccountBalances tenant ps b)"
  using assms pending_balances [of g b tenant ps] by (simp add: books_upto_def others_balanced_def half_of_def)

lemma ledger_insert:
  assumes "books_upto i g b" "\<forall>l \<in> set rows. row_fits b i l" "\<forall>l \<in> set rows. jl_isVoidReversal l = False"
  shows "books_upto i (\<lambda>a. g a + (if i \<in> posted_ids b then acct_net rows a else 0)) (insert_lines rows b)"
proof -
  have txn: "\<forall>l \<in> set rows. jl_txn l = i" using assms(2) by (simp add: row_fits_def)
  then have same: "\<forall>l \<in> set (numbered n rows). jl_txn l = i \<and> jl_isVoidReversal l = False" for n
    using assms(3) by (induction rows arbitrary: n) auto
  have "half_of v j (insert_lines rows b) = half_of v j b" if "(j, v) \<noteq> (i, False)" for j v
    using same that by (auto simp: half_of_def txn_lines_def insert_lines_eq filter_empty_conv)
  with assms insert_lines_wf [OF _ assms(2)] pending_insert [OF _ txn] show ?thesis
    by (simp add: books_upto_def others_balanced_def)
qed

lemma half_insert:
  assumes "\<forall>l \<in> set rows. jl_txn l = i" "\<forall>l \<in> set rows. jl_isVoidReversal l = False"
  shows "debits (half_of False i (insert_lines rows b)) = debits (half_of False i b) + debits rows"
    "credits (half_of False i (insert_lines rows b)) = credits (half_of False i b) + credits rows"
proof -
  have "\<forall>l \<in> set (numbered n rows). jl_txn l = i \<and> jl_isVoidReversal l = False" for n
    using assms by (induction rows arbitrary: n) auto
  then have "half_of False i (insert_lines rows b) = half_of False i b @ numbered (bk_nextId b) rows"
    by (simp add: half_of_def txn_lines_def insert_lines_eq filter_id_conv)
  then show "debits (half_of False i (insert_lines rows b)) = debits (half_of False i b) + debits rows"
    "credits (half_of False i (insert_lines rows b)) = credits (half_of False i b) + credits rows"
    using debits_same [OF numbered_same] by simp_all
qed

lemma ledger_header:
  assumes "books_upto i g b" "\<And>t. tx_id (f t) = tx_id t \<and> tx_tenant (f t) = tx_tenant t \<and> tx_status (f t) = tx_status t"
  shows "books_upto i g (update_txn tenant j f b)"
proof -
  have "posted_ids (update_txn tenant j f b) = posted_ids b" by (rule posted_ids_header) (simp add: assms(2))
  with assms update_txn_wf [of b f] pending_header [of g b] show ?thesis by (simp add: books_upto_def others_balanced_def half_of_def)
qed

lemma half_header [simp]: "half_of v i (update_txn tenant j f b) = half_of v i b" "half_of v i (updateAccountBalances tenant ps b) = half_of v i b"
  by (simp_all add: half_of_def)

lemma find_map_keep: "(\<And>x. P (g x) = P x) \<Longrightarrow> find P (map g xs) = map_option g (find P xs)"
  by (induction xs) auto

lemma txn_of_header:
  assumes "\<And>t. tx_id (f t) = tx_id t \<and> tx_tenant (f t) = tx_tenant t"
  shows "txn_of (update_txn tenant i f b) tenant i = map_option f (txn_of b tenant i)"
proof -
  have "find (\<lambda>t. tx_tenant t = tenant \<and> tx_id t = i) (map (\<lambda>t. if tx_tenant t = tenant \<and> tx_id t = i then f t else t) xs) =
      map_option f (find (\<lambda>t. tx_tenant t = tenant \<and> tx_id t = i) xs)" for xs
    by (induction xs) (auto simp: assms)
  then show ?thesis by (simp add: txn_of_def update_txn_def)
qed

lemma ledger_delete:
  assumes "books_upto i g b" "\<forall>l \<in> set (bk_lines b). P l \<longrightarrow> jl_txn l = i"
    "debits (half_of True i (delete_lines P b)) = credits (half_of True i (delete_lines P b))"
  shows "books_upto i (\<lambda>a. g a - (if i \<in> posted_ids b then acct_net (filter P (bk_lines b)) a else 0)) (delete_lines P b)"
proof -
  have "half_of v j (delete_lines P b) = half_of v j b" if "j \<noteq> i" for j v
  proof -
    have "filter (\<lambda>l. jl_txn l = j \<and> jl_isVoidReversal l = v) (filter (\<lambda>l. \<not> P l) (bk_lines b)) =
        filter (\<lambda>l. jl_txn l = j \<and> jl_isVoidReversal l = v) (bk_lines b)"
      unfolding filter_filter by (rule filter_cong [OF refl]) (use assms(2) that in auto)
    then show ?thesis by (simp add: half_of_def txn_lines_def delete_lines_def)
  qed
  then have "others_balanced i (delete_lines P b)"
    using assms(1,3) unfolding books_upto_def others_balanced_def by (metis (full_types))
  with assms pending_delete_lines [of g b P i] delete_lines_wf show ?thesis by (auto simp: books_upto_def)
qed

lemma delete_lines_keeps [simp]:
  "bk_accounts (delete_lines P b) = bk_accounts b" "bk_txns (delete_lines P b) = bk_txns b" "txn_of (delete_lines P b) tenant i = txn_of b tenant i"
  by (simp_all add: delete_lines_def txn_of_def)

lemma net_of_Nil_update [simp]: "updateAccountBalances tenant [] b = b"
  by (simp add: updateAccountBalances_def deltas_of_def)

lemma accounts_known_keeps [simp]:
  "accounts_known (updateAccountBalances tenant ps b) t as = accounts_known b t as"
  "accounts_known (delete_lines P b) t as = accounts_known b t as" "accounts_known (update_txn tenant i f b) t as = accounts_known b t as"
  by (simp_all add: accounts_known_def updateAccountBalances_eq shift_has)

lemma edited_header_keeps: "tx_id (edited_header input n t) = tx_id t \<and> tx_tenant (edited_header input n t) = tx_tenant t \<and>
    tx_status (edited_header input n t) = tx_status t"
  by (simp add: edited_header_def)

lemma posted_status:
  assumes "books_wf b" "txn_of b tenant i = Some t"
  shows "i \<in> posted_ids b \<longleftrightarrow> tx_status t = Posted"
proof -
  have "u = t" if "u \<in> set (bk_txns b)" "tx_id u = i" for u
    using that txn_of_SomeD [OF assms(2)] by (intro unique_txn [OF assms(1)]) auto
  then show ?thesis using txn_of_SomeD [OF assms(2)] by (auto simp: posted_ids_def)
qed

text \<open>Taking the old lines out, when all of them go.\<close>

definition cleared_txn :: "id \<Rightarrow> id \<Rightarrow> bool \<Rightarrow> (txn_row \<Rightarrow> txn_row) \<Rightarrow> books \<Rightarrow> books" where
  "cleared_txn tenant i posted f b = update_txn tenant i f (delete_lines (\<lambda>l. jl_tenant l = tenant \<and> jl_txn l = i)
     (if lines_of b tenant i \<noteq> [] \<and> posted then updateAccountBalances tenant (swapped (lines_of b tenant i)) b else b))"

lemma cleared_txn_ledger:
  assumes ok: "books_ok b" and t: "txn_of b tenant i = Some t"
    and f: "\<And>t. tx_id (f t) = tx_id t \<and> tx_tenant (f t) = tx_tenant t \<and> tx_status (f t) = tx_status t"
  shows "books_upto i (\<lambda>_. 0) (cleared_txn tenant i (tx_status t = Posted) f b)" "half_of False i (cleared_txn tenant i (tx_status t = Posted) f b) = []"
proof -
  let ?ls = "lines_of b tenant i" and ?posted = "tx_status t = Posted"
  let ?P = "\<lambda>l. jl_tenant l = tenant \<and> jl_txn l = i"
  let ?c = "if ?ls \<noteq> [] \<and> ?posted then updateAccountBalances tenant (swapped ?ls) b else b"
  from ok have wf: "books_wf b" by (simp add: books_ok_def)
  note lines = lines_of_txn [OF wf t]
  have net: "net_of (swapped ?ls) a = - acct_net (txn_lines i b) a" for a by (simp add: net_of_swapped lines)
  have c: "books_upto i (\<lambda>a. if ?posted then acct_net (txn_lines i b) a else 0) ?c"
  proof (cases "?ls \<noteq> [] \<and> ?posted")
    case True
    have "list_all line_ok (txn_lines i b)" using books_wfD(1) [OF wf] by (auto simp: txn_lines_def list_all_iff)
    then have "books_upto i (\<lambda>a. 0 - net_of (swapped ?ls) a) (updateAccountBalances tenant (swapped ?ls) b)"
      using net_other_tenant [OF wf t] by (intro ledger_balances [OF ledger_start [OF ok]]) (auto simp: net at4_acct_net)
    with True show ?thesis by (simp add: net)
  next
    case False
    with lines have "?posted \<Longrightarrow> txn_lines i b = []" by auto
    then show ?thesis using ledger_start [OF ok] False by (auto cong: if_cong)
  qed
  have keep: "posted_ids ?c = posted_ids b" "bk_lines ?c = bk_lines b" by simp_all
  have "jl_tenant l = tenant" if "l \<in> set (bk_lines b)" "jl_txn l = i" for l
  proof -
    have "l \<in> set (lines_of b tenant i)" using that by (simp add: lines txn_lines_def)
    then show ?thesis by (simp add: lines_of_def)
  qed
  then have empty: "half_of v i (delete_lines ?P ?c) = []" for v
    by (auto simp: half_of_def txn_lines_def delete_lines_def filter_empty_conv)
  have "(if ?posted then acct_net (txn_lines i b) a else 0) - (if i \<in> posted_ids ?c then acct_net (filter ?P (bk_lines ?c)) a else 0) = 0" for a
    using posted_status [OF wf t] lines unfolding keep lines_of_def by simp
  with ledger_delete [OF c, of ?P] empty have "books_upto i (\<lambda>_. 0) (delete_lines ?P ?c)" by simp
  with f show "books_upto i (\<lambda>_. 0) (cleared_txn tenant i ?posted f b)" unfolding cleared_txn_def by (intro ledger_header) auto
  show "half_of False i (cleared_txn tenant i ?posted f b) = []" unfolding cleared_txn_def by (simp add: empty)
qed

text \<open>Putting the new lines in.\<close>

lemma ledger_new_lines:
  assumes led: "books_upto i (\<lambda>_. 0) b" and t: "txn_of b tenant i = Some t"
    and rows: "list_all2 same_line rows (rows_from tenant company i tag 0 ls)"
    and ls: "scaled_lines ls" "accounts_known b tenant (li_account ` set ls)"
    and bal: "debits (half_of False i b) + sum_list (map (round4 \<circ> li_debit) ls) = credits (half_of False i b) + sum_list (map (round4 \<circ> li_credit) ls)"
  shows "books_ok (if tx_status t = Posted then updateAccountBalances tenant (postings ls) (insert_lines rows b) else insert_lines rows b)"
proof -
  let ?new = "rows_from tenant company i tag 0 ls"
  have wf: "books_wf b" using led by (simp add: books_upto_def)
  have each: "\<exists>r' \<in> set ?new. same_line r r'" if "r \<in> set rows" for r
    using rows that by (fastforce simp: list_all2_conv_all_nth in_set_conv_nth)
  have fit: "\<forall>r \<in> set rows. row_fits b i r"
    using rows_fit [OF ls(2) t] each row_fits_same by blast
  have entered: "\<forall>r \<in> set rows. jl_isVoidReversal r = False"
    using each rows_entered by (fastforce simp: same_line_def)
  have txn: "\<forall>r \<in> set rows. jl_txn r = i" using fit by (simp add: row_fits_def)
  have net: "acct_net rows a = net_of (postings ls) a" for a using acct_net_same [OF rows] rows_net [OF ls(1)] by simp
  let ?b = "insert_lines rows b"
  have "books_upto i (\<lambda>a. 0 + (if i \<in> posted_ids b then acct_net rows a else 0)) ?b" by (rule ledger_insert [OF led fit entered])
  then have new: "books_upto i (\<lambda>a. if tx_status t = Posted then net_of (postings ls) a else 0) ?b"
    by (simp add: posted_status [OF wf t] net cong: if_cong)
  have half: "debits (half_of False i ?b) = credits (half_of False i ?b)"
    using bal debits_same [OF rows] by (simp add: half_insert [OF txn entered] rows_debits)
  show ?thesis
  proof (cases "tx_status t = Posted")
    case True
    with new have "books_upto i (\<lambda>a. net_of (postings ls) a - net_of (postings ls) a) (updateAccountBalances tenant (postings ls) ?b)"
      using postings_other_tenant [OF wf ls(2)] postings_at4 [OF ls(1)] by (intro ledger_balances) auto
    with True half show ?thesis using ledger_settled by fastforce
  next
    case False
    with new half show ?thesis using ledger_settled by fastforce
  qed
qed

lemma list_all2_same_refl: "list_all2 same_line ls ls"
  by (simp add: list_all2_refl same_line_def)

lemma full_edit_ok:
  assumes run: "full_edit rq tenant t input company b = Inr (u, b')" and ok: "books_ok b" and t: "txn_of b tenant (tx_id t) = Some t"
    and ls: "scaled_lines (ti_lines input)" "assertBalanced (ti_lines input) = Inr p" "accounts_known b tenant (li_account ` set (ti_lines input))"
  shows "books_ok b'"
proof -
  let ?i = "tx_id t" and ?ls = "ti_lines input" and ?posted = "tx_status t = Posted"
  define f where "f = (\<lambda>t. (edited_header input (bk_now b) t)\<lparr>tx_txnDate := ti_txnDate input\<rparr>)"
  have f: "tx_id (f t) = tx_id t \<and> tx_tenant (f t) = tx_tenant t \<and> tx_status (f t) = tx_status t" for t
    by (simp add: f_def edited_header_keeps)
  let ?c = "cleared_txn tenant ?i ?posted f b"
  have now: "bk_now (updateAccountBalances tenant ps b) = bk_now b" "bk_now (delete_lines P b) = bk_now b" for P ps and b
    by (simp_all add: delete_lines_def)
  from run obtain tag b1 b2 where tag: "loadContactDefaultTagId rq tenant (ti_contact input) ?c = Inr (tag, b1)"
    and sync: "syncTransactionTagsFromLines rq tenant ?i (new_lines tenant company ?i tag ?ls) (insert_lines (new_lines tenant company ?i tag ?ls) b1) = Inr ((), b2)"
    and rest: "auditLog tenant ''update'' ''transaction'' ?i (rq_user rq) (if ?posted then updateAccountBalances tenant (postings ?ls) b2 else b2) = Inr (u, b')"
    unfolding full_edit_def Let_def cleared_txn_def f_def
    by (auto simp: cbind_apply ebind_Inr_iff cwhen_def now split: if_splits)
  have s1: "same_books ?c b1" by (rule reads_onlyD [OF reads_only_guards(5) tag])
  have led: "books_upto ?i (\<lambda>_. 0) b1" "half_of False ?i b1 = []"
    using cleared_txn_ledger [OF ok t f] ledger_same [OF s1] same_books_queries [OF s1] by auto
  have tx: "txn_of ?c tenant ?i = Some (f t)" using t by (simp add: cleared_txn_def txn_of_header f)
  have st: "tx_status (f t) = tx_status t" by (simp add: f)
  have known: "accounts_known b1 tenant (li_account ` set ?ls)"
    using ls(3) same_books_queries [OF s1] by (simp add: cleared_txn_def)
  have new: "books_ok (if tx_status (f t) = Posted then updateAccountBalances tenant (postings ?ls) (insert_lines (new_lines tenant company ?i tag ?ls) b1)
      else insert_lines (new_lines tenant company ?i tag ?ls) b1)"
    unfolding new_lines_rows
    by (rule ledger_new_lines [OF led(1) _ list_all2_same_refl ls(1) known])
      (use tx same_books_queries [OF s1] led(2) assertBalanced_sums [OF ls(2)] in simp_all)
  have "same_books (insert_lines (new_lines tenant company ?i tag ?ls) b1) b2" by (rule reads_onlyD [OF reads_only_sync(1) sync])
  then have "same_books (if ?posted then updateAccountBalances tenant (postings ?ls) (insert_lines (new_lines tenant company ?i tag ?ls) b1)
      else insert_lines (new_lines tenant company ?i tag ?ls) b1) (if ?posted then updateAccountBalances tenant (postings ?ls) b2 else b2)"
    by (simp add: same_books_def updateAccountBalances_eq)
  from same_books_trans [OF this] same_audit rest have
    "same_books (if ?posted then updateAccountBalances tenant (postings ?ls) (insert_lines (new_lines tenant company ?i tag ?ls) b1)
      else insert_lines (new_lines tenant company ?i tag ?ls) b1) b'" by simp
  from books_ok_same [OF this] new show ?thesis unfolding st by simp
qed

subsubsection \<open>The edit of a reconciled entry\<close>

lemma map_lines_keep:
  assumes g: "\<And>l. same_line (g l) l \<and> jl_id (g l) = jl_id l" and led: "books_upto i h b"
  shows "books_upto i h (b\<lparr>bk_lines := map g (bk_lines b)\<rparr>)"
proof -
  let ?b = "b\<lparr>bk_lines := map g (bk_lines b)\<rparr>"
  have fields: "jl_txn (g l) = jl_txn l" "jl_tenant (g l) = jl_tenant l" "jl_account (g l) = jl_account l" "jl_debit (g l) = jl_debit l"
    "jl_credit (g l) = jl_credit l" "jl_isVoidReversal (g l) = jl_isVoidReversal l" "jl_id (g l) = jl_id l" for l
    using g [of l] by (simp_all add: same_line_def)
  have same: "list_all2 same_line (map g ls) ls" for ls by (simp add: list_all2_map1 list_all2_refl g)
  have "half_of v j ?b = map g (half_of v j b)" for v j by (simp add: half_of_def txn_lines_def filter_map o_def fields)
  then have "debits (half_of v j ?b) = debits (half_of v j b) \<and> credits (half_of v j ?b) = credits (half_of v j b)" for v j
    using debits_same [OF same] by simp
  then have "others_balanced i ?b" using led by (simp add: books_upto_def others_balanced_def)
  moreover have "books_wf ?b" using led unfolding books_upto_def books_wf_def by (simp add: fields line_ok_def o_def)
  moreover have "posted_net ?b a = posted_net b a" for a
    by (simp add: posted_net_def posted_ids_def filter_map o_def fields acct_net_same [OF same])
  ultimately show ?thesis using led by (simp add: books_upto_def pending_def)
qed

lemma take_match_Some: "take_match P xs = Some (y, ys) \<Longrightarrow> P y \<and> mset xs = add_mset y (mset ys)"
  by (induction xs arbitrary: ys) (auto split: if_splits)

lemma match_lines_Some:
  assumes "match_lines rs ls = Some (ps, rest)"
  shows "map fst ps = rs" "mset ls = mset (map snd ps @ rest)" "\<forall>(r, l) \<in> set ps. line_key_matches r l"
proof -
  have "map fst ps = rs \<and> mset ls = mset (map snd ps @ rest) \<and> (\<forall>(r, l) \<in> set ps. line_key_matches r l)" using assms
    by (induction rs ls arbitrary: ps rest rule: match_lines.induct) (fastforce split: option.splits dest!: take_match_Some)+
  then show "map fst ps = rs" "mset ls = mset (map snd ps @ rest)" "\<forall>(r, l) \<in> set ps. line_key_matches r l" by auto
qed

text \<open>The matched lines carry the amounts of their input lines.\<close>

lemma matched_amounts:
  assumes "match_lines rs ls = Some (ps, rest)" "list_all line_ok rs"
  shows "sum_list (map (round4 \<circ> li_debit) ls) = debits rs + sum_list (map (round4 \<circ> li_debit) rest)"
    "sum_list (map (round4 \<circ> li_credit) ls) = credits rs + sum_list (map (round4 \<circ> li_credit) rest)"
proof -
  note m = match_lines_Some [OF assms(1)]
  have "\<forall>r \<in> fst ` set ps. line_ok r" using m(1) assms(2) by (metis list.set_map list_all_iff)
  with m(3) have "sum_list (map (round4 \<circ> li_debit) (map snd ps)) = debits (map fst ps) \<and>
      sum_list (map (round4 \<circ> li_credit) (map snd ps)) = credits (map fst ps)"
    by (induction ps) (auto simp: line_key_matches_def line_ok_def at4_round)
  moreover have "sum_list (map f ls) = sum_list (map f (map snd ps @ rest))" for f :: "line_input \<Rightarrow> money"
    by (metis m(2) mset_map sum_mset_sum_list)
  ultimately show "sum_list (map (round4 \<circ> li_debit) ls) = debits rs + sum_list (map (round4 \<circ> li_debit) rest)"
    "sum_list (map (round4 \<circ> li_credit) ls) = credits rs + sum_list (map (round4 \<circ> li_credit) rest)"
    by (simp_all only: m(1) map_append sum_list_append)
qed

definition retag :: "id \<Rightarrow> id option \<Rightarrow> (line_row \<times> line_input) list \<Rightarrow> line_row \<Rightarrow> line_row" where
  "retag tenant contactTag ps l = (case map_of (map (\<lambda>(r, i). (jl_id r, i)) ps) (jl_id l) of None \<Rightarrow> l
     | Some i \<Rightarrow> if jl_tenant l \<noteq> tenant then l else
       l\<lparr>jl_tag := resolveDefaultTag (li_tag i) (li_bankRuleTag i) (li_aiSuggestedTag i) None contactTag,
         jl_description := or_null (li_description i)\<rparr>)"

lemma retag_lines_eq: "retag_lines tenant tag ps b = b\<lparr>bk_lines := map (retag tenant tag ps) (bk_lines b)\<rparr>"
  by (simp add: retag_lines_def retag_def)

lemma retag_same: "same_line (retag tenant tag ps l) l \<and> jl_id (retag tenant tag ps l) = jl_id l"
  by (simp add: retag_def same_line_def split: option.split)

lemma retag_fields [simp]: "jl_id (retag tenant tag ps l) = jl_id l" "jl_txn (retag tenant tag ps l) = jl_txn l"
  "jl_tenant (retag tenant tag ps l) = jl_tenant l" "jl_isVoidReversal (retag tenant tag ps l) = jl_isVoidReversal l"
  using retag_same [of tenant tag ps l] by (simp_all add: same_line_def)

lemma books_ok_header:
  assumes "books_ok b" "\<And>t. tx_id (f t) = tx_id t \<and> tx_tenant (f t) = tx_tenant t \<and> tx_status (f t) = tx_status t"
  shows "books_ok (update_txn tenant j f b)"
proof (rule ledger_settled [where i = j])
  show "books_upto j (\<lambda>_. 0) (update_txn tenant j f b)" by (rule ledger_header [OF ledger_start [OF assms(1)] assms(2)])
qed (use assms(1) in \<open>simp_all add: books_ok_def books_balanced_def\<close>)

text \<open>Taking the income and expense lines out of a posted entry.\<close>

definition taken_out :: "id \<Rightarrow> line_row list \<Rightarrow> id option \<Rightarrow> (line_row \<times> line_input) list \<Rightarrow> books \<Rightarrow> books" where
  "taken_out tenant pl tag ps b = delete_lines (\<lambda>l. jl_tenant l = tenant \<and> jl_id l \<in> jl_id ` set pl)
     (updateAccountBalances tenant (swapped pl) (retag_lines tenant tag ps b))"

lemma taken_out_nothing: "taken_out tenant [] tag ps b = retag_lines tenant tag ps b"
  by (simp add: taken_out_def delete_lines_def swapped_def)

lemma take_out_lines:
  assumes ok: "books_ok b" and t: "txn_of b tenant i = Some t" "tx_status t = Posted"
    and pl: "pl = filter (\<lambda>l. \<not> bs (jl_account l)) (filter (\<lambda>l. \<not> jl_isVoidReversal l) (lines_of b tenant i))"
  shows "books_upto i (\<lambda>_. 0) (taken_out tenant pl tag ps b)"
    and "debits (half_of False i (taken_out tenant pl tag ps b)) = debits (filter (\<lambda>l. bs (jl_account l)) (filter (\<lambda>l. \<not> jl_isVoidReversal l) (lines_of b tenant i)))"
    and "credits (half_of False i (taken_out tenant pl tag ps b)) = credits (filter (\<lambda>l. bs (jl_account l)) (filter (\<lambda>l. \<not> jl_isVoidReversal l) (lines_of b tenant i)))"
proof -
  let ?g = "retag tenant tag ps" and ?b = "retag_lines tenant tag ps b"
  let ?P = "\<lambda>l. jl_tenant l = tenant \<and> jl_id l \<in> jl_id ` set pl"
  let ?Q = "\<lambda>l. jl_tenant l = tenant \<and> jl_txn l = i \<and> \<not> jl_isVoidReversal l \<and> \<not> bs (jl_account l)"
  from ok have wf: "books_wf b" by (simp add: books_ok_def)
  have same: "list_all2 same_line (map ?g ls) ls" for ls by (simp add: list_all2_map1 list_all2_refl retag_same)
  have Q: "pl = filter ?Q (bk_lines b)" by (simp add: pl lines_of_def conj_ac)
  have P: "?P l \<longleftrightarrow> ?Q l" if "l \<in> set (bk_lines b)" for l
  proof
    assume "?P l"
    then obtain k where k: "k \<in> set pl" "jl_id k = jl_id l" by auto
    then have "k \<in> set (bk_lines b)" by (simp add: Q)
    moreover have "distinct (map jl_id (bk_lines b))" using wf by (simp add: books_wf_def)
    ultimately have "k = l" using that k(2) by (intro unique_id [where f = jl_id])
    with k(1) show "?Q l" by (simp add: Q)
  next
    assume "?Q l"
    with that have "l \<in> set pl" by (simp add: Q)
    with \<open>?Q l\<close> show "?P l" by simp
  qed
  have good: "list_all line_ok pl" using books_wfD(1) [OF wf] by (auto simp: Q list_all_iff)
  have other: "acct_net pl (ac_id a) = 0" if "a \<in> set (bk_accounts b)" "ac_tenant a \<noteq> tenant" for a
    using account_of_line [OF wf _ that(1)] that(2) by (intro acct_net_other) (auto simp: Q)
  let ?c = "updateAccountBalances tenant (swapped pl) ?b" and ?d = "taken_out tenant pl tag ps b"
  have "books_upto i (\<lambda>_. 0) ?b" unfolding retag_lines_eq by (rule map_lines_keep [OF retag_same ledger_start [OF ok]])
  then have "books_upto i (\<lambda>a. 0 - net_of (swapped pl) a) ?c"
    by (rule ledger_balances) (use other at4_acct_net [OF good] in \<open>auto simp: net_of_swapped retag_lines_eq\<close>)
  then have c: "books_upto i (\<lambda>a. acct_net pl a) ?c" by (simp add: net_of_swapped)
  have lines: "bk_lines ?c = map ?g (bk_lines b)" by (simp add: retag_lines_eq)
  have "filter ?P (map ?g (bk_lines b)) = map ?g (filter ?P (bk_lines b))" by (simp add: filter_map o_def)
  also have "filter ?P (bk_lines b) = pl" unfolding Q [symmetric] using P by (subst (2) Q) (rule filter_cong [OF refl])
  finally have gone: "filter ?P (bk_lines ?c) = map ?g pl" by (simp only: lines)
  have posted: "i \<in> posted_ids ?c" using posted_status [OF wf t(1)] t(2) by (simp add: retag_lines_eq posted_ids_def)
  have half: "half_of v i (delete_lines ?P ?c) = map ?g (filter (\<lambda>l. jl_txn l = i \<and> jl_isVoidReversal l = v \<and> \<not> ?P l) (bk_lines b))" for v
    by (simp add: half_of_def txn_lines_def delete_lines_def retag_lines_eq filter_map o_def)
      (rule arg_cong [where f = "map ?g"], rule filter_cong, auto)
  have rev: "filter (\<lambda>l. jl_txn l = i \<and> jl_isVoidReversal l = True \<and> \<not> ?P l) (bk_lines b) = half_of True i b"
    unfolding half_of_def txn_lines_def filter_filter by (rule filter_cong [OF refl]) (use P in auto)
  have "debits (half_of True i (delete_lines ?P ?c)) = credits (half_of True i (delete_lines ?P ?c))"
    unfolding half rev using debits_same [OF same] ok by (simp add: books_ok_def books_balanced_def)
  moreover have "\<forall>l \<in> set (bk_lines ?c). ?P l \<longrightarrow> jl_txn l = i" unfolding lines using P by auto
  ultimately have "books_upto i (\<lambda>a. acct_net pl a - (if i \<in> posted_ids ?c then acct_net (filter ?P (bk_lines ?c)) a else 0)) ?d"
    unfolding taken_out_def by (intro ledger_delete [OF c])
  then show "books_upto i (\<lambda>_. 0) ?d" using posted acct_net_same [OF same] unfolding gone by simp
  have tenants: "jl_tenant l = tenant" if "l \<in> set (bk_lines b)" "jl_txn l = i" for l
  proof -
    have "l \<in> set (lines_of b tenant i)" using that by (simp add: lines_of_txn [OF wf t(1)] txn_lines_def)
    then show ?thesis by (simp add: lines_of_def)
  qed
  have "filter (\<lambda>l. jl_txn l = i \<and> jl_isVoidReversal l = False \<and> \<not> ?P l) (bk_lines b) =
      filter (\<lambda>l. bs (jl_account l)) (filter (\<lambda>l. \<not> jl_isVoidReversal l) (lines_of b tenant i))"
    unfolding lines_of_def filter_filter by (rule filter_cong [OF refl]) (use P tenants in auto)
  with debits_same [OF same] half [of False, folded taken_out_def]
  show "debits (half_of False i ?d) = debits (filter (\<lambda>l. bs (jl_account l)) (filter (\<lambda>l. \<not> jl_isVoidReversal l) (lines_of b tenant i)))"
    "credits (half_of False i ?d) = credits (filter (\<lambda>l. bs (jl_account l)) (filter (\<lambda>l. \<not> jl_isVoidReversal l) (lines_of b tenant i)))"
    by simp_all
qed

lemma reconciled_edit_ok:
  assumes run: "reconciled_edit rq tenant t input company b = Inr (u, b')" and ok: "books_ok b"
    and t: "txn_of b tenant (tx_id t) = Some t" "tx_status t = Posted"
    and ls: "scaled_lines (ti_lines input)" "assertBalanced (ti_lines input) = Inr p" "accounts_known b tenant (li_account ` set (ti_lines input))"
  shows "books_ok b'"
proof -
  let ?i = "tx_id t" and ?bs = "isBalanceSheet b tenant"
  let ?ls = "filter (\<lambda>l. \<not> jl_isVoidReversal l) (lines_of b tenant ?i)"
  let ?old = "filter (\<lambda>l. ?bs (jl_account l)) ?ls" and ?pl = "filter (\<lambda>l. \<not> ?bs (jl_account l)) ?ls"
  from run obtain pairs rest tag b1 where m: "match_lines ?old (ti_lines input) = Some (pairs, rest)"
    and tag: "loadContactDefaultTagId rq tenant (ti_contact input) b = Inr (tag, b1)"
    by (auto simp: reconciled_edit_def Let_def cbind_apply ebind_Inr_iff split: if_splits option.splits)
  have b1: "b1 = b" using tag by (auto simp: loadContactDefaultTagId_def split: option.splits if_splits)
  define rows where "rows = map (\<lambda>r. r\<lparr>jl_lineOrder := length ?old + jl_lineOrder r\<rparr>) (new_lines tenant company ?i tag rest)"
  define c where "c = (if ?pl \<noteq> [] then taken_out tenant ?pl tag pairs b else retag_lines tenant tag pairs b)"
  define d where "d = (if rest \<noteq> [] then updateAccountBalances tenant (postings rest) (insert_lines rows c) else c)"
  define e where "e = update_txn tenant ?i (edited_header input (bk_now d)) d"
  from run m tag obtain b2 where sync: "syncTransactionTagsFromLines rq tenant ?i (map (\<lambda>(r, l). new_line tenant company ?i tag 0 l) pairs @ rows) e = Inr ((), b2)"
      and audit: "auditLog tenant ''update'' ''transaction'' ?i (rq_user rq) b2 = Inr (u, b')"
    unfolding reconciled_edit_def Let_def b1
    by (auto simp: cbind_apply ebind_Inr_iff cwhen_def e_def d_def c_def taken_out_def rows_def split: if_splits)
  have c: "c = taken_out tenant ?pl tag pairs b" unfolding c_def by (auto simp: taken_out_nothing simp del: filter_filter)
  note out = take_out_lines [OF ok t, of ?pl ?bs tag pairs, OF refl, folded c]
  have d: "d = updateAccountBalances tenant (postings rest) (insert_lines rows c)"
    by (simp add: d_def rows_def postings_def insert_lines_def new_lines_def)
  have tx: "txn_of c tenant ?i = Some t" using t(1) by (simp add: c taken_out_def retag_lines_eq txn_of_def)
  have "set rest \<subseteq> set (ti_lines input)" using match_lines_Some(2) [OF m] by (metis mset_eq_setD set_append Un_upper2)
  with ls(1,3) have rest: "scaled_lines rest" "accounts_known c tenant (li_account ` set rest)"
    by (auto simp: scaled_lines_def accounts_known_def c taken_out_def retag_lines_eq updateAccountBalances_eq shift_has)
  have same: "list_all2 same_line rows (rows_from tenant company ?i tag 0 rest)"
    by (simp add: rows_def new_lines_rows list_all2_map1 list_all2_refl same_line_def)
  have good: "list_all line_ok ?old" using ok books_wfD(1) by (auto simp: books_ok_def lines_of_def list_all_iff)
  have "books_ok (if tx_status t = Posted then updateAccountBalances tenant (postings rest) (insert_lines rows c) else insert_lines rows c)"
    by (rule ledger_new_lines [OF out(1) tx same rest])
      (use matched_amounts [OF m good] assertBalanced_sums [OF ls(2)] in \<open>simp add: out(2,3)\<close>)
  then have "books_ok d" using t(2) d by simp
  then have "books_ok e" unfolding e_def by (rule books_ok_header) (simp add: edited_header_keeps)
  moreover have "same_books e b'" using same_books_trans [OF reads_onlyD [OF reads_only_sync(1) sync] same_audit] audit by simp
  ultimately show ?thesis using books_ok_same by blast
qed

lemma reads_only_edits [reads, intro]:
  "reads_only (assertSalesTaxLinkUnchanged tenant t input)" "reads_only (assertDepositedAmountKept tenant t input)"
  "reads_only (check_edit_dates rq tenant t input company)"
  unfolding assertSalesTaxLinkUnchanged_def assertDepositedAmountKept_def check_edit_dates_def or_else_def
  by (intro reads)+

lemma updateTransaction_ok:
  assumes run: "updateTransaction rq tenant i input company b = Inr (u, b')" and ok: "books_ok b" and nd: "not_draft b i"
    and ls: "scaled_lines (ti_lines input)"
  shows "books_ok b'"
proof -
  from run obtain p t where bal: "assertBalanced (ti_lines input) = Inr p" and t: "txn_of b tenant i = Some t" "tx_status t \<noteq> Void" "tx_status t \<noteq> Deleted"
    by (auto simp: updateTransaction_def cbind_apply ebind_Inr_iff split: option.splits if_splits)
  let ?as = "map li_account (ti_lines input)" and ?co = "or_else company (tx_company t)"
  from run t bal obtain b1 b2 b3 b4 where steps: "assertSalesTaxLinkUnchanged tenant t input b = Inr ((), b1)"
      "check_edit_dates rq tenant t input company b1 = Inr ((), b2)" "assertAccountsInScope tenant ?co ?as b2 = Inr ((), b3)"
      "assertDepositedAmountKept tenant t input b3 = Inr ((), b4)"
    and edit: "(if cleared_lines tenant i b4 then reconciled_edit rq tenant t input company else full_edit rq tenant t input company) b4 = Inr (u, b')"
    by (auto simp: updateTransaction_def cbind_apply ebind_Inr_iff split: option.splits if_splits)
  have s2: "same_books b b2" using same_books_trans reads_onlyD [OF reads_only_edits(1) steps(1)] reads_onlyD [OF reads_only_edits(3) steps(2)] by blast
  have s4: "same_books b b4" using same_books_trans [OF s2] same_books_trans
      reads_onlyD [OF reads_only_guards(4) steps(3)] reads_onlyD [OF reads_only_edits(2) steps(4)] by blast
  have i: "tx_id t = i" using txn_of_SomeD [OF t(1)] by simp
  have ok4: "books_ok b4" "txn_of b4 tenant (tx_id t) = Some t" using ok books_ok_same [OF s4] same_books_queries [OF s4] t(1) i by auto
  have "distinct (map ac_id (bk_accounts b2))" using ok s2 by (simp add: same_books_def books_ok_def books_wf_def)
  from accounts_in_scope [OF steps(3) this] have known: "accounts_known b4 tenant (li_account ` set (ti_lines input))"
    using s2 s4 by (simp add: same_books_def accounts_known_def)
  have "tx_status t = Posted" using nd t txn_of_SomeD [OF t(1)] by (cases "tx_status t") (auto simp: not_draft_def)
  with edit show ?thesis
    using reconciled_edit_ok [OF _ ok4 _ ls bal known] full_edit_ok [OF _ ok4 ls bal known] by (auto split: if_splits)
qed

end
