(* ===== verification/Reachable.thy ===== *)
theory Reachable
  imports LedgerInvariant
begin

section \<open>The reachable books\<close>

text \<open>
  A tenant database starts with accounts at zero and no transactions; handlers that complete take it on, and any other
  service may change companies, contacts, reconciliations, deposits, links, the clock and the audit trail, or add an
  account.  The amounts posted have at most four decimals, and drafts, which never moved a balance, are not voided or edited
  (\<open>long_amounts_drift\<close> and \<open>void_of_draft_drifts\<close> show what happens otherwise).
\<close>

definition same_ledger :: "books \<Rightarrow> books \<Rightarrow> bool" where
  "same_ledger b b' \<longleftrightarrow> bk_accounts b' = bk_accounts b \<and> bk_txns b' = bk_txns b \<and> bk_lines b' = bk_lines b \<and> bk_nextId b' = bk_nextId b"

inductive reachable :: "books \<Rightarrow> bool" where
  start: "bk_txns b = [] \<Longrightarrow> bk_lines b = [] \<Longrightarrow> distinct (map ac_id (bk_accounts b)) \<Longrightarrow>
    \<forall>a \<in> set (bk_accounts b). ac_balance a = 0 \<Longrightarrow> reachable b"
| post: "reachable b \<Longrightarrow> postTransaction rq tenant input company b = Inr (i, b') \<Longrightarrow> scaled_lines (ti_lines input) \<Longrightarrow> reachable b'"
| void: "reachable b \<Longrightarrow> voidTransactionInTx rq tenant i reason opts b = Inr ((), b') \<Longrightarrow> not_draft b i \<Longrightarrow> reachable b'"
| delete: "reachable b \<Longrightarrow> deleteTransactionInTx rq tenant i opts b = Inr ((), b') \<Longrightarrow> reachable b'"
| update: "reachable b \<Longrightarrow> updateTransaction rq tenant i input company b = Inr ((), b') \<Longrightarrow> not_draft b i \<Longrightarrow>
    scaled_lines (ti_lines input) \<Longrightarrow> reachable b'"
| create_entry: "reachable b \<Longrightarrow> createJournalEntry rq tenant je company names b = Inr (r, b') \<Longrightarrow> scaled_lines (je_lines je) \<Longrightarrow> reachable b'"
| update_entry: "reachable b \<Longrightarrow> updateJournalEntry rq tenant i je company b = Inr (r, b') \<Longrightarrow> not_draft b i \<Longrightarrow>
    scaled_lines (je_lines je) \<Longrightarrow> reachable b'"
| open_account: "reachable b \<Longrightarrow> ac_id a \<notin> ac_id ` set (bk_accounts b) \<Longrightarrow> ac_balance a = 0 \<Longrightarrow>
    reachable (b\<lparr>bk_accounts := bk_accounts b @ [a]\<rparr>)"
| elsewhere: "reachable b \<Longrightarrow> same_ledger b b' \<Longrightarrow> reachable b'"

lemma same_ledger_ok: "same_ledger b b' \<Longrightarrow> books_ok b' = books_ok b"
  by (simp add: same_ledger_def books_ok_def books_wf_def books_balanced_def half_of_def balances_current_def posted_net_def posted_ids_def txn_lines_def)

lemma start_ok:
  assumes "bk_txns b = []" "bk_lines b = []" "distinct (map ac_id (bk_accounts b))" "\<forall>a \<in> set (bk_accounts b). ac_balance a = 0"
  shows "books_ok b"
  using assms by (simp add: books_ok_def books_wf_def books_balanced_def half_of_def txn_lines_def balances_current_def posted_net_def)

lemma open_account_ok:
  assumes "books_ok b" "ac_id a \<notin> ac_id ` set (bk_accounts b)" "ac_balance a = 0"
  shows "books_ok (b\<lparr>bk_accounts := bk_accounts b @ [a]\<rparr>)"
proof -
  have "jl_account l \<noteq> ac_id a" if l: "l \<in> set (bk_lines b)" for l
  proof -
    obtain c where "c \<in> set (bk_accounts b)" "ac_id c = jl_account l" using books_wfD(3) [OF _ l] assms(1) by (auto simp: books_ok_def)
    with assms(2) show ?thesis by (metis imageI)
  qed
  then have "posted_net b (ac_id a) = 0" unfolding posted_net_def by (intro acct_net_other) auto
  moreover have "posted_net (b\<lparr>bk_accounts := bk_accounts b @ [a]\<rparr>) i = posted_net b i" for i
    by (simp add: posted_net_def posted_ids_def)
  moreover have "books_wf (b\<lparr>bk_accounts := bk_accounts b @ [a]\<rparr>)" using assms(1,2) by (auto simp: books_ok_def books_wf_def)
  ultimately show ?thesis using assms
    by (auto simp: books_ok_def books_balanced_def half_of_def txn_lines_def balances_current_def)
qed

subsection \<open>Journal entries keep the invariant\<close>

lemma reads_only_entries [reads, intro]:
  "reads_only (assertContactsInScope tenant company cs)" "reads_only (assertJournalEntryNames tenant company ls names)"
  "reads_only (assertReversalUnchanged tenant t rows)" "reads_only (loadEntry tenant i)"
  unfolding assertContactsInScope_def assertJournalEntryNames_def assertReversalUnchanged_def loadEntry_def by (intro reads)+

lemma postReversal_ok:
  assumes "postReversal rq tenant t ls d company b = Inr (i, b')" "books_ok b" "list_all line_ok ls"
  shows "books_ok b'"
proof -
  have "scaled_lines (reversal_lines ls)" using assms(3) by (auto simp: scaled_lines_def reversal_lines_def list_all_iff line_ok_def)
  with assms(1,2) show ?thesis by (auto simp: postReversal_def split: if_splits intro: postTransaction_ok)
qed

lemma loadEntry_lines:
  assumes "loadEntry tenant i b = Inr ((t, ls), b')"
  shows "b' = b \<and> ls = sort_key jl_lineOrder (lines_of b tenant i)"
  using assms by (auto simp: loadEntry_def cbind_apply split: option.splits)

lemma lines_of_ok: "books_ok b \<Longrightarrow> set ls \<subseteq> set (lines_of b tenant i) \<Longrightarrow> list_all line_ok ls"
  using books_wfD(1) by (fastforce simp: books_ok_def lines_of_def list_all_iff)

lemma payload_lines [simp]: "ti_lines (buildJournalEntryPayload je) = je_lines je"
  by (simp add: buildJournalEntryPayload_def)

lemma createJournalEntry_ok:
  assumes run: "createJournalEntry rq tenant je company names b = Inr (r, b')" and ok: "books_ok b" "scaled_lines (je_lines je)"
  shows "books_ok b'"
proof -
  let ?d = "case je_reverseOn je of None \<Rightarrow> None | Some d \<Rightarrow> or_null d"
  from run obtain b1 i b2 t ls b3 where steps: "assertJournalEntryNames tenant company (je_lines je) names b = Inr ((), b1)"
      "postTransaction rq tenant (buildJournalEntryPayload je) company b1 = Inr (i, b2)" "loadEntry tenant i b2 = Inr ((t, ls), b3)"
    and rest: "(case ?d of None \<Rightarrow> cret (i, None) | Some d \<Rightarrow> cbind (postReversal rq tenant t ls d company) (\<lambda>r. cret (i, Some r))) b3 = Inr (r, b')"
    unfolding createJournalEntry_def Let_def by (auto simp: cbind_apply ebind_Inr_iff)
  have "books_ok b1" using books_ok_same [OF reads_onlyD [OF reads_only_entries(2) steps(1)]] ok(1) by simp
  then have ok2: "books_ok b2" using postTransaction_ok [OF steps(2)] ok(2) by simp
  then have "list_all line_ok ls" using lines_of_ok [OF ok2, of ls tenant i] loadEntry_lines [OF steps(3)] by simp
  with rest ok2 loadEntry_lines [OF steps(3)] show ?thesis by (auto simp: cbind_apply ebind_Inr_iff dest: postReversal_ok split: option.splits)
qed

lemma bring_reversal_ok:
  assumes run: "bring_reversal rq tenant i t ls reversal target originals company b = Inr (r, b')" and ok: "books_ok b" "list_all line_ok ls"
  shows "books_ok b'"
proof -
  let ?opts = "\<lparr>vo_expectedUpdatedAt = None, vo_expectType = None, vo_company = company\<rparr>"
  have gone: "books_ok c" if "(case reversal of None \<Rightarrow> cret () | Some r \<Rightarrow> cbind (assertReversalUnchanged tenant r originals) (\<lambda>_.
      deleteTransactionInTx rq tenant (tx_id r) ?opts)) b = Inr (u, c)" for u c
  proof (cases reversal)
    case (Some u)
    with that obtain d where "assertReversalUnchanged tenant u originals b = Inr ((), d)" "\<exists>v. deleteTransactionInTx rq tenant (tx_id u) ?opts d = Inr (v, c)"
      by (auto simp: cbind_apply ebind_Inr_iff)
    with ok books_ok_same [OF reads_onlyD [OF reads_only_entries(3)]] show ?thesis by (blast dest: delete_ok)
  qed (use that ok in simp)
  have post: "books_ok b'" if "books_ok c"
    "(case target of None \<Rightarrow> cret (i, None) | Some d \<Rightarrow> cbind (postReversal rq tenant t ls d company) (\<lambda>r. cret (i, Some r))) c = Inr (r, b')" for c
    using that ok(2) by (auto simp: cbind_apply ebind_Inr_iff dest: postReversal_ok split: option.splits)
  show ?thesis
  proof (cases "case (reversal, target) of (Some r, Some d) \<Rightarrow> reversalMatches b tenant r t ls d | _ \<Rightarrow> False")
    case True
    with run ok show ?thesis by (simp add: bring_reversal_def cbind_apply)
  next
    case False
    with run obtain u c where "(case reversal of None \<Rightarrow> cret () | Some r \<Rightarrow> cbind (assertReversalUnchanged tenant r originals) (\<lambda>_.
        deleteTransactionInTx rq tenant (tx_id r) ?opts)) b = Inr (u, c)"
      "(case target of None \<Rightarrow> cret (i, None) | Some d \<Rightarrow> cbind (postReversal rq tenant t ls d company) (\<lambda>r. cret (i, Some r))) c = Inr (r, b')"
      unfolding bring_reversal_def cbind_apply [of "cget _"] by (simp only: cget_def ebind_simps prod.case cbind_apply if_False) (auto simp: ebind_Inr_iff)
    with gone post show ?thesis by blast
  qed
qed

lemma updateJournalEntry_ok:
  assumes run: "updateJournalEntry rq tenant i je company b = Inr (r, b')" and ok: "books_ok b" "not_draft b i" "scaled_lines (je_lines je)"
  shows "books_ok b'"
proof -
  from run obtain b1 b2 b3 t ls reversal target originals where names: "assertJournalEntryNames tenant company (je_lines je) True b = Inr ((), b1)"
    and upd: "updateTransaction rq tenant i (buildJournalEntryPayload je) company b1 = Inr ((), b2)"
    and load: "loadEntry tenant i b2 = Inr ((t, ls), b3)"
    and rest: "bring_reversal rq tenant i t ls reversal target originals company b3 = Inr (r, b')"
    unfolding updateJournalEntry_def Let_def by (auto simp: cbind_apply ebind_Inr_iff split: option.splits if_splits)
  have s1: "same_books b b1" by (rule reads_onlyD [OF reads_only_entries(2) names])
  then have "books_ok b1" "not_draft b1 i" using ok books_ok_same [OF s1] by (simp_all add: not_draft_def same_books_def)
  then have ok2: "books_ok b2" using updateTransaction_ok [OF upd] ok(3) by simp
  then have "list_all line_ok ls" using lines_of_ok [OF ok2, of ls tenant i] loadEntry_lines [OF load] by simp
  with rest ok2 loadEntry_lines [OF load] show ?thesis using bring_reversal_ok by blast
qed

theorem reachable_ok:
  assumes "reachable b"
  shows "books_ok b"
  using assms
proof (induction rule: reachable.induct)
  case (elsewhere b b')
  then show ?case using same_ledger_ok by simp
qed (blast intro: start_ok open_account_ok dest: postTransaction_ok void_ok delete_ok updateTransaction_ok createJournalEntry_ok updateJournalEntry_ok)+

subsection \<open>What the invariant says of the reports\<close>

lemma acct_net_debits: "acct_net ls a = debits (filter (\<lambda>l. jl_account l = a) ls) - credits (filter (\<lambda>l. jl_account l = a) ls)"
  by (induction ls) auto

lemma only_txn:
  assumes "books_wf b" "l \<in> set (bk_lines b)"
  obtains t where "tx_tenant t = jl_tenant l" "\<And>P. (\<exists>u \<in> set (bk_txns b). tx_id u = jl_txn l \<and> P u) \<longleftrightarrow> P t"
proof -
  from books_wfD(2) [OF assms] obtain t where t: "t \<in> set (bk_txns b)" "tx_id t = jl_txn l" "tx_tenant t = jl_tenant l" by auto
  have "(\<exists>u \<in> set (bk_txns b). tx_id u = jl_txn l \<and> P u) \<longleftrightarrow> P t" for P
  proof
    assume "\<exists>u \<in> set (bk_txns b). tx_id u = jl_txn l \<and> P u"
    then obtain u where u: "u \<in> set (bk_txns b)" "tx_id u = jl_txn l" "P u" by auto
    with t have "u = t" by (intro unique_txn [OF assms(1)]) auto
    with u show "P t" by simp
  qed (use t in auto)
  with t that show thesis by blast
qed

lemma posted_line:
  assumes "books_wf b" "l \<in> set (bk_lines b)"
  shows "txn_posted b (jl_tenant l) None (jl_txn l) \<longleftrightarrow> jl_txn l \<in> posted_ids b"
    "(\<exists>t \<in> set (bk_txns b). tx_id t = jl_txn l \<and> tx_status t = Posted \<and> tx_tenant t = tenant) \<longleftrightarrow>
      jl_tenant l = tenant \<and> list_ex (\<lambda>t. tx_id t = jl_txn l \<and> tx_status t = Posted) (bk_txns b)"
proof -
  from assms obtain t where t: "tx_tenant t = jl_tenant l" "\<And>P. (\<exists>u \<in> set (bk_txns b). tx_id u = jl_txn l \<and> P u) \<longleftrightarrow> P t"
    by (rule only_txn) auto
  have "txn_posted b (jl_tenant l) None (jl_txn l) \<longleftrightarrow> tx_tenant t = jl_tenant l \<and> tx_status t = Posted"
    unfolding txn_posted_def list_ex_iff or_null_def given_text_def using t(2) [of "\<lambda>u. tx_tenant u = jl_tenant l \<and> tx_status u = Posted"] by simp
  moreover have "jl_txn l \<in> posted_ids b \<longleftrightarrow> tx_status t = Posted"
    unfolding t(2) [of "\<lambda>u. tx_status u = Posted", symmetric] posted_ids_def image_iff by auto
  ultimately show "txn_posted b (jl_tenant l) None (jl_txn l) \<longleftrightarrow> jl_txn l \<in> posted_ids b" using t(1) by simp
  show "(\<exists>t \<in> set (bk_txns b). tx_id t = jl_txn l \<and> tx_status t = Posted \<and> tx_tenant t = tenant) \<longleftrightarrow>
      jl_tenant l = tenant \<and> list_ex (\<lambda>t. tx_id t = jl_txn l \<and> tx_status t = Posted) (bk_txns b)"
    unfolding list_ex_iff t(2) using t(1) by auto
qed

lemma account_balance:
  assumes "books_ok b" "a \<in> set (bk_accounts b)"
  shows "ac_balance a = fst (account_sums b (ac_tenant a) (ac_id a) None) - snd (account_sums b (ac_tenant a) (ac_id a) None)"
    "at4 (ac_balance a)"
proof -
  from assms(1) have wf: "books_wf b" and cur: "ac_balance a = posted_net b (ac_id a)"
    using assms(2) by (auto simp: books_ok_def balances_current_def)
  let ?ls = "filter (\<lambda>l. jl_tenant l = ac_tenant a \<and> jl_account l = ac_id a \<and> txn_posted b (ac_tenant a) None (jl_txn l)) (bk_lines b)"
  have "filter (\<lambda>l. jl_account l = ac_id a) (filter (\<lambda>l. jl_txn l \<in> posted_ids b) (bk_lines b)) = ?ls"
    unfolding filter_filter
  proof (rule filter_cong [OF refl])
    fix l assume l: "l \<in> set (bk_lines b)"
    show "(jl_txn l \<in> posted_ids b \<and> jl_account l = ac_id a) =
        (jl_tenant l = ac_tenant a \<and> jl_account l = ac_id a \<and> txn_posted b (ac_tenant a) None (jl_txn l))"
      using account_of_line [OF wf l assms(2)] posted_line(1) [OF wf l] by auto
  qed
  then have net: "posted_net b (ac_id a) = debits ?ls - credits ?ls" by (simp only: posted_net_def acct_net_debits)
  have "list_all line_ok (filter (\<lambda>l. jl_txn l \<in> posted_ids b) (bk_lines b))"
    using books_wfD(1) [OF wf] by (auto simp: list_all_iff)
  then have "at4 (posted_net b (ac_id a))" unfolding posted_net_def by (rule at4_acct_net)
  with cur show "at4 (ac_balance a)" by simp
  show "ac_balance a = fst (account_sums b (ac_tenant a) (ac_id a) None) - snd (account_sums b (ac_tenant a) (ac_id a) None)"
    using cur net by (simp add: account_sums_def Let_def)
qed

text \<open>Lines that balance per transaction balance over any set of transactions.\<close>

lemma lines_balanced_sum:
  assumes "\<And>i. debits (filter (\<lambda>l. jl_txn l = i) ls) = credits (filter (\<lambda>l. jl_txn l = i) ls)"
  shows "debits (filter (\<lambda>l. Q (jl_txn l)) ls) = credits (filter (\<lambda>l. Q (jl_txn l)) ls)"
  using assms
proof (induction ls rule: length_induct)
  case (1 ls)
  show ?case
  proof (cases ls)
    case (Cons l ks)
    let ?i = "jl_txn l" and ?rest = "filter (\<lambda>k. jl_txn k \<noteq> jl_txn l) ls"
    have "debits (filter (\<lambda>k. jl_txn k = j) ?rest) = credits (filter (\<lambda>k. jl_txn k = j) ?rest)" for j
    proof (cases "j = ?i")
      case False
      then have "filter (\<lambda>k. jl_txn k = j) ?rest = filter (\<lambda>k. jl_txn k = j) ls" unfolding filter_filter by (intro filter_cong) auto
      with 1(2) show ?thesis by simp
    qed (simp add: filter_filter)
    moreover have "length ?rest < length ls" using Cons by (simp add: le_imp_less_Suc)
    ultimately have rest: "debits (filter (\<lambda>k. Q (jl_txn k)) ?rest) = credits (filter (\<lambda>k. Q (jl_txn k)) ?rest)" using 1(1) by blast
    have "debits (filter (\<lambda>k. Q (jl_txn k)) xs) = (if Q ?i then debits (filter (\<lambda>k. jl_txn k = ?i) xs) else 0) +
        debits (filter (\<lambda>k. Q (jl_txn k)) (filter (\<lambda>k. jl_txn k \<noteq> ?i) xs)) \<and>
        credits (filter (\<lambda>k. Q (jl_txn k)) xs) = (if Q ?i then credits (filter (\<lambda>k. jl_txn k = ?i) xs) else 0) +
        credits (filter (\<lambda>k. Q (jl_txn k)) (filter (\<lambda>k. jl_txn k \<noteq> ?i) xs))" for xs
      by (induction xs) auto
    with rest 1(2) show ?thesis by simp
  qed simp
qed

lemma trial_balance:
  assumes "books_ok b"
  shows "fst (trial_sums b tenant) = snd (trial_sums b tenant)"
proof -
  from assms have wf: "books_wf b" and bal: "books_balanced b" by (auto simp: books_ok_def)
  let ?Q = "\<lambda>i. \<exists>t \<in> set (bk_txns b). tx_id t = i \<and> tx_status t = Posted \<and> tx_tenant t = tenant"
  let ?ls = "filter (\<lambda>l. jl_tenant l = tenant \<and> list_ex (\<lambda>t. tx_id t = jl_txn l \<and> tx_status t = Posted) (bk_txns b)) (bk_lines b)"
  have "?ls = filter (\<lambda>l. ?Q (jl_txn l)) (bk_lines b)" by (rule filter_cong [OF refl]) (simp only: posted_line(2) [OF wf])
  moreover have "debits (filter (\<lambda>l. ?Q (jl_txn l)) (bk_lines b)) = credits (filter (\<lambda>l. ?Q (jl_txn l)) (bk_lines b))"
    by (rule lines_balanced_sum [where Q = ?Q]) (use balanced_txn [OF bal] in \<open>simp only: txn_lines_def\<close>)
  ultimately have eq: "credits ?ls = debits ?ls" by (simp only:)
  show ?thesis unfolding trial_sums_def Let_def fst_conv snd_conv by (rule eq [symmetric])
qed

end
