(* ===== verification/ClosedPeriod.thy ===== *)
theory ClosedPeriod
  imports LedgerInvariant
begin

section \<open>The closed period (checkLockDate and its callers)\<close>

text \<open>
  A change dated in a closed period goes through only with the closing password, with a confirmation by firm staff
  where no password is set, or for an adjusting entry where no password is set; and an override by password or
  confirmation leaves its row in the audit trail.
\<close>

definition period_closed :: "books \<Rightarrow> id \<Rightarrow> string \<Rightarrow> id option \<Rightarrow> bool" where
  "period_closed b tenant date company \<longleftrightarrow> (case fst (lock_facts tenant date company b) of None \<Rightarrow> False | Some d \<Rightarrow> d \<noteq> [] \<and> \<not> d < date)"

definition password_set :: "books \<Rightarrow> id \<Rightarrow> string \<Rightarrow> id option \<Rightarrow> bool" where
  "password_set b tenant date company = snd (lock_facts tenant date company b)"

definition may_post_closed :: "request \<Rightarrow> books \<Rightarrow> id \<Rightarrow> string \<Rightarrow> id option \<Rightarrow> bool" where
  "may_post_closed rq b tenant date company \<longleftrightarrow> (case rq_lock rq of None \<Rightarrow> False | Some k \<Rightarrow> (case lk_closingPassword k of
     Some w \<Rightarrow> (let hs = closing_hashes tenant date company b in hs \<noteq> [] \<and> list_all (\<lambda>h. closingPasswordMatches (lk_matches k) h w) hs)
   | None \<Rightarrow> lk_userType k = Some ''staff'' \<and> lk_overrideConfirmed k \<and> \<not> password_set b tenant date company))"

definition override_audited :: "books \<Rightarrow> id \<Rightarrow> id \<Rightarrow> bool" where
  "override_audited b tenant i \<longleftrightarrow> list_ex (\<lambda>r. au_tenant r = tenant \<and> au_action r = ''override'' \<and>
     au_entity r = ''closing_date_override'' \<and> au_entityId r = i) (bk_audit b)"

definition admitted :: "request \<Rightarrow> books \<Rightarrow> id \<Rightarrow> string \<Rightarrow> id option \<Rightarrow> bool \<Rightarrow> bool" where
  "admitted rq b tenant date company aje \<longleftrightarrow> period_closed b tenant date company \<longrightarrow>
     aje \<and> \<not> password_set b tenant date company \<or> may_post_closed rq b tenant date company"

lemma same_companies:
  assumes "bk_companies b' = bk_companies b"
  shows "period_closed b' = period_closed b" "password_set b' = password_set b" "may_post_closed rq b' = may_post_closed rq b"
    "admitted rq b' = admitted rq b"
  using assms by (intro ext, simp add: period_closed_def password_set_def may_post_closed_def admitted_def lock_facts_def closing_hashes_def
    cong: option.case_cong)+

lemma auditLockOverride_audits: "auditLockOverride rq tenant ov (Some i) b = Inr (u, b') \<Longrightarrow> override_audited b' tenant i"
  by (auto simp: auditLockOverride_def auditLog_def override_audited_def)

text \<open>What the check lets through, and what it leaves to the caller to audit.\<close>

lemma checkLockDate_admits:
  assumes "checkLockDate rq tenant date company defer aje i b = Inr (ov, b')"
  shows "admitted rq b tenant date company aje"
    and "period_closed b tenant date company \<Longrightarrow> \<not> aje \<or> password_set b tenant date company \<Longrightarrow> ov \<noteq> None"
    and "defer \<Longrightarrow> b' = b"
    and "ov \<noteq> None \<Longrightarrow> \<not> defer \<Longrightarrow> i = Some j \<Longrightarrow> override_audited b' tenant j"
proof -
  obtain d pw where facts: "lock_facts tenant date company b = (d, pw)" by fastforce
  show "admitted rq b tenant date company aje"
    using assms facts by (auto simp: checkLockDate_def cbind_apply admitted_def period_closed_def password_set_def may_post_closed_def Let_def
      split: option.splits if_splits)
  show "period_closed b tenant date company \<Longrightarrow> \<not> aje \<or> password_set b tenant date company \<Longrightarrow> ov \<noteq> None"
    using assms facts by (auto simp: checkLockDate_def cbind_apply ebind_Inr_iff period_closed_def password_set_def permit_def Let_def
      split: option.splits if_splits)
  show "defer \<Longrightarrow> b' = b"
    using assms facts by (auto simp: checkLockDate_def cbind_apply ebind_Inr_iff permit_def Let_def cwhen_def split: option.splits if_splits)
  show "ov \<noteq> None \<Longrightarrow> \<not> defer \<Longrightarrow> i = Some j \<Longrightarrow> override_audited b' tenant j"
    using assms facts by (auto simp: checkLockDate_def cbind_apply ebind_Inr_iff permit_def Let_def cwhen_def
      dest!: auditLockOverride_audits split: option.splits if_splits)
qed

subsection \<open>The audit trail only grows\<close>

lemma audited_grows: "override_audited b tenant i \<Longrightarrow> set (bk_audit b) \<subseteq> set (bk_audit b') \<Longrightarrow> override_audited b' tenant i"
  by (auto simp: override_audited_def list_ex_iff)

interpretation au: keeping "\<lambda>b b'. set (bk_audit b) \<subseteq> set (bk_audit b')"
  by unfold_locales auto

abbreviation keeps_audit :: "'a handler \<Rightarrow> bool" where
  "keeps_audit \<equiv> au.kept"

named_theorems audits "handlers that only add to the audit trail"

lemmas audits_rules [audits] = au.kept_rules au.kept_bind au.kept_cases

lemma keeps_audit_log [audits]: "keeps_audit (auditLog tenant action entity i user)"
  unfolding auditLog_def by (rule au.kept_cmod) auto

lemma keeps_audit_writes [audits]: "(\<And>b. bk_audit (f b) = bk_audit b) \<Longrightarrow> keeps_audit (cmod f)"
  by (rule au.kept_cmod) simp

lemma writes_audit [audits]:
  "bk_audit (insert_txn t b) = bk_audit b" "bk_audit (insert_lines ls b) = bk_audit b" "bk_audit (update_txn tenant i f b) = bk_audit b"
  "bk_audit (updateAccountBalances tenant ps b) = bk_audit b" "bk_audit (delete_lines P b) = bk_audit b"
  "bk_audit (retag_lines tenant tag pairs b) = bk_audit b" "bk_audit (b\<lparr>bk_txnTags := ts\<rparr>) = bk_audit b"
  "bk_audit (b\<lparr>bk_taxPayments := xs\<rparr>) = bk_audit b"
  by (simp_all add: insert_txn_def insert_lines_def update_txn_def updateAccountBalances_eq delete_lines_def retag_lines_def)

lemma writes_audit_two [audits]:
  "bk_audit (delete_lines P (updateAccountBalances tenant ps b)) = bk_audit b"
  "bk_audit (updateAccountBalances tenant ps (insert_lines ls b)) = bk_audit b"
  by (simp_all add: writes_audit)

lemma keeps_audit_guards [audits]:
  "keeps_audit (auditLockOverride rq tenant ov j)"
  "keeps_audit (permit rq tenant company deferAudit j d how)"
  "keeps_audit (checkLockDate rq tenant date company deferAudit aje j)"
  "keeps_audit (assertAccountsInScope tenant company as)"
  "keeps_audit (loadContactDefaultTagId rq tenant contact)"
  "keeps_audit (assertNotStale t expected)"
  "keeps_audit (assertNotDeposited tenant i)"
  "keeps_audit (assertReversalUnchanged tenant t originals)"
  "keeps_audit (checked_reversal tenant t originals)"
  "keeps_audit (syncTransactionTagsFromLines rq tenant i ls)"
  "keeps_audit (deleteTransactionTaxRows rq tenant i)"
  "keeps_audit (post_reversal_rows prefix tenant i originals)"
  "keeps_audit (assertDepositedAmountKept tenant t input)"
  unfolding auditLockOverride_def permit_def checkLockDate_def assertAccountsInScope_def loadContactDefaultTagId_def assertNotStale_def
    assertNotDeposited_def checked_reversal_def assertReversalUnchanged_def syncTransactionTagsFromLines_def deleteTransactionTaxRows_def
    post_reversal_rows_def assertDepositedAmountKept_def
  by (intro audits)+

lemma keeps_audit_handlers [audits]:
  "keeps_audit (void_unlocked rq tenant i reason t)" "keeps_audit (delete_unlocked rq tenant i t)"
  "keeps_audit (void_one rq tenant i reason opts)" "keeps_audit (delete_one rq tenant i opts)"
  "keeps_audit (full_edit rq tenant t input company)" "keeps_audit (reconciled_edit rq tenant t input company)"
  unfolding void_one_def void_unlocked_def delete_one_def delete_unlocked_def full_edit_def reconciled_edit_def
  by (intro audits)+

lemma keeps_audit_void: "voidTransactionInTx rq tenant i reason opts b = Inr (u, b') \<Longrightarrow> set (bk_audit b) \<subseteq> set (bk_audit b')"
proof (induction rq tenant i reason opts b rule: voidTransactionInTx.induct)
  case (1 rq tenant i reason opts b)
  from 1(2) obtain r b1 where one: "void_one rq tenant i reason opts b = Inr (r, b1)"
    by (subst (asm) voidTransactionInTx.simps) (auto split: sum.splits)
  note first = au.keptD [OF keeps_audit_handlers(3) one]
  show ?case
  proof (cases r)
    case None
    with one 1(2) first show ?thesis by (subst (asm) voidTransactionInTx.simps) auto
  next
    case (Some j)
    with one 1(2) have "voidTransactionInTx rq tenant j reason (only_company opts) b1 = Inr (u, b')"
      by (subst (asm) voidTransactionInTx.simps) simp
    with 1(1) [OF one] Some first show ?thesis by auto
  qed
qed

lemma keeps_audit_delete: "deleteTransactionInTx rq tenant i opts b = Inr (u, b') \<Longrightarrow> set (bk_audit b) \<subseteq> set (bk_audit b')"
proof (induction rq tenant i opts b rule: deleteTransactionInTx.induct)
  case (1 rq tenant i opts b)
  from 1(2) obtain r b1 where one: "delete_one rq tenant i opts b = Inr (r, b1)"
    by (subst (asm) deleteTransactionInTx.simps) (auto split: sum.splits)
  note first = au.keptD [OF keeps_audit_handlers(4) one]
  show ?case
  proof (cases r)
    case None
    with one 1(2) first show ?thesis by (subst (asm) deleteTransactionInTx.simps) auto
  next
    case (Some j)
    with one 1(2) have "deleteTransactionInTx rq tenant j (delete_rest opts) b1 = Inr (u, b')"
      by (subst (asm) deleteTransactionInTx.simps) simp
    with 1(1) [OF one] Some first show ?thesis by auto
  qed
qed

subsection \<open>Every change of a closed period\<close>

lemma post_checked:
  assumes "postTransaction rq tenant input company b = Inr (i, b')"
  shows "\<exists>ov. checkLockDate rq tenant (ti_txnDate input) company True (ti_txnType input = ''aje'') None b = Inr (ov, b) \<and>
    (ov \<noteq> None \<longrightarrow> override_audited b' tenant i)"
proof -
  from assms obtain ov b0 c where check: "checkLockDate rq tenant (ti_txnDate input) company True (ti_txnType input = ''aje'') None b = Inr (ov, b0)"
    and last: "(case ov of None \<Rightarrow> cret () | Some ov \<Rightarrow> auditLockOverride rq tenant ov (Some i)) c = Inr ((), b')"
    by (auto simp: postTransaction_def Let_def cbind_apply ebind_Inr_iff cwhen_def split: if_splits)
  have "b0 = b" by (rule checkLockDate_admits(3) [OF check]) simp
  with check last show ?thesis by (auto dest: auditLockOverride_audits split: option.splits)
qed

lemma void_checked:
  assumes "voidTransactionInTx rq tenant i reason opts b = Inr (u, b')" "txn_of b tenant i = Some t"
  shows "\<exists>ov b0. checkLockDate rq tenant (tx_txnDate t) (tx_company t) False (tx_txnType t = ''aje'') (Some i) b = Inr (ov, b0) \<and>
    set (bk_audit b0) \<subseteq> set (bk_audit b')"
proof -
  from assms(1) obtain r b1 where one: "void_one rq tenant i reason opts b = Inr (r, b1)"
    and rest: "(case r of None \<Rightarrow> Inr ((), b1) | Some j \<Rightarrow> voidTransactionInTx rq tenant j reason (only_company opts) b1) = Inr (u, b')"
    by (subst (asm) voidTransactionInTx.simps) (auto split: sum.splits option.splits)
  from one assms(2) obtain ov b0 where check: "checkLockDate rq tenant (tx_txnDate t) (tx_company t) False (tx_txnType t = ''aje'') (Some i) b = Inr (ov, b0)"
    and more: "void_unlocked rq tenant i reason t b0 = Inr (r, b1)"
    by (auto simp: void_one_def cbind_apply ebind_Inr_iff split: if_splits dest: guards_state(1))
  have "set (bk_audit b0) \<subseteq> set (bk_audit b1)" by (rule au.keptD [OF keeps_audit_handlers(1) more])
  moreover have "set (bk_audit b1) \<subseteq> set (bk_audit b')" using rest keeps_audit_void by (auto split: option.splits)
  ultimately show ?thesis using check by blast
qed

lemma delete_checked:
  assumes "deleteTransactionInTx rq tenant i opts b = Inr (u, b')" "txn_of b tenant i = Some t"
  shows "\<exists>ov b0. checkLockDate rq tenant (tx_txnDate t) (tx_company t) False False (Some i) b = Inr (ov, b0) \<and> set (bk_audit b0) \<subseteq> set (bk_audit b')"
proof -
  from assms(1) obtain r b1 where one: "delete_one rq tenant i opts b = Inr (r, b1)"
    and rest: "(case r of None \<Rightarrow> Inr ((), b1) | Some j \<Rightarrow> deleteTransactionInTx rq tenant j (delete_rest opts) b1) = Inr (u, b')"
    by (subst (asm) deleteTransactionInTx.simps) (auto split: sum.splits option.splits)
  from one assms(2) obtain ov b0 where check: "checkLockDate rq tenant (tx_txnDate t) (tx_company t) False False (Some i) b = Inr (ov, b0)"
    and more: "delete_unlocked rq tenant i t b0 = Inr (r, b1)"
    by (auto simp: delete_one_def cbind_apply ebind_Inr_iff split: if_splits dest: guards_state(1))
  have "set (bk_audit b0) \<subseteq> set (bk_audit b1)" by (rule au.keptD [OF keeps_audit_handlers(2) more])
  moreover have "set (bk_audit b1) \<subseteq> set (bk_audit b')" using rest keeps_audit_delete by (auto split: option.splits)
  ultimately show ?thesis using check by blast
qed

lemma edit_checks_state:
  "assertSalesTaxLinkUnchanged tenant t input b = Inr (u, b') \<Longrightarrow> b' = b"
  "assertAccountsInScope tenant company as b = Inr (u, b') \<Longrightarrow> b' = b"
  "assertDepositedAmountKept tenant t input b = Inr (u, b') \<Longrightarrow> b' = b"
  by (auto simp: assertSalesTaxLinkUnchanged_def assertAccountsInScope_def assertDepositedAmountKept_def assertNotDeposited_def cbind_apply Let_def
    split: if_splits)

lemma update_checked:
  assumes "updateTransaction rq tenant i input company b = Inr (u, b')" "txn_of b tenant i = Some t"
  defines "aje \<equiv> tx_txnType t = ''aje'' \<or> ti_txnType input = ''aje''"
  shows "\<exists>old new. checkLockDate rq tenant (tx_txnDate t) (tx_company t) True aje None b = Inr (old, b) \<and>
    (if ti_txnDate input \<noteq> tx_txnDate t then checkLockDate rq tenant (ti_txnDate input) (or_else company (tx_company t)) True aje None b = Inr (new, b)
     else new = None) \<and> (old \<noteq> None \<or> new \<noteq> None \<longrightarrow> override_audited b' tenant i)"
proof -
  from assms(1,2) obtain b2 where dates: "check_edit_dates rq tenant t input company b = Inr ((), b2)"
    and tail: "(if cleared_lines tenant i b2 then reconciled_edit rq tenant t input company else full_edit rq tenant t input company) b2 = Inr (u, b')"
    by (auto simp: updateTransaction_def cbind_apply ebind_Inr_iff split: if_splits dest!: edit_checks_state)
  from tail have grows: "set (bk_audit b2) \<subseteq> set (bk_audit b')"
    using au.keptD [OF keeps_audit_handlers(5)] au.keptD [OF keeps_audit_handlers(6)] by (auto split: if_splits)
  from dates obtain old b0 new b1 where checks: "checkLockDate rq tenant (tx_txnDate t) (tx_company t) True aje None b = Inr (old, b0)"
      "(if ti_txnDate input \<noteq> tx_txnDate t then checkLockDate rq tenant (ti_txnDate input) (or_else company (tx_company t)) True aje None
        else cret None) b0 = Inr (new, b1)"
    and last: "(case or_else old new of None \<Rightarrow> cret () | Some ov \<Rightarrow> auditLockOverride rq tenant ov (Some (tx_id t))) b1 = Inr ((), b2)"
    unfolding check_edit_dates_def Let_def aje_def [symmetric] by (auto simp: cbind_apply ebind_Inr_iff)
  have b0: "b0 = b" by (rule checkLockDate_admits(3) [OF checks(1)]) simp
  have b1: "b1 = b" using checks(2) checkLockDate_admits(3) by (auto simp: b0 split: if_splits)
  have "override_audited b2 tenant i" if "old \<noteq> None \<or> new \<noteq> None"
    using last that txn_of_SomeD [OF assms(2)] by (auto simp: or_else_def dest: auditLockOverride_audits split: option.splits)
  then have "old \<noteq> None \<or> new \<noteq> None \<longrightarrow> override_audited b' tenant i" using audited_grows grows by blast
  with checks show ?thesis by (intro exI [of _ old] exI [of _ new]) (auto simp: b0 b1 split: if_splits)
qed

text \<open>
  \<open>let_through\<close>: a change dated \<open>date\<close> of the transaction \<open>i\<close> took the books from \<open>b\<close> to \<open>b'\<close>; in a closed period it was
  admitted, and unless an adjusting entry needs no password, the override is on record.
\<close>

definition let_through :: "request \<Rightarrow> books \<Rightarrow> books \<Rightarrow> id \<Rightarrow> id \<Rightarrow> string \<Rightarrow> id option \<Rightarrow> bool \<Rightarrow> bool" where
  "let_through rq b b' tenant i date company aje \<longleftrightarrow> admitted rq b tenant date company aje \<and>
     (period_closed b tenant date company \<and> (\<not> aje \<or> password_set b tenant date company) \<longrightarrow> override_audited b' tenant i)"

lemma changes_let_through:
  shows "postTransaction rq tenant input company b = Inr (i, b') \<Longrightarrow>
      let_through rq b b' tenant i (ti_txnDate input) company (ti_txnType input = ''aje'')"
    and "voidTransactionInTx rq tenant i reason opts b = Inr (u, b') \<Longrightarrow> txn_of b tenant i = Some t \<Longrightarrow>
      let_through rq b b' tenant i (tx_txnDate t) (tx_company t) (tx_txnType t = ''aje'')"
    and "deleteTransactionInTx rq tenant i opts b = Inr (u, b') \<Longrightarrow> txn_of b tenant i = Some t \<Longrightarrow>
      let_through rq b b' tenant i (tx_txnDate t) (tx_company t) False"
    and "updateTransaction rq tenant i input company b = Inr (u, b') \<Longrightarrow> txn_of b tenant i = Some t \<Longrightarrow>
      let_through rq b b' tenant i (tx_txnDate t) (tx_company t) (tx_txnType t = ''aje'' \<or> ti_txnType input = ''aje'')"
    and "updateTransaction rq tenant i input company b = Inr (u, b') \<Longrightarrow> txn_of b tenant i = Some t \<Longrightarrow> ti_txnDate input \<noteq> tx_txnDate t \<Longrightarrow>
      let_through rq b b' tenant i (ti_txnDate input) (or_else company (tx_company t)) (tx_txnType t = ''aje'' \<or> ti_txnType input = ''aje'')"
  by (auto simp: let_through_def dest!: post_checked void_checked delete_checked update_checked
      dest: checkLockDate_admits(1) checkLockDate_admits(2) checkLockDate_admits(4) audited_grows split: if_splits)

end
