(* ===== verification/LedgerClaims.thy ===== *)
theory LedgerClaims
  imports Reachable ClosedPeriod
begin

section \<open>What holds of the ledger\<close>

text \<open>
  The properties of the ledger handlers, each with an example on a small set of books, and what happens outside their
  assumptions.
\<close>

subsection \<open>A small set of books\<close>

definition sample_account :: "id \<Rightarrow> string \<Rightarrow> account_row" where
  "sample_account i ty = \<lparr>ac_id = i, ac_tenant = 1, ac_company = None, ac_type = ty, ac_detailType = None, ac_systemTag = None, ac_balance = 0\<rparr>"

definition sample_books :: "string option \<Rightarrow> books" where
  "sample_books lockDate = \<lparr>bk_accounts = [sample_account 10 ''asset'', sample_account 11 ''revenue''],
     bk_companies = [\<lparr>co_id = 5, co_tenant = 1, co_lockDate = lockDate, co_closingPasswordHash = None\<rparr>], bk_contacts = [], bk_txns = [],
     bk_lines = [], bk_txnTags = [], bk_cleared = [], bk_depositLines = [], bk_taxPayments = [], bk_links = [], bk_audit = [],
     bk_nextId = 20, bk_now = 100\<rparr>"

definition sample_line :: "id \<Rightarrow> money \<Rightarrow> money \<Rightarrow> line_input" where
  "sample_line a d c = \<lparr>li_account = a, li_debit = d, li_credit = c, li_description = None, li_tag = None, li_bankRuleTag = None,
     li_aiSuggestedTag = None, li_contact = None\<rparr>"

definition sample_entry :: "txn_input" where
  "sample_entry = \<lparr>ti_txnType = ''journal_entry'', ti_txnDate = ''2026-03-31'', ti_txnNumber = None, ti_status = None, ti_basis = None,
     ti_contact = None, ti_memo = None, ti_isAdjusting = None, ti_reversesTransactionId = None,
     ti_lines = [sample_line 10 250 0, sample_line 11 0 250]\<rparr>"

definition sample_request :: "lock_ctx option \<Rightarrow> request" where
  "sample_request k = \<lparr>rq_user = Some 3, rq_lock = k, rq_tagsSplit = True\<rparr>"

definition sample_staff :: "lock_ctx" where
  "sample_staff = \<lparr>lk_userType = Some ''staff'', lk_overrideConfirmed = True, lk_closingPassword = None, lk_matches = (=)\<rparr>"

lemma at4_of_int: "at4 (of_int n)"
  unfolding at4_iff by (intro exI [of _ "n * 10 ^ 4"]) simp

lemma round4_samples: "round4 0 = 0" "round4 250 = 250" "round4 (- 250) = - 250"
  using at4_of_int [of 250] at4_of_int [of "- 250"] by (simp_all add: round4_def at4_def)

lemmas sample_defs = sample_account_def sample_books_def sample_line_def sample_entry_def sample_request_def sample_staff_def

definition sample_void :: change_options where
  "sample_void = \<lparr>vo_expectedUpdatedAt = None, vo_expectType = None, vo_company = None\<rparr>"

lemmas sample_exec = postTransaction_def assertBalanced_def checkLockDate_def lock_facts_def assertAccountsInScope_def cbind_apply
  round4_samples new_txn_def new_lines_def new_line_def insert_txn_def insert_lines_def loadContactDefaultTagId_def
  syncTransactionTagsFromLines_def deriveHeaderTags_def List.map_filter_def auditLog_def cwhen_def updateAccountBalances_eq shift_balances_def
  postings_def resolveDefaultTag_def first_defined_def permit_def auditLockOverride_def

lemma sample_post_void:
  "\<exists>b b'. postTransaction (sample_request None) 1 sample_entry (Some 5) (sample_books None) = Inr (20, b) \<and>
     map tx_status (bk_txns b) = [Posted] \<and> map tx_id (bk_txns b) = [20] \<and> map tx_tenant (bk_txns b) = [1] \<and> findLiveReversal 1 20 b = None \<and>
     voidTransactionInTx (sample_request None) 1 20 ''entered twice'' sample_void b = Inr ((), b') \<and> map ac_balance (bk_accounts b) = [250, - 250]"
  by (simp add: sample_defs sample_void_def sample_exec voidTransactionInTx.simps void_one_def void_unlocked_def txn_of_def inOtherCompany_def
     or_null_def given_text_def assertNotStale_def cleared_lines_def assertNotDeposited_def liveDepositsForSource_def lines_of_def
     checked_reversal_def findLiveReversal_def update_txn_def post_reversal_rows_def)

lemma sample_scaled: "scaled_lines (ti_lines sample_entry)"
  using at4_of_int [of 250] by (auto simp: scaled_lines_def sample_entry_def sample_line_def)

lemma sample_start: "reachable (sample_books lockDate)"
  by (rule reachable.start) (simp_all add: sample_books_def sample_account_def)

lemma sample_reachable:
  obtains b b' t where "reachable b" "map ac_balance (bk_accounts b) = [250, - 250]" "txn_of b 1 20 = Some t" "tx_status t = Posted"
    "findLiveReversal 1 20 b = None" "voidTransactionInTx (sample_request None) 1 20 ''entered twice'' sample_void b = Inr ((), b')"
proof -
  from sample_post_void obtain b b' where run: "postTransaction (sample_request None) 1 sample_entry (Some 5) (sample_books None) = Inr (20, b)"
      and txns: "map tx_status (bk_txns b) = [Posted]" "map tx_id (bk_txns b) = [20]" "map tx_tenant (bk_txns b) = [1]"
      and rest: "findLiveReversal 1 20 b = None" "voidTransactionInTx (sample_request None) 1 20 ''entered twice'' sample_void b = Inr ((), b')"
        "map ac_balance (bk_accounts b) = [250, - 250]" by (elim exE conjE)
  from txns obtain t where "txn_of b 1 20 = Some t" "tx_status t = Posted" by (cases "bk_txns b") (auto simp: txn_of_def)
  with reachable.post [OF sample_start run sample_scaled] rest show thesis by (intro that)
qed

subsection \<open>The balances are the books\<close>

text \<open>
  C1: In every state reached by postings, voids, deletions, edits and reversals of general entries whose amounts have at most four
  decimals, with no void or edit of a draft, the balance stored on an account is exactly the sum of the debits less the
  credits of its posted lines, and getAccountBalance returns that balance as the nearest JavaScript number.
\<close>

theorem account_balances_current:
  assumes "reachable b" "a \<in> set (bk_accounts b)"
  shows "ac_balance a = fst (account_sums b (ac_tenant a) (ac_id a) None) - snd (account_sums b (ac_tenant a) (ac_id a) None) \<and>
    snd (snd (getAccountBalance b (ac_tenant a) (ac_id a) None)) = double_of (ac_balance a)"
proof -
  note balance = account_balance [OF reachable_ok [OF assms(1)] assms(2)]
  from balance(2) have "to_number (ac_balance a) = double_of (ac_balance a)" by (simp add: to_number_def at4_round)
  with balance(1) show ?thesis by (simp add: getAccountBalance_def split_beta)
qed

theorem account_balances_current_witness:
  "\<exists>b. map ac_balance (bk_accounts b) = [250, - 250] \<and>
     (\<forall>a \<in> set (bk_accounts b). snd (snd (getAccountBalance b (ac_tenant a) (ac_id a) None)) = double_of (ac_balance a))"
proof (rule sample_reachable)
  fix b
  assume "reachable b" "map ac_balance (bk_accounts b) = [250, - 250]"
  with account_balances_current [of b] show ?thesis by (intro exI [of _ b]) simp
qed

text \<open>
  C3: In every reachable state every transaction's lines balance, so the trial balance does: the debits and the credits of the posted
  lines are exactly equal, and validateBalance reports two equal totals and the difference zero.
\<close>

theorem trial_balance_balances:
  assumes "reachable b" "txn_of b tenant i = Some t"
  shows "debits (lines_of b tenant i) = credits (lines_of b tenant i) \<and> bc_valid (validateBalance b tenant) \<and>
    fst (trial_sums b tenant) = snd (trial_sums b tenant) \<and>
    bc_totalDebits (validateBalance b tenant) = bc_totalCredits (validateBalance b tenant) \<and> bc_difference (validateBalance b tenant) = Some 0"
proof -
  note ok = reachable_ok [OF assms(1)]
  then have "debits (lines_of b tenant i) = credits (lines_of b tenant i)"
    using balanced_txn [of b i] lines_of_txn [OF _ assms(2)] by (simp add: books_ok_def)
  moreover have "to_number 0 = Some 0" by (simp add: to_number_def round4_samples)
  ultimately show ?thesis using trial_balance [OF ok, of tenant] by (simp add: validateBalance_def split_beta Let_def)
qed

theorem trial_balance_balances_witness:
  "\<exists>b. map ac_balance (bk_accounts b) = [250, - 250] \<and> debits (lines_of b 1 20) = credits (lines_of b 1 20) \<and>
     bc_valid (validateBalance b 1) \<and> bc_difference (validateBalance b 1) = Some 0"
proof (rule sample_reachable)
  fix b t
  assume "reachable b" "txn_of b 1 20 = Some t" and bal: "map ac_balance (bk_accounts b) = [250, - 250]"
  from trial_balance_balances [OF this(1,2)] bal show ?thesis by (intro exI [of _ b]) simp
qed

subsection \<open>The closed period\<close>

text \<open>
  C2: A posting, void, deletion or edit dated in a closed period is admitted by the closing password, by a staff confirmation
  where no password is set, or as an adjusting entry where no password is set; and whenever it needed an override, the override
  is on the audit trail.  An edit passes at its old and at its new date.
\<close>

theorem closed_period_guarded:
  "(postTransaction rq tenant input company b = Inr (i, b') \<longrightarrow>
      let_through rq b b' tenant i (ti_txnDate input) company (ti_txnType input = ''aje'')) \<and>
   (txn_of b tenant i = Some t \<and> voidTransactionInTx rq tenant i reason opts b = Inr ((), b') \<longrightarrow>
      let_through rq b b' tenant i (tx_txnDate t) (tx_company t) (tx_txnType t = ''aje'')) \<and>
   (txn_of b tenant i = Some t \<and> deleteTransactionInTx rq tenant i opts b = Inr ((), b') \<longrightarrow>
      let_through rq b b' tenant i (tx_txnDate t) (tx_company t) False) \<and>
   (txn_of b tenant i = Some t \<and> updateTransaction rq tenant i input company b = Inr ((), b') \<longrightarrow>
      let_through rq b b' tenant i (tx_txnDate t) (tx_company t) (tx_txnType t = ''aje'' \<or> ti_txnType input = ''aje'') \<and>
      (ti_txnDate input \<noteq> tx_txnDate t \<longrightarrow> let_through rq b b' tenant i (ti_txnDate input) (or_else company (tx_company t))
        (tx_txnType t = ''aje'' \<or> ti_txnType input = ''aje'')))"
  by (intro conjI impI; (elim conjE)?; (rule changes_let_through; assumption))

lemma sample_closed:
  "\<exists>b'. postTransaction (sample_request (Some sample_staff)) 1 sample_entry (Some 5) (sample_books (Some ''2026-03-31'')) = Inr (20, b')"
  "\<exists>e. postTransaction (sample_request None) 1 sample_entry (Some 5) (sample_books (Some ''2026-03-31'')) = Inl e"
  "period_closed (sample_books (Some ''2026-03-31'')) 1 (ti_txnDate sample_entry) (Some 5)"
  by (simp_all add: sample_defs postTransaction_def assertBalanced_def checkLockDate_def lock_facts_def assertAccountsInScope_def cbind_apply
     round4_samples new_txn_def new_lines_def new_line_def insert_txn_def insert_lines_def loadContactDefaultTagId_def permit_def
     syncTransactionTagsFromLines_def deriveHeaderTags_def List.map_filter_def auditLog_def cwhen_def updateAccountBalances_eq postings_def
     resolveDefaultTag_def first_defined_def auditLockOverride_def period_closed_def)

theorem closed_period_guarded_witness:
  "(\<exists>b'. postTransaction (sample_request (Some sample_staff)) 1 sample_entry (Some 5) (sample_books (Some ''2026-03-31'')) = Inr (20, b') \<and>
     override_audited b' 1 20) \<and>
   (\<exists>e. postTransaction (sample_request None) 1 sample_entry (Some 5) (sample_books (Some ''2026-03-31'')) = Inl e)"
proof -
  from sample_closed(1) obtain b' where run: "postTransaction (sample_request (Some sample_staff)) 1 sample_entry (Some 5)
      (sample_books (Some ''2026-03-31'')) = Inr (20, b')" by blast
  with closed_period_guarded [of "sample_request (Some sample_staff)" 1 sample_entry "Some 5" "sample_books (Some ''2026-03-31'')" 20 b']
    sample_closed(3)
  have "override_audited b' 1 20" by (simp add: let_through_def sample_entry_def)
  with run sample_closed(2) show ?thesis by blast
qed

subsection \<open>A void takes its transaction back\<close>

lemma void_alone:
  assumes "voidTransactionInTx rq tenant i reason opts b = Inr ((), b')" "txn_of b tenant i = Some t"
    "tx_txnType t \<noteq> ''journal_entry'' \<or> findLiveReversal tenant i b = None"
  shows "same_books (reverse_txn ''Void: '' tenant i (lines_of b tenant i) (voided reason) b) b'"
proof -
  from assms(1) obtain r b1 where one: "void_one rq tenant i reason opts b = Inr (r, b1)"
    and rest: "(case r of None \<Rightarrow> Inr ((), b1) | Some j \<Rightarrow> voidTransactionInTx rq tenant j reason (only_company opts) b1) = Inr ((), b')"
    by (subst (asm) voidTransactionInTx.simps) (auto split: sum.splits option.splits)
  from one show ?thesis
  proof (rule void_oneE)
    fix u b0
    assume u: "txn_of b tenant i = Some u"
      and lock: "\<exists>ov. checkLockDate rq tenant (tx_txnDate u) (tx_company u) False (tx_txnType u = ''aje'') (Some i) b = Inr (ov, b0)"
      and check: "reversal_check tenant u (lines_of b tenant i) b0 = Inr r"
      and run: "same_books (reverse_txn ''Void: '' tenant i (lines_of b tenant i) (voided reason) b) b1"
    have "bk_txns b0 = bk_txns b" using lock checkLockDate_same by (auto simp: same_books_def)
    then have "findLiveReversal tenant i b0 = findLiveReversal tenant i b" by (simp add: findLiveReversal_def)
    with check assms(2,3) u txn_of_SomeD [OF u] have "r = None"
      by (auto simp: reversal_check_def checked_reversal_def cbind_apply split: if_splits option.splits)
    with rest run show ?thesis by simp
  qed
qed

text \<open>
  C4: Voiding a posted transaction that has no automatic reversal: its status becomes void, its lines stay and their mirror images
  are added, and every account of the tenant moves back by exactly what the transaction had moved it.
\<close>

theorem void_takes_back:
  assumes "reachable b" "txn_of b tenant i = Some t" "tx_status t = Posted"
    "tx_txnType t \<noteq> ''journal_entry'' \<or> findLiveReversal tenant i b = None"
    "voidTransactionInTx rq tenant i reason opts b = Inr ((), b')"
  shows "bk_accounts b' = shift_balances tenant (\<lambda>a. - acct_net (lines_of b tenant i) a) (bk_accounts b) \<and>
    txn_of b' tenant i = Some (voided reason (bk_now b) t) \<and>
    bk_lines b' = bk_lines b @ numbered (bk_nextId b) (reversal_rows ''Void: '' tenant i (lines_of b tenant i)) \<and>
    (\<forall>a. acct_net (lines_of b' tenant i) a = 0)"
proof -
  let ?ls = "lines_of b tenant i" and ?rows = "reversal_rows ''Void: '' tenant i (lines_of b tenant i)"
  let ?d = "reverse_txn ''Void: '' tenant i ?ls (voided reason) b"
  have same: "same_books ?d b'" by (rule void_alone [OF assms(5,2,4)])
  have good: "list_all line_ok ?ls" using reachable_ok [OF assms(1)] lines_of_ok by blast
  have net: "round4 (net_of (swapped ?ls) a) = - acct_net ?ls a" for a
    using at4_acct_net [OF good] by (simp add: net_of_swapped at4_round)
  have accounts: "bk_accounts ?d = shift_balances tenant (\<lambda>a. - acct_net ?ls a) (bk_accounts b)"
    by (simp add: reverse_txn_def updateAccountBalances_eq net insert_lines_def)
  have header: "txn_of ?d tenant i = Some (voided reason (bk_now b) t)"
    using assms(2) by (simp add: reverse_txn_def txn_of_header voided_def)
  have lines: "bk_lines ?d = bk_lines b @ numbered (bk_nextId b) ?rows"
    by (simp add: reverse_txn_def insert_lines_eq)
  have zero: "acct_net (lines_of ?d tenant i) a = 0" for a
  proof -
    have all: "\<forall>l \<in> set ?rows. jl_tenant l = tenant \<and> jl_txn l = i" using reversal_rows_from(1) by blast
    then have "\<forall>l \<in> set (numbered n ?rows). jl_tenant l = tenant \<and> jl_txn l = i" for n
      using numbered_row [of _ n ?rows] by (fastforce simp: same_line_def)
    then have id: "filter (\<lambda>l. jl_tenant l = tenant \<and> jl_txn l = i) (numbered n ?rows) = numbered n ?rows" for n
      by (intro filter_True)
    have "lines_of ?d tenant i = filter (\<lambda>l. jl_tenant l = tenant \<and> jl_txn l = i) (bk_lines b @ numbered (bk_nextId b) ?rows)"
      unfolding lines [symmetric] by (rule lines_of_def)
    also have "\<dots> = ?ls @ numbered (bk_nextId b) ?rows" by (simp only: filter_append id lines_of_def [of b, symmetric])
    finally show ?thesis by (simp add: reversal_rows_net)
  qed
  have final: "bk_accounts b' = bk_accounts ?d" "bk_lines b' = bk_lines ?d" "txn_of b' tenant i = txn_of ?d tenant i"
      "lines_of b' tenant i = lines_of ?d tenant i"
    using same by (simp_all only: same_books_def txn_of_def lines_of_def)
  show ?thesis unfolding final using accounts header lines zero by blast
qed

theorem void_takes_back_witness:
  "\<exists>b b'. map ac_balance (bk_accounts b) = [250, - 250] \<and>
     bk_accounts b' = shift_balances 1 (\<lambda>a. - acct_net (lines_of b 1 20) a) (bk_accounts b) \<and> (\<forall>a. acct_net (lines_of b' 1 20) a = 0)"
proof (rule sample_reachable)
  fix b b' t
  assume b: "reachable b" "txn_of b 1 20 = Some t" "tx_status t = Posted" and bal: "map ac_balance (bk_accounts b) = [250, - 250]"
    and alone: "findLiveReversal 1 20 b = None"
    and void: "voidTransactionInTx (sample_request None) 1 20 ''entered twice'' sample_void b = Inr ((), b')"
  from void_takes_back [OF b disjI2 [OF alone] void] bal show ?thesis by (intro exI [of _ b] exI [of _ b'] conjI) simp_all
qed

subsection \<open>Where the assumptions matter\<close>

text \<open>
  An amount with more than four decimals, which the request schema allows: the lines are stored rounded, the balance moves by the
  unrounded net.  Two debits of 0.00005 are stored as 0.0001 each, and the balance moves by 0.0001.
\<close>

definition drifting_entry :: "txn_input" where
  "drifting_entry = sample_entry\<lparr>ti_lines := [sample_line 10 (5 / 100000) 0, sample_line 10 (5 / 100000) 0, sample_line 11 0 (2 / 10000)]\<rparr>"

lemma round4_drift: "round4 (1 / 20000) = 1 / 10000" "round4 (1 / 10000) = 1 / 10000" "round4 (1 / 5000) = 1 / 5000" "round4 (- (1 / 5000)) = - (1 / 5000)"
proof -
  have "at4 (1 / 10000)" unfolding at4_iff by (intro exI [of _ 1]) simp
  moreover have "at4 (1 / 5000)" unfolding at4_iff by (intro exI [of _ 2]) simp
  moreover have "at4 (- (1 / 5000))" unfolding at4_iff by (intro exI [of _ "- 2"]) simp
  ultimately show "round4 (1 / 10000) = 1 / 10000" "round4 (1 / 5000) = 1 / 5000" "round4 (- (1 / 5000)) = - (1 / 5000)"
    by (simp_all only: at4_def)
qed (simp add: round4_def rnd_def)

lemma long_amounts_drift:
  "\<exists>b. postTransaction (sample_request None) 1 drifting_entry (Some 5) (sample_books None) = Inr (20, b) \<and>
     map ac_balance (bk_accounts b) = [1 / 10000, - 2 / 10000] \<and> account_sums b 1 10 None = (2 / 10000, 0)"
  by (simp add: drifting_entry_def sample_defs sample_exec round4_drift account_sums_def txn_posted_def or_null_def given_text_def)

text \<open>Voiding a draft takes back amounts that were never added.\<close>

lemma void_of_draft_drifts:
  "\<exists>b b'. postTransaction (sample_request None) 1 (sample_entry\<lparr>ti_status := Some Draft\<rparr>) (Some 5) (sample_books None) = Inr (20, b) \<and>
     map ac_balance (bk_accounts b) = [0, 0] \<and>
     voidTransactionInTx (sample_request None) 1 20 ''entered twice'' sample_void b = Inr ((), b') \<and> map ac_balance (bk_accounts b') = [- 250, 250]"
  by (simp add: sample_defs sample_void_def sample_exec voidTransactionInTx.simps void_one_def void_unlocked_def txn_of_def inOtherCompany_def
     or_null_def given_text_def assertNotStale_def cleared_lines_def assertNotDeposited_def liveDepositsForSource_def lines_of_def
     checked_reversal_def findLiveReversal_def update_txn_def post_reversal_rows_def swapped_def reversal_rows_def)

text \<open>POST /estimates posts lines that are credits only; the balance check refuses every such posting.\<close>

definition estimate_input :: "string \<Rightarrow> id option \<Rightarrow> string option \<Rightarrow> (id \<times> rat \<times> rat \<times> string option) list \<Rightarrow> txn_input" where
  "estimate_input txnDate contact memo ls = \<lparr>ti_txnType = ''invoice'', ti_txnDate = txnDate, ti_txnNumber = None, ti_status = Some Draft,
     ti_basis = None, ti_contact = contact, ti_memo = memo, ti_isAdjusting = None, ti_reversesTransactionId = None,
     ti_lines = map (\<lambda>(account, quantity, unitPrice, description). \<lparr>li_account = account, li_debit = 0, li_credit = round4 (quantity * unitPrice),
       li_description = description, li_tag = None, li_bankRuleTag = None, li_aiSuggestedTag = None, li_contact = None\<rparr>) ls\<rparr>"

lemma estimates_refused: "\<exists>e. postTransaction rq tenant (estimate_input txnDate contact memo ls) company b = Inl e"
proof (cases "assertBalanced (ti_lines (estimate_input txnDate contact memo ls))")
  case (Inr p)
  have "fold (\<lambda>l (d, c). (d + round4 (li_debit l), c + round4 (li_credit l))) (ti_lines (estimate_input txnDate contact memo ls)) (0, c) =
      (0, c + sum_list (map (round4 \<circ> li_credit) (ti_lines (estimate_input txnDate contact memo ls))))" for c
    unfolding estimate_input_def by (induction ls arbitrary: c) (auto simp: round4_def add.assoc)
  from this [of 0] Inr have "p = (0, 0)" by (auto simp: assertBalanced_def split: if_splits)
  with Inr show ?thesis by (simp add: postTransaction_def cbind_apply)
qed (simp add: postTransaction_def cbind_apply)

end
