(* ===== verification/Expression.thy ===== *)
theory Expression
  imports JsNumber
begin

section \<open>Calculator expressions (packages/shared/src/utils/expression.ts)\<close>

text \<open>
  The tokenizer, the recursive-descent parser and the formatting of the input-field calculator.  A string from the
  user is a list of UTF-16 code units, since the operators include signs beyond 8 bits; the strings printed are ASCII.
  \<open>norm\<close> keeps every Rational in lowest terms with a positive denominator, which is how HOL's rationals are, so
  \<open>quotient_of\<close> gives the fields n and d.
\<close>

type_synonym units = "nat list"

datatype sym = Plus_s | Minus_s | Times_s | Over_s | Percent_s | LPar_s | RPar_s

datatype tok = Num rat | Op sym

definition EXPRESSION_MAX_LENGTH :: nat where
  "EXPRESSION_MAX_LENGTH = 200"

definition MAX_DEPTH :: nat where
  "MAX_DEPTH = 32"

definition MAX_ABS_RESULT :: rat where
  "MAX_ABS_RESULT = 10 ^ 15"

definition expr_error :: "string \<Rightarrow> 'a result" where
  "expr_error m = Inl (JsError m [])"

subsection \<open>Tokens\<close>

definition OP_MAP :: "nat \<Rightarrow> sym option" where
  "OP_MAP c = (if c = 43 then Some Plus_s else if c \<in> {45, 8722, 8211} then Some Minus_s else if c \<in> {42, 120, 88, 215} then Some Times_s
     else if c \<in> {47, 247} then Some Over_s else if c = 37 then Some Percent_s else if c = 40 then Some LPar_s
     else if c = 41 then Some RPar_s else None)"

fun groups :: "string \<Rightarrow> bool" where
  "groups (s # a # b # c # cs) = (s = CHR '','' \<and> is_digit a \<and> is_digit b \<and> is_digit c \<and> (cs = [] \<or> groups cs))"
| "groups _ = False"

definition grouped :: "string \<Rightarrow> bool" where
  "grouped s \<longleftrightarrow> (let h = takeWhile is_digit s in h \<noteq> [] \<and> length h \<le> 3 \<and> groups (dropWhile is_digit s))"

definition parseNumberToken :: "string \<Rightarrow> rat result" where
  "parseNumberToken raw = (let whole = takeWhile (\<lambda>c. c \<noteq> CHR ''.'') raw; frac = tl (dropWhile (\<lambda>c. c \<noteq> CHR ''.'') raw) in
     if \<not> ((grouped whole \<or> list_all is_digit whole) \<and> list_all is_digit frac) \<or> whole = [] \<and> frac = []
     then expr_error ''not a valid number''
     else Inr (of_nat (nat_of_digits (filter is_digit whole @ frac)) / 10 ^ length frac))"

definition digit_unit :: "nat \<Rightarrow> bool" where
  "digit_unit c \<longleftrightarrow> 48 \<le> c \<and> c \<le> 57"

definition num_unit :: "nat \<Rightarrow> bool" where
  "num_unit c \<longleftrightarrow> digit_unit c \<or> c = 46 \<or> c = 44"

function tokenize :: "units \<Rightarrow> tok list result" where
  "tokenize [] = Inr []"
| "tokenize (c # cs) = (if c \<in> {32, 9, 160} then tokenize cs
     else if c = 36 then (case cs of [] \<Rightarrow> expr_error ''dollar sign without a number''
       | d # _ \<Rightarrow> if digit_unit d \<or> d = 46 then tokenize cs else expr_error ''dollar sign without a number'')
     else if num_unit c then (if c = 44 then expr_error ''not a valid number'' else
       ebind (parseNumberToken (map char_of (c # takeWhile num_unit cs))) (\<lambda>v.
       ebind (tokenize (dropWhile num_unit cs)) (\<lambda>ts. Inr (Num v # ts))))
     else (case OP_MAP c of None \<Rightarrow> expr_error ''unexpected character''
       | Some s \<Rightarrow> ebind (tokenize cs) (\<lambda>ts. Inr (Op s # ts))))"
  by pat_completeness auto
termination
  by (relation "measure length") (auto simp: le_imp_less_Suc length_dropWhile_le)

subsection \<open>The parser\<close>

text \<open>
  A parsing function takes the tokens from its position on and returns what it read with the tokens left.  A term also
  says whether its outermost operator is a postfix percent sign.  \<open>depth\<close> counts down from \<open>MAX_DEPTH\<close>; the loops of
  \<open>expr\<close> and \<open>term\<close> run at most once per token left, which is the number they are given.
\<close>

type_synonym 'a parser = "tok list \<Rightarrow> ('a \<times> tok list) result"

fun postfix_loop :: "rat \<Rightarrow> bool \<Rightarrow> tok list \<Rightarrow> (rat \<times> bool) \<times> tok list" where
  "postfix_loop v pct (Op Percent_s # ts) = postfix_loop (v / 100) True ts"
| "postfix_loop v pct ts = ((v, pct), ts)"

primrec term_loop :: "(rat \<times> bool) parser \<Rightarrow> nat \<Rightarrow> rat \<Rightarrow> bool \<Rightarrow> (rat \<times> bool) parser" where
  "term_loop unary 0 left pct ts = Inr ((left, pct), ts)"
| "term_loop unary (Suc k) left pct ts = (case ts of
     Op Times_s # rest \<Rightarrow> ebind (unary rest) (\<lambda>((right, _), ts'). term_loop unary k (left * right) False ts')
   | Op Over_s # rest \<Rightarrow> ebind (unary rest) (\<lambda>((right, _), ts').
       if right = 0 then expr_error ''division by zero'' else term_loop unary k (left / right) False ts')
   | _ \<Rightarrow> Inr ((left, pct), ts))"

definition parse_term :: "(rat \<times> bool) parser \<Rightarrow> (rat \<times> bool) parser" where
  "parse_term unary ts = ebind (unary ts) (\<lambda>((v, pct), ts'). term_loop unary (length ts') v pct ts')"

primrec expr_loop :: "(rat \<times> bool) parser \<Rightarrow> nat \<Rightarrow> rat \<Rightarrow> rat parser" where
  "expr_loop unary 0 left ts = Inr (left, ts)"
| "expr_loop unary (Suc k) left ts = (case ts of
     Op Plus_s # rest \<Rightarrow> ebind (parse_term unary rest) (\<lambda>((v, pct), ts').
       expr_loop unary k (left + (if pct then left * v else v)) ts')
   | Op Minus_s # rest \<Rightarrow> ebind (parse_term unary rest) (\<lambda>((v, pct), ts').
       expr_loop unary k (left - (if pct then left * v else v)) ts')
   | _ \<Rightarrow> Inr (left, ts))"

definition parse_expr :: "(rat \<times> bool) parser \<Rightarrow> rat parser" where
  "parse_expr unary ts = ebind (parse_term unary ts) (\<lambda>((v, _), ts'). expr_loop unary (length ts') v ts')"

fun parse_unary :: "nat \<Rightarrow> (rat \<times> bool) parser" where
  "parse_unary depth (Op Minus_s # ts) = (case depth of 0 \<Rightarrow> expr_error ''nested too deeply''
     | Suc n \<Rightarrow> ebind (parse_unary n ts) (\<lambda>((v, pct), ts'). Inr ((- v, pct), ts')))"
| "parse_unary depth (Op Plus_s # ts) = (case depth of 0 \<Rightarrow> expr_error ''nested too deeply'' | Suc n \<Rightarrow> parse_unary n ts)"
| "parse_unary depth (Num v # ts) = Inr (postfix_loop v False ts)"
| "parse_unary depth (Op LPar_s # ts) = (case depth of 0 \<Rightarrow> expr_error ''nested too deeply''
     | Suc n \<Rightarrow> ebind (parse_expr (parse_unary n) ts) (\<lambda>(v, ts'). case ts' of
         Op RPar_s # rest \<Rightarrow> Inr (postfix_loop v False rest) | _ \<Rightarrow> expr_error ''missing parenthesis''))"
| "parse_unary depth [] = expr_error ''incomplete expression''"
| "parse_unary depth (Op s # ts) = expr_error ''incomplete or invalid expression''"

definition parse :: "tok list \<Rightarrow> rat result" where
  "parse toks = (if toks = [] then expr_error ''enter a number'' else
     ebind (parse_expr (parse_unary MAX_DEPTH) toks) (\<lambda>(v, rest). if rest \<noteq> [] then expr_error ''incomplete or invalid expression'' else Inr v))"

subsection \<open>The grammar\<close>

text \<open>
  The grammar of the header comment, with the value each phrase denotes: \<open>n\<close> bounds the nesting of signs and parentheses,
  and a percent term on the right of a sum is that percentage of the left side.
\<close>

inductive expr_g :: "nat \<Rightarrow> tok list \<Rightarrow> rat \<Rightarrow> bool" and term_g :: "nat \<Rightarrow> tok list \<Rightarrow> rat \<Rightarrow> bool \<Rightarrow> bool"
  and unary_g :: "nat \<Rightarrow> tok list \<Rightarrow> rat \<Rightarrow> bool \<Rightarrow> bool" and postfix_g :: "nat \<Rightarrow> tok list \<Rightarrow> rat \<Rightarrow> bool \<Rightarrow> bool"
  and primary_g :: "nat \<Rightarrow> tok list \<Rightarrow> rat \<Rightarrow> bool" where
  expr_one: "term_g n ts v p \<Longrightarrow> expr_g n ts v"
| expr_add: "expr_g n ss l \<Longrightarrow> term_g n ts v p \<Longrightarrow> expr_g n (ss @ Op Plus_s # ts) (l + (if p then l * v else v))"
| expr_sub: "expr_g n ss l \<Longrightarrow> term_g n ts v p \<Longrightarrow> expr_g n (ss @ Op Minus_s # ts) (l - (if p then l * v else v))"
| term_one: "unary_g n ts v p \<Longrightarrow> term_g n ts v p"
| term_mul: "term_g n ss l p \<Longrightarrow> unary_g n ts v q \<Longrightarrow> term_g n (ss @ Op Times_s # ts) (l * v) False"
| term_div: "term_g n ss l p \<Longrightarrow> unary_g n ts v q \<Longrightarrow> v \<noteq> 0 \<Longrightarrow> term_g n (ss @ Op Over_s # ts) (l / v) False"
| unary_neg: "unary_g n ts v p \<Longrightarrow> unary_g (Suc n) (Op Minus_s # ts) (- v) p"
| unary_pos: "unary_g n ts v p \<Longrightarrow> unary_g (Suc n) (Op Plus_s # ts) v p"
| unary_post: "postfix_g n ts v p \<Longrightarrow> unary_g n ts v p"
| post_one: "primary_g n ts v \<Longrightarrow> postfix_g n ts v False"
| post_pct: "postfix_g n ts v p \<Longrightarrow> postfix_g n (ts @ [Op Percent_s]) (v / 100) True"
| prim_num: "primary_g n [Num v] v"
| prim_par: "expr_g n ts v \<Longrightarrow> primary_g (Suc n) (Op LPar_s # ts @ [Op RPar_s]) v"

subsubsection \<open>What the parser reads is in the grammar\<close>

definition sound_unary :: "nat \<Rightarrow> (rat \<times> bool) parser \<Rightarrow> bool" where
  "sound_unary n u \<longleftrightarrow> (\<forall>ts v p rest. u ts = Inr ((v, p), rest) \<longrightarrow> (\<exists>pre. ts = pre @ rest \<and> pre \<noteq> [] \<and> unary_g n pre v p))"

lemma postfix_loop_sound:
  assumes "postfix_loop v p ts = ((w, q), rest)" "postfix_g n pre v p"
  shows "\<exists>mid. ts = mid @ rest \<and> postfix_g n (pre @ mid) w q"
  using assms
proof (induction v p ts arbitrary: pre rule: postfix_loop.induct)
  case (1 v pct ts)
  from 1(1) [of "pre @ [Op Percent_s]"] 1(2,3) obtain mid where "ts = mid @ rest" "postfix_g n ((pre @ [Op Percent_s]) @ mid) w q"
    by (auto intro: post_pct)
  then show ?case by (intro exI [of _ "Op Percent_s # mid"]) simp
qed auto

lemma term_loop_sound:
  assumes "sound_unary n u" "term_loop u k l p ts = Inr ((v, q), rest)" "term_g n pre l p"
  shows "\<exists>mid. ts = mid @ rest \<and> term_g n (pre @ mid) v q"
  using assms(2,3)
proof (induction k arbitrary: l p ts pre)
  case (Suc k)
  show ?case
  proof (cases "\<exists>s ts'. ts = Op s # ts' \<and> s \<in> {Times_s, Over_s}")
    case False
    with Suc(2) have "((l, p), ts) = ((v, q), rest)" by (auto split: list.splits tok.splits sym.splits)
    with Suc(3) show ?thesis by auto
  next
    case True
    then obtain s ts' where ts: "ts = Op s # ts'" "s \<in> {Times_s, Over_s}" by auto
    define op where "op = (\<lambda>a b :: rat. if s = Times_s then a * b else a / b)"
    from Suc(2) ts obtain r pr ts'' where u: "u ts' = Inr ((r, pr), ts'')" and nz: "s = Over_s \<longrightarrow> r \<noteq> 0"
      and loop: "term_loop u k (op l r) False ts'' = Inr ((v, q), rest)"
      by (auto simp: ebind_Inr_iff op_def expr_error_def split: if_splits)
    from u assms(1) obtain m where m: "ts' = m @ ts''" "unary_g n m r pr" unfolding sound_unary_def by blast
    have "term_g n (pre @ Op s # m) (op l r) False" using ts(2) Suc(3) m(2) nz by (auto simp: op_def intro: term_mul term_div)
    from Suc(1) [OF loop this] obtain mid where "ts'' = mid @ rest" "term_g n ((pre @ Op s # m) @ mid) v q" by blast
    then show ?thesis by (intro exI [of _ "Op s # m @ mid"]) (simp add: ts m)
  qed
qed auto

lemma parse_term_sound:
  assumes "sound_unary n u" "parse_term u ts = Inr ((v, p), rest)"
  shows "\<exists>pre. ts = pre @ rest \<and> pre \<noteq> [] \<and> term_g n pre v p"
proof -
  from assms(2) obtain w q ts' where u: "u ts = Inr ((w, q), ts')" and loop: "term_loop u (length ts') w q ts' = Inr ((v, p), rest)"
    by (auto simp: parse_term_def ebind_Inr_iff)
  from u assms(1) obtain pre where pre: "ts = pre @ ts'" "pre \<noteq> []" "unary_g n pre w q" unfolding sound_unary_def by blast
  from term_loop_sound [OF assms(1) loop term_one [OF pre(3)]] obtain mid where "ts' = mid @ rest" "term_g n (pre @ mid) v p" by blast
  with pre show ?thesis by (intro exI [of _ "pre @ mid"]) simp
qed

lemma expr_loop_sound:
  assumes "sound_unary n u" "expr_loop u k l ts = Inr (v, rest)" "expr_g n pre l"
  shows "\<exists>mid. ts = mid @ rest \<and> expr_g n (pre @ mid) v"
  using assms(2,3)
proof (induction k arbitrary: l ts pre)
  case (Suc k)
  show ?case
  proof (cases "\<exists>s ts'. ts = Op s # ts' \<and> s \<in> {Plus_s, Minus_s}")
    case False
    with Suc(2) have "(l, ts) = (v, rest)" by (auto split: list.splits tok.splits sym.splits)
    with Suc(3) show ?thesis by auto
  next
    case True
    then obtain s ts' where ts: "ts = Op s # ts'" "s \<in> {Plus_s, Minus_s}" by auto
    define op where "op = (\<lambda>a b :: rat. if s = Plus_s then a + b else a - b)"
    from Suc(2) ts obtain r p ts'' where t: "parse_term u ts' = Inr ((r, p), ts'')"
      and loop: "expr_loop u k (op l (if p then l * r else r)) ts'' = Inr (v, rest)"
      by (auto simp: ebind_Inr_iff op_def)
    from parse_term_sound [OF assms(1) t] obtain m where m: "ts' = m @ ts''" "term_g n m r p" by blast
    have "expr_g n (pre @ Op s # m) (op l (if p then l * r else r))"
      using ts(2) expr_add [OF Suc(3) m(2)] expr_sub [OF Suc(3) m(2)] by (auto simp: op_def)
    from Suc(1) [OF loop this] obtain mid where "ts'' = mid @ rest" "expr_g n ((pre @ Op s # m) @ mid) v" by blast
    then show ?thesis by (intro exI [of _ "Op s # m @ mid"]) (simp add: ts m)
  qed
qed auto

lemma parse_expr_sound:
  assumes "sound_unary n u" "parse_expr u ts = Inr (v, rest)"
  shows "\<exists>pre. ts = pre @ rest \<and> pre \<noteq> [] \<and> expr_g n pre v"
proof -
  from assms(2) obtain w q ts' where t: "parse_term u ts = Inr ((w, q), ts')" and loop: "expr_loop u (length ts') w ts' = Inr (v, rest)"
    by (auto simp: parse_expr_def ebind_Inr_iff)
  from parse_term_sound [OF assms(1) t] obtain pre where pre: "ts = pre @ ts'" "pre \<noteq> []" "term_g n pre w q" by blast
  from expr_loop_sound [OF assms(1) loop expr_one [OF pre(3)]] obtain mid where "ts' = mid @ rest" "expr_g n (pre @ mid) v" by blast
  with pre show ?thesis by (intro exI [of _ "pre @ mid"]) simp
qed

lemma postfix_from:
  assumes "postfix_loop v False ts = ((w, q), rest)" "primary_g n pre v"
  shows "\<exists>mid. ts = mid @ rest \<and> unary_g n (pre @ mid) w q"
  using postfix_loop_sound [OF assms(1) post_one [OF assms(2)]] unary_post by blast

lemma parse_unary_sound: "sound_unary n (parse_unary n)"
proof (induction n)
  case 0
  show ?case unfolding sound_unary_def
  proof (intro allI impI)
    fix ts v p rest
    assume run: "parse_unary 0 ts = Inr ((v, p), rest)"
    then obtain a ts' where ts: "ts = Num a # ts'" by (cases "(0::nat, ts)" rule: parse_unary.cases) (auto simp: expr_error_def)
    with run postfix_from [of a ts' v p rest 0 "[Num a]"] prim_num show "\<exists>pre. ts = pre @ rest \<and> pre \<noteq> [] \<and> unary_g 0 pre v p" by fastforce
  qed
next
  case (Suc n)
  show ?case unfolding sound_unary_def
  proof (intro allI impI)
    fix ts v p rest
    assume run: "parse_unary (Suc n) ts = Inr ((v, p), rest)"
    then consider (neg) ts' where "ts = Op Minus_s # ts'" | (pos) ts' where "ts = Op Plus_s # ts'" | (num) a ts' where "ts = Num a # ts'"
      | (par) ts' where "ts = Op LPar_s # ts'"
      by (cases "(Suc n, ts)" rule: parse_unary.cases) (auto simp: expr_error_def)
    then show "\<exists>pre. ts = pre @ rest \<and> pre \<noteq> [] \<and> unary_g (Suc n) pre v p"
    proof cases
      case neg
      with run obtain w where "parse_unary n ts' = Inr ((w, p), rest)" "v = - w" by (auto simp: ebind_Inr_iff)
      moreover from this(1) Suc obtain pre where "ts' = pre @ rest" "unary_g n pre w p" unfolding sound_unary_def by blast
      ultimately show ?thesis using neg unary_neg by (intro exI [of _ "Op Minus_s # pre"]) auto
    next
      case pos
      with run have "parse_unary n ts' = Inr ((v, p), rest)" by simp
      with Suc obtain pre where "ts' = pre @ rest" "unary_g n pre v p" unfolding sound_unary_def by blast
      then show ?thesis using pos unary_pos by (intro exI [of _ "Op Plus_s # pre"]) auto
    next
      case num
      with run postfix_from [of a ts' v p rest "Suc n" "[Num a]"] prim_num show ?thesis by fastforce
    next
      case par
      with run obtain w r where e0: "parse_expr (parse_unary n) ts' = Inr (w, r)"
        and k: "(case r of Op RPar_s # rest \<Rightarrow> Inr (postfix_loop w False rest) | _ \<Rightarrow> expr_error ''missing parenthesis'') = Inr ((v, p), rest)"
        by (auto simp only: parse_unary.simps nat.case ebind_Inr_iff prod.case)
      from k obtain ts'' where r: "r = Op RPar_s # ts''" unfolding expr_error_def by (cases r) (simp_all split: tok.splits sym.splits)
      with e0 k have e: "parse_expr (parse_unary n) ts' = Inr (w, Op RPar_s # ts'')" and post: "postfix_loop w False ts'' = ((v, p), rest)"
        by simp_all
      from parse_expr_sound [OF Suc e] obtain pre where pre: "ts' = pre @ Op RPar_s # ts''" "expr_g n pre w" by blast
      from postfix_from [OF post prim_par [OF pre(2)]] obtain mid where "ts'' = mid @ rest"
        "unary_g (Suc n) ((Op LPar_s # pre @ [Op RPar_s]) @ mid) v p" by blast
      with par pre show ?thesis by (intro exI [of _ "(Op LPar_s # pre @ [Op RPar_s]) @ mid"]) simp
    qed
  qed
qed

subsubsection \<open>What is in the grammar is read\<close>

definition shrinks :: "'a parser \<Rightarrow> bool" where
  "shrinks u \<longleftrightarrow> (\<forall>ts r rest. u ts = Inr (r, rest) \<longrightarrow> length rest < length ts)"

lemma shrinks_unary: "shrinks (parse_unary n)"
proof -
  have "length rest < length ts" if "parse_unary n ts = Inr ((v, p), rest)" for ts v p rest
  proof -
    from that parse_unary_sound obtain pre where "ts = pre @ rest" "pre \<noteq> []" unfolding sound_unary_def by blast
    then show ?thesis by simp
  qed
  then show ?thesis by (auto simp: shrinks_def)
qed

lemma shrinks_term: "shrinks (parse_term (parse_unary n))"
proof -
  have "length rest < length ts" if "parse_term (parse_unary n) ts = Inr ((v, p), rest)" for ts v p rest
    using parse_term_sound [OF parse_unary_sound that] by auto
  then show ?thesis by (auto simp: shrinks_def)
qed

text \<open>The number of turns given to a loop does not matter once it is at least the number of tokens left.\<close>

lemma term_loop_turns:
  assumes "shrinks u" "length ts \<le> j" "length ts \<le> k"
  shows "term_loop u j l p ts = term_loop u k l p ts"
  using assms(2,3)
proof (induction j arbitrary: k l p ts)
  case 0
  then show ?case by (cases k) auto
next
  case (Suc j)
  show ?case
  proof (cases k)
    case 0
    with Suc(3) show ?thesis by simp
  next
    case (Suc k')
    have "term_loop u j l' p' ts' = term_loop u k' l' p' ts'" if "u r = Inr (x, ts')" "length r < length ts" for r x ts' l' p'
    proof (rule Suc.IH)
      have "length ts' < length r" using assms(1) that(1) unfolding shrinks_def by blast
      then show "length ts' \<le> j" "length ts' \<le> k'" using that(2) Suc.prems Suc by simp_all
    qed
    then have "ebind (u r) (\<lambda>((v, _), ts'). term_loop u j (f v) False ts') = ebind (u r) (\<lambda>((v, _), ts'). term_loop u k' (f v) False ts')"
        "ebind (u r) (\<lambda>((v, _), ts'). if v = 0 then e else term_loop u j (f v) False ts') =
         ebind (u r) (\<lambda>((v, _), ts'). if v = 0 then e else term_loop u k' (f v) False ts')" if "length r < length ts" for r f e
      using that by (auto simp: ebind_def split: sum.split)
    then show ?thesis using Suc by (auto split: list.split tok.split sym.split)
  qed
qed

lemma expr_loop_turns:
  assumes "shrinks (parse_term u)" "length ts \<le> j" "length ts \<le> k"
  shows "expr_loop u j l ts = expr_loop u k l ts"
  using assms(2,3)
proof (induction j arbitrary: k l ts)
  case 0
  then show ?case by (cases k) auto
next
  case (Suc j)
  show ?case
  proof (cases k)
    case 0
    with Suc(3) show ?thesis by simp
  next
    case (Suc k')
    have "expr_loop u j l' ts' = expr_loop u k' l' ts'" if "parse_term u r = Inr (x, ts')" "length r < length ts" for r x ts' l'
    proof (rule Suc.IH)
      have "length ts' < length r" using assms(1) that(1) unfolding shrinks_def by blast
      then show "length ts' \<le> j" "length ts' \<le> k'" using that(2) Suc.prems Suc by simp_all
    qed
    then have "ebind (parse_term u r) (\<lambda>((v, p), ts'). expr_loop u j (f v p) ts') =
        ebind (parse_term u r) (\<lambda>((v, p), ts'). expr_loop u k' (f v p) ts')" if "length r < length ts" for r f
      using that by (auto simp: ebind_def split: sum.split)
    then show ?thesis using Suc by (auto split: list.split tok.split sym.split)
  qed
qed

text \<open>\<open>stops S rest\<close>: the tokens left do not begin with an operator of \<open>S\<close>.\<close>

definition stops :: "sym set \<Rightarrow> tok list \<Rightarrow> bool" where
  "stops S ts \<longleftrightarrow> (case ts of Op s # _ \<Rightarrow> s \<notin> S | _ \<Rightarrow> True)"

lemma postfix_stops: "stops {Percent_s} ts \<Longrightarrow> postfix_loop v p ts = ((v, p), ts)"
  by (cases "(v, p, ts)" rule: postfix_loop.cases) (auto simp: stops_def)

lemma term_stops: "stops {Times_s, Over_s} ts \<Longrightarrow> term_loop u k l p ts = Inr ((l, p), ts)"
  by (cases k) (auto simp: stops_def split: list.split tok.split sym.split)

lemma expr_stops: "stops {Plus_s, Minus_s} ts \<Longrightarrow> expr_loop u k l ts = Inr (l, ts)"
  by (cases k) (auto simp: stops_def split: list.split tok.split sym.split)

lemma grammar_read:
  "expr_g n ts v \<Longrightarrow> stops {Times_s, Over_s, Percent_s} rest \<Longrightarrow>
     parse_expr (parse_unary n) (ts @ rest) = expr_loop (parse_unary n) (length rest) v rest"
  "term_g n ts v p \<Longrightarrow> stops {Percent_s} rest \<Longrightarrow>
     parse_term (parse_unary n) (ts @ rest) = term_loop (parse_unary n) (length rest) v p rest"
  "unary_g n ts v p \<Longrightarrow> stops {Percent_s} rest \<Longrightarrow> parse_unary n (ts @ rest) = Inr ((v, p), rest)"
  "postfix_g n ts v p \<Longrightarrow> parse_unary n (ts @ rest) = Inr (postfix_loop v p rest)"
  "primary_g n ts v \<Longrightarrow> parse_unary n (ts @ rest) = Inr (postfix_loop v False rest)"
proof (induction arbitrary: rest and rest and rest and rest and rest rule: expr_g_term_g_unary_g_postfix_g_primary_g.inducts)
  case (expr_one n ts v p)
  from expr_one(3) have "stops {Percent_s} rest" "stops {Times_s, Over_s} rest" by (auto simp: stops_def split: list.splits tok.splits)
  with expr_one(2) show ?case by (simp add: parse_expr_def term_stops)
next
  case (expr_add n ss l ts v p)
  from expr_add.prems have st: "stops {Percent_s} rest" "stops {Times_s, Over_s} rest" by (auto simp: stops_def split: list.splits tok.splits)
  have "parse_expr (parse_unary n) (ss @ Op Plus_s # ts @ rest) = expr_loop (parse_unary n) (Suc (length (ts @ rest))) l (Op Plus_s # ts @ rest)"
    using expr_add.IH(1) [of "Op Plus_s # ts @ rest"] by (simp add: stops_def)
  also have "\<dots> = expr_loop (parse_unary n) (length (ts @ rest)) (l + (if p then l * v else v)) rest"
    using expr_add.IH(2) [OF st(1)] by (simp add: term_stops [OF st(2)])
  also have "\<dots> = expr_loop (parse_unary n) (length rest) (l + (if p then l * v else v)) rest"
    by (rule expr_loop_turns [OF shrinks_term]) simp_all
  finally show ?case by simp
next
  case (expr_sub n ss l ts v p)
  from expr_sub.prems have st: "stops {Percent_s} rest" "stops {Times_s, Over_s} rest" by (auto simp: stops_def split: list.splits tok.splits)
  have "parse_expr (parse_unary n) (ss @ Op Minus_s # ts @ rest) = expr_loop (parse_unary n) (Suc (length (ts @ rest))) l (Op Minus_s # ts @ rest)"
    using expr_sub.IH(1) [of "Op Minus_s # ts @ rest"] by (simp add: stops_def)
  also have "\<dots> = expr_loop (parse_unary n) (length (ts @ rest)) (l - (if p then l * v else v)) rest"
    using expr_sub.IH(2) [OF st(1)] by (simp add: term_stops [OF st(2)])
  also have "\<dots> = expr_loop (parse_unary n) (length rest) (l - (if p then l * v else v)) rest"
    by (rule expr_loop_turns [OF shrinks_term]) simp_all
  finally show ?case by simp
next
  case (term_one n ts v p)
  then show ?case by (simp add: parse_term_def)
next
  case (term_mul n ss l p ts v q)
  have "parse_term (parse_unary n) (ss @ Op Times_s # ts @ rest) = term_loop (parse_unary n) (Suc (length (ts @ rest))) l p (Op Times_s # ts @ rest)"
    using term_mul.IH(1) [of "Op Times_s # ts @ rest"] by (simp add: stops_def)
  also have "\<dots> = term_loop (parse_unary n) (length (ts @ rest)) (l * v) False rest" using term_mul.IH(2) [OF term_mul.prems] by simp
  also have "\<dots> = term_loop (parse_unary n) (length rest) (l * v) False rest" by (rule term_loop_turns [OF shrinks_unary]) simp_all
  finally show ?case by simp
next
  case (term_div n ss l p ts v q)
  have "parse_term (parse_unary n) (ss @ Op Over_s # ts @ rest) = term_loop (parse_unary n) (Suc (length (ts @ rest))) l p (Op Over_s # ts @ rest)"
    using term_div.IH(1) [of "Op Over_s # ts @ rest"] by (simp add: stops_def)
  also have "\<dots> = term_loop (parse_unary n) (length (ts @ rest)) (l / v) False rest" using term_div.IH(2) [OF term_div.prems] term_div.hyps(3) by simp
  also have "\<dots> = term_loop (parse_unary n) (length rest) (l / v) False rest" by (rule term_loop_turns [OF shrinks_unary]) simp_all
  finally show ?case by simp
next
  case (unary_post n ts v p)
  then show ?case by (simp add: postfix_stops)
next
  case (prim_par n ts v)
  have "parse_expr (parse_unary n) (ts @ Op RPar_s # rest) = Inr (v, Op RPar_s # rest)"
    using prim_par(2) [of "Op RPar_s # rest"] expr_stops [of "Op RPar_s # rest"] by (simp add: stops_def)
  then show ?case by simp
qed simp_all

lemma parse_grammar: "parse ts = Inr v \<longleftrightarrow> expr_g MAX_DEPTH ts v"
proof
  assume "parse ts = Inr v"
  then have "parse_expr (parse_unary MAX_DEPTH) ts = Inr (v, [])" by (auto simp: parse_def expr_error_def ebind_Inr_iff split: if_splits)
  with parse_expr_sound [OF parse_unary_sound] show "expr_g MAX_DEPTH ts v" by fastforce
next
  assume g: "expr_g MAX_DEPTH ts v"
  have "parse_expr (parse_unary MAX_DEPTH) ts = Inr (v, [])" using grammar_read(1) [OF g, of "[]"] by (simp add: stops_def)
  moreover from this parse_expr_sound [OF parse_unary_sound] have "ts \<noteq> []" by fastforce
  ultimately show "parse ts = Inr v" by (simp add: parse_def)
qed

text \<open>
  C8: the parser accepts exactly the token lists of the grammar of the header comment, with signs and parentheses nested at
  most 32 deep, and returns the value the grammar gives them; so a phrase has one value, and a list outside the grammar (an
  empty one, a division by zero, deeper nesting) is refused.
\<close>

theorem parse_exactly_grammar: "parse ts = Inr v \<longleftrightarrow> expr_g MAX_DEPTH ts v"
  by (rule parse_grammar)

subsection \<open>Formatting\<close>

definition formatFixed :: "rat \<Rightarrow> nat \<Rightarrow> string" where
  "formatFixed r decimals = (let (n, d) = quotient_of r; scaled = \<bar>n\<bar> * 10 ^ decimals; rem = scaled mod d;
     q = nat (scaled div d + (if d \<le> rem * 2 then 1 else 0)) in
     if q = 0 then (if 0 < decimals then ''0.'' @ replicate decimals (CHR ''0'') else ''0'')
     else let s = show_nat q; s = (if 0 < decimals then (let t = pad_start (decimals + 1) (CHR ''0'') s; k = length t - decimals in
         take k t @ ''.'' @ drop k t) else s) in
       if n < 0 then CHR ''-'' # s else s)"

text \<open>The denominator with the factor \<open>k\<close> divided out, and how often it went.\<close>

function divide_out :: "nat \<Rightarrow> nat \<Rightarrow> nat \<times> nat" where
  "divide_out k d = (if 1 < k \<and> 0 < d \<and> d mod k = 0 then (case divide_out k (d div k) of (d', m) \<Rightarrow> (d', Suc m)) else (d, 0))"
  by pat_completeness auto
termination
  by (relation "measure snd") auto

declare divide_out.simps [simp del]

definition trim_zeros :: "string \<Rightarrow> string" where
  "trim_zeros s = (if CHR ''.'' \<notin> set s then s else
     let t = rev (dropWhile (\<lambda>c. c = CHR ''0'') (rev s)) in if t \<noteq> [] \<and> last t = CHR ''.'' then butlast t else t)"

definition format_exact :: "rat \<Rightarrow> string" where
  "format_exact r = (let (n, d) = quotient_of r; (d10, a) = divide_out 10 (nat d); (d2, b) = divide_out 2 d10; (d5, c) = divide_out 5 d2 in
     trim_zeros (formatFixed r (if d5 = 1 then a + b + c else 10)))"

text \<open>The argument of \<open>format\<close> is a whole number; it is kept between 0 and 10.\<close>

definition format_result :: "rat \<Rightarrow> int option \<Rightarrow> string" where
  "format_result r decimals = (case decimals of None \<Rightarrow> format_exact r | Some k \<Rightarrow> formatFixed r (nat (max 0 (min 10 k))))"

subsection \<open>The whole evaluation\<close>

text \<open>
  \<open>Number(x)\<close> of a bigint and the quotient of two Numbers are doubles; \<open>None\<close> is infinity.  A finite number over an
  infinite one is 0, an infinite one over anything is not finite.
\<close>

definition number_value :: "rat \<Rightarrow> rat option" where
  "number_value r = (case quotient_of r of (n, d) \<Rightarrow> (case (double_of (of_int n), double_of (of_int d)) of
     (None, _) \<Rightarrow> None | (Some a, None) \<Rightarrow> Some 0 | (Some a, Some b) \<Rightarrow> double_of (a / b)))"

record expression_value =
  xv_value :: rat
  xv_format :: "int option \<Rightarrow> string"
  xv_isInteger :: bool

definition is_unit_space :: "nat \<Rightarrow> bool" where
  "is_unit_space c \<longleftrightarrow> c \<in> {9, 10, 11, 12, 13, 32, 160, 5760, 8232, 8233, 8239, 8287, 12288, 65279} \<or> 8192 \<le> c \<and> c \<le> 8202"

definition trim_units :: "units \<Rightarrow> units" where
  "trim_units s = rev (dropWhile is_unit_space (rev (dropWhile is_unit_space s)))"

definition evaluateExpression :: "units \<Rightarrow> expression_value result" where
  "evaluateExpression input = (let src = trim_units input in
     if EXPRESSION_MAX_LENGTH < length src then expr_error ''Expression is too long'' else
     let src = (case src of c # cs \<Rightarrow> if c = 61 then trim_units cs else src | [] \<Rightarrow> src) in
     ebind (tokenize src) (\<lambda>toks. ebind (parse toks) (\<lambda>r.
     case number_value r of None \<Rightarrow> expr_error ''Number is too large''
     | Some v \<Rightarrow> if MAX_ABS_RESULT \<le> \<bar>v\<bar> then expr_error ''Number is too large''
         else Inr \<lparr>xv_value = v, xv_format = format_result r, xv_isInteger = (snd (quotient_of r) = 1)\<rparr>)))"

definition isPlainNumberText :: "units \<Rightarrow> bool" where
  "isPlainNumberText text = (let s = trim_units text; s = (case s of c # cs \<Rightarrow> if c = 45 then cs else s | [] \<Rightarrow> s);
     r = dropWhile digit_unit s in r = [] \<or> hd r = 46 \<and> list_all digit_unit (tl r))"

subsubsection \<open>A formatted number reads back as the rounded number\<close>

definition units_of :: "string \<Rightarrow> units" where
  "units_of s = map of_char s"

lemma of_char_digit [simp]: "digit_unit (of_char c) = is_digit c"
  by (simp add: digit_unit_def is_digit_def)

text \<open>A plain number: digits, with a point and more digits if there are decimals.\<close>

definition plain :: "string \<Rightarrow> bool" where
  "plain s \<longleftrightarrow> s \<noteq> [] \<and> is_digit (hd s) \<and> list_all (\<lambda>c. is_digit c \<or> c = CHR ''.'') s"

lemma tokenize_plain:
  assumes "plain s"
  shows "tokenize (units_of s) = ebind (parseNumberToken s) (\<lambda>v. Inr [Num v])"
proof -
  from assms obtain c cs where s: "s = c # cs" and c: "is_digit c" and cs: "list_all (\<lambda>c. is_digit c \<or> c = CHR ''.'') cs"
    by (cases s) (auto simp: plain_def)
  have num: "num_unit (of_char x)" if "is_digit x \<or> x = CHR ''.''" for x
    using that of_char_digit [of x] by (auto simp: num_unit_def)
  have all: "takeWhile num_unit (units_of cs) = units_of cs" "dropWhile num_unit (units_of cs) = []"
    using cs num by (auto simp: units_of_def list_all_iff takeWhile_eq_all_conv dropWhile_eq_Nil_conv)
  have "digit_unit (of_char c)" using c by simp
  then have "(of_char c :: nat) \<notin> {32, 9, 160}" "(of_char c :: nat) \<noteq> 36" "(of_char c :: nat) \<noteq> 44" "num_unit (of_char c)"
    by (auto simp: digit_unit_def num_unit_def)
  moreover have "map char_of (units_of cs) = cs" by (simp add: units_of_def o_def)
  ultimately show ?thesis by (simp add: s units_of_def [of "c # cs"] units_of_def [symmetric] all cong: ebind_cong)
qed

lemma digit_not_point: "is_digit c \<Longrightarrow> c \<noteq> CHR ''.''"
  by (auto simp: is_digit_def)

lemma takeWhile_digits: "list_all is_digit w \<Longrightarrow> takeWhile (\<lambda>c. c \<noteq> CHR ''.'') (w @ CHR ''.'' # f) = w"
    "list_all is_digit w \<Longrightarrow> takeWhile (\<lambda>c. c \<noteq> CHR ''.'') w = w" "list_all is_digit w \<Longrightarrow> dropWhile (\<lambda>c. c \<noteq> CHR ''.'') w = []"
    "list_all is_digit w \<Longrightarrow> dropWhile (\<lambda>c. c \<noteq> CHR ''.'') (w @ CHR ''.'' # f) = CHR ''.'' # f"
  by (induction w) (simp_all add: digit_not_point)

lemma parse_whole: "list_all is_digit w \<Longrightarrow> w \<noteq> [] \<Longrightarrow> parseNumberToken w = Inr (of_nat (nat_of_digits w))"
  by (simp add: parseNumberToken_def Let_def takeWhile_digits list_all_iff)

lemma parse_decimal:
  "list_all is_digit w \<Longrightarrow> list_all is_digit f \<Longrightarrow> w \<noteq> [] \<Longrightarrow>
     parseNumberToken (w @ CHR ''.'' # f) = Inr (of_nat (nat_of_digits (w @ f)) / 10 ^ length f)"
  by (simp add: parseNumberToken_def Let_def takeWhile_digits list_all_iff)

text \<open>The unsigned text of \<open>q\<close> units of \<open>10\<close> to the power \<open>- p\<close>.\<close>

definition fixed_text :: "nat \<Rightarrow> nat \<Rightarrow> string" where
  "fixed_text q p = (if q = 0 then (if 0 < p then ''0.'' @ replicate p (CHR ''0'') else ''0'') else
     if 0 < p then (let t = pad_start (p + 1) (CHR ''0'') (show_nat q); k = length t - p in take k t @ ''.'' @ drop k t) else show_nat q)"

lemma fixed_text_reads: "tokenize (units_of (fixed_text q p)) = Inr [Num (of_nat q / 10 ^ p)]"
proof (cases "p = 0")
  case True
  have "fixed_text q p = show_nat q" using True by (simp add: fixed_text_def show_nat_small)
  moreover have "plain (show_nat q)" using show_nat_digits [of q] by (cases "show_nat q") (auto simp: plain_def list_all_iff)
  ultimately show ?thesis using True by (simp add: tokenize_plain parse_whole show_nat_digits)
next
  case False
  let ?z = "CHR ''0''"
  define t where "t = (if q = 0 then replicate (p + 1) ?z else pad_start (p + 1) ?z (show_nat q))"
  define k where "k = length t - p"
  have dig: "list_all is_digit t" using show_nat_digits [of q] by (auto simp: t_def pad_start_def list_all_iff is_digit_def)
  have len: "p < length t" by (auto simp: t_def pad_start_def)
  have val: "nat_of_digits t = q" by (simp add: t_def pad_start_def nat_of_digits_append nat_of_digits_Cons)
  have shown: "fixed_text q p = take k t @ CHR ''.'' # drop k t" using False by (auto simp: fixed_text_def t_def k_def Let_def)
  have parts: "list_all is_digit (take k t)" "list_all is_digit (drop k t)" "take k t \<noteq> []" "length (drop k t) = p"
    using dig len by (auto simp: list_all_iff k_def dest: in_set_takeD in_set_dropD)
  have "is_digit (hd t)" using dig len by (cases t) auto
  with parts have "plain (fixed_text q p)" unfolding shown by (auto simp: plain_def list_all_iff hd_append)
  moreover have "parseNumberToken (fixed_text q p) = Inr (of_nat q / 10 ^ p)"
    using parse_decimal [OF parts(1,2,3)] unfolding shown parts(4) append_take_drop_id val .
  ultimately show ?thesis by (simp add: tokenize_plain)
qed

lemma formatFixed_text:
  obtains q where "formatFixed r p = (if r < 0 \<and> q \<noteq> 0 then CHR ''-'' # fixed_text q p else fixed_text q p)" "rnd p r = sgn r * (of_nat q / 10 ^ p)" "r = 0 \<Longrightarrow> q = 0"
proof -
  obtain n d where nd: "quotient_of r = (n, d)" by fastforce
  then have d: "0 < d" and r: "r = of_int n / of_int d" using quotient_of_denom_pos quotient_of_div by auto
  define q where "q = nat (\<bar>n\<bar> * 10 ^ p div d + (if d \<le> \<bar>n\<bar> * 10 ^ p mod d * 2 then 1 else 0))"
  have neg: "r < 0 \<longleftrightarrow> n < 0" using d by (simp add: r divide_less_0_iff)
  have fmt: "formatFixed r p = (if r < 0 \<and> q \<noteq> 0 then CHR ''-'' # fixed_text q p else fixed_text q p)"
    unfolding formatFixed_def fixed_text_def nd Let_def prod.case q_def [symmetric] neg by simp
  have "\<bar>r\<bar> * 10 ^ p = of_int (\<bar>n\<bar> * 10 ^ p) / of_int d" using d by (simp add: r abs_divide)
  then have "\<lfloor>\<bar>r\<bar> * 10 ^ p + 1 / 2\<rfloor> = \<bar>n\<bar> * 10 ^ p div d + (if d \<le> 2 * (\<bar>n\<bar> * 10 ^ p mod d) then 1 else 0)"
    using floor_half_div [OF d, of "\<bar>n\<bar> * 10 ^ p"] by simp
  then have "\<lfloor>\<bar>r\<bar> * 10 ^ p + 1 / 2\<rfloor> = int q"
    using d by (simp add: q_def mult.commute pos_imp_zdiv_nonneg_iff)
  then have "rnd p r = sgn r * (of_nat q / 10 ^ p)" by (simp add: rnd_def)
  moreover have "q = 0" if "r = 0"
  proof -
    have "n = 0" using that r d by simp
    then show ?thesis using d by (simp add: q_def)
  qed
  ultimately show thesis using fmt by (intro that)
qed

text \<open>
  The text \<open>formatFixed\<close> prints is read back by the tokenizer and the parser as the number rounded half away from zero to
  the decimals asked for.
\<close>

lemma format_reads_back: "ebind (tokenize (units_of (formatFixed r p))) parse = Inr (rnd p r)"
proof (rule formatFixed_text [of r p])
  fix q
  assume shown: "formatFixed r p = (if r < 0 \<and> q \<noteq> 0 then CHR ''-'' # fixed_text q p else fixed_text q p)"
    and val: "rnd p r = sgn r * (of_nat q / 10 ^ p)" and zero: "r = 0 \<Longrightarrow> q = 0"
  have one: "parse [Num v] = Inr v" for v
    unfolding parse_grammar by (rule expr_one [OF term_one [OF unary_post [OF post_one [OF prim_num]]]])
  have "unary_g 32 [Op Minus_s, Num v] (- v) False" for v
    using unary_neg [OF unary_post [OF post_one [OF prim_num]], of 31 v] by simp
  then have neg: "parse [Op Minus_s, Num v] = Inr (- v)" for v
    unfolding parse_grammar MAX_DEPTH_def by (rule expr_one [OF term_one])
  show ?thesis
  proof (cases "r < 0 \<and> q \<noteq> 0")
    case True
    then have "units_of (formatFixed r p) = 45 # units_of (fixed_text q p)" by (simp add: shown units_of_def)
    then have "tokenize (units_of (formatFixed r p)) = Inr [Op Minus_s, Num (of_nat q / 10 ^ p)]"
      by (simp add: fixed_text_reads num_unit_def digit_unit_def OP_MAP_def)
    with True show ?thesis by (simp add: neg val)
  next
    case False
    then have "tokenize (units_of (formatFixed r p)) = Inr [Num (of_nat q / 10 ^ p)]" by (simp only: shown if_False fixed_text_reads)
    moreover have "rnd p r = of_nat q / 10 ^ p" using False zero by (cases "r = 0") (auto simp: val sgn_if)
    ultimately show ?thesis by (simp add: one)
  qed
qed

end
