(* ===== verification/Spec2Isabelle.thy ===== *)
theory Spec2Isabelle
  imports RegularTax PayrollTaxes Payments Dates Penalty Holidays OwnerDeductions Dependents Federal SafeHarbor SchAi LedgerClaims Expression
begin

text \<open>
  Vibe MyBooks is a multi-tenant bookkeeping system written in TypeScript: shared pure code
  (packages/shared), an Express and PostgreSQL API (packages/api), a React client (packages/web), a
  worker, an installer and a desktop shell.  This development models three parts of it: the tax estimator
  (packages/shared/src/tax-estimator), the general ledger of the API (packages/api/src/services) and the
  calculator of the input fields (packages/shared/src/utils/expression.ts).

  How the parts interact.  The API loads a taxpayer's parameters and year-to-date books and calls
  \<open>computeFederal\<close>; its fourteen steps run on one context that records the parameters used, the trace and
  the warnings.  The estimate modules (safe harbor, Schedule AI, payments, penalty) run on an estimate
  context around it; Schedule AI calls the federal calculation once per period.  The ledger handlers read
  and write the rows of a tenant inside one database transaction; journal entries are created and edited
  through them.

  Conventions.  An exception is a value (\<open>'a result\<close>: \<open>Inl\<close> the error, \<open>Inr\<close> the result; \<open>ebind\<close> is the order
  of two calls), a context or the database is passed explicitly (\<open>comp\<close>, \<open>cbind\<close>), a \<open>Map\<close> is an
  association list in insertion order, a date is its text.  Texts shown to a reader (labels, notes,
  formulas) are left out, the codes and details of warnings and errors are kept.

  Foundations:

  \<^item> \<open>Prelude\<close>: results, folds that may throw, digits and \<open>show_nat\<close>, rounding of rationals (\<open>rnd\<close>).
  \<^item> \<open>JsNumber\<close>: the doubles behind \<open>Number(...)\<close>, with their error bound.
  \<^item> \<open>Decimal\<close> (tax-estimator/decimal.ts): amounts as decimal strings, parsed to scaled integers as the code
    does.  \<open>denotes\<close> relates a string to its rational; the operations are shown exact, division correctly
    rounded and every printed result canonical.  The locale \<open>decimal_arith\<close>, interpreted on these functions,
    is what allows the later theories to compute on rationals (\<open>money\<close>).
  \<^item> \<open>Calendar\<close>, \<open>Dates\<close>, \<open>Holidays\<close> (\<open>Date.UTC\<close>, tax-estimator/dates.ts, utils/calendar-date.ts): day numbers and
    civil dates, the functions on date strings, business days, legal holidays, their inference and the
    roll of statutory dates.  \<open>occurs\<close> and \<open>observed_day\<close> say in the civil calendar what a rule means;
    \<open>run_before\<close> says which days an observed date can stand for.  The search of \<open>nextBusinessDay\<close>
    ends because the text of a late enough day is longer than every listed text.
  \<^item> \<open>Registry\<close> (parameterKeys.ts): the registry and the validation of parameter values.

  Tax estimator, all under tax-estimator/engine:

  \<^item> \<open>EngineBase\<close> (context.ts, parameters.ts), \<open>FederalTypes\<close> (types.ts): the context with \<open>sound\<close> and \<open>ctx_ok\<close>, the
    invariant that every step keeps, the parameter reader, the records of the input.
  \<^item> \<open>PyTrend\<close> (py-trend.ts), \<open>Income\<close> (income.ts), \<open>LossLimits\<close> (loss-limits.ts): projection, allocation to the
    owners, totals per person, losses; conservation of every amount.  The locale \<open>income_measure\<close> states
    conservation once for any additive measure of a person.
  \<^item> \<open>PayrollTaxes\<close> (se-tax.ts, other-taxes.ts), \<open>OwnerDeductions\<close> (owner-deductions.ts), \<open>Deductions\<close>
    (deductions.ts), \<open>Qbi\<close> (qbi.ts), \<open>RegularTax\<close> (bracket-tax.ts), \<open>Dependents\<close> (dependents.ts): the steps, each
    with its formula or accounting theorem.
  \<^item> \<open>Federal\<close> (federal.ts) composes them; \<open>Totality\<close> shows that under \<open>params_complete\<close> no step throws.
  \<^item> \<open>EstimateBase\<close> (estimate-types.ts), \<open>SafeHarbor\<close> (safe-harbor.ts), \<open>SchAi\<close> (sch-ai.ts), \<open>Payments\<close>
    (payments.ts), \<open>Penalty\<close> (penalty.ts): the estimate modules.  The daily accrual is a loop over days whose
    measure is the distance to year 10000; \<open>rate_source\<close> is the contract of a rate lookup, interpreted
    on the schedule and the flat lookup.

  Ledger, under packages/api/src/services:

  \<^item> \<open>Books\<close> (the rows of the schema): accounts, transactions, lines, companies and the update of balances.
  \<^item> \<open>Ledger\<close> (ledger.service.ts): the closed-period check, posting, voiding and deleting with the automatic
    reversal, editing with its reconciled variant, balances.  The locale \<open>keeping\<close> is the contract of the
    handlers that change none of the rows that matter.
  \<^item> \<open>JournalEntries\<close> (journal-entry.service.ts): creating and editing an entry with its reversal.
  \<^item> \<open>LedgerInvariant\<close>, \<open>Reachable\<close>: lines balance per transaction, accounts.balance is the sum of the posted lines,
    identifiers are unique; every handler keeps this, so it holds in every state of the step relation
    \<open>reachable\<close>.
  \<^item> \<open>ClosedPeriod\<close>, \<open>LedgerClaims\<close>: what lets a change into a closed period; the properties of the ledger.

  Scope of the ledger.  General entries only (journal_entry and aje): inventory costing, sales tax rows,
  applications of payments and credits, billable costs and idempotency keys are left out.  A reachable state
  comes from amounts of at most four decimals and never voids or edits a draft; outside it the balances
  drift, as lemmas of \<open>LedgerClaims\<close> show.  bcrypt's comparison is an argument (\<open>lk_matches\<close>).  Voiding a
  transaction recurs through its automatic reversal, with the number of transactions not yet void as measure.

  Calculator:

  \<^item> \<open>Expression\<close> (utils/expression.ts): tokenizer, parser, evaluation and formatting.  The grammar of the file's
    comment is the inductive relation \<open>expr_g\<close>; the parser reads exactly it.  Nesting is bounded by
    \<open>MAX_DEPTH = 32\<close> as in the code; the loops of a sum and a product get as many turns as tokens are left, which
    lemmas \<open>term_loop_turns\<close> and \<open>expr_loop_turns\<close> show to be enough.

  Not modelled: the modules for vouchers, farmers, C corporations and states, the rounded results for the
  client, the other services of the API (SQL through a library, external services), schemas and types without
  operations, the React client, the worker and the installers.
\<close>

end
